(* ===== verification/Prelude.thy ===== *)
theory Prelude
  imports Complex_Main "HOL-Library.Word" "HOL-Library.Signed_Division" "HOL-Library.Multiset"
begin

text \<open>
  The shared base of the development: the type names of the C integers, the truncating
  remainder of C on \<open>int\<close>, list lemmas on the last entries of a list (the sliding window of
  the ring buffer), and the interfaces shared by several parts as locales: a transition system with an
  inductive invariant, a forward simulation, the sorting contract of \<open>qsort\<close>, and a store written by
  assignments.
\<close>

section \<open>Names for the machine types\<close>

text \<open>
  \<open>uint32_t\<close> and \<open>uint64_t\<close> are words of their width, so that \<open>+\<close> and \<open>-\<close> wrap as in C.
  A C \<open>int\<close> is an \<open>int\<close>: every \<open>int\<close> of the program is bounded by the configuration ranges or
  by the ring capacity, and the bounds that matter are proved where they are used.
\<close>

type_synonym u8 = "8 word"
type_synonym u16 = "16 word"
type_synonym u32 = "32 word"
type_synonym u64 = "64 word"

text \<open>Collections: equations of the model that the component proofs unfold together.\<close>

named_theorems ring_simps \<open>index arithmetic of the ring buffer\<close>
named_theorems reason_simps \<open>bits of the reason mask\<close>

section \<open>C arithmetic on int\<close>

text \<open>C division and remainder truncate towards zero; on non-negative operands they are \<open>div\<close>
  and \<open>mod\<close>.\<close>

abbreviation c_div :: "int \<Rightarrow> int \<Rightarrow> int" where
  "c_div a b \<equiv> a sdiv b"

abbreviation c_mod :: "int \<Rightarrow> int \<Rightarrow> int" where
  "c_mod a b \<equiv> a smod b"

lemma c_div_nonneg [simp]: "0 \<le> a \<Longrightarrow> 0 \<le> b \<Longrightarrow> c_div a b = a div b"
  by (simp add: signed_divide_int_def sgn_if)

lemma c_mod_nonneg [simp]: "0 \<le> a \<Longrightarrow> 0 \<le> b \<Longrightarrow> c_mod a b = a mod b"
  by (cases "a = 0") (simp_all add: signed_modulo_int_def)

section \<open>The last entries of a list\<close>

definition take_last :: "nat \<Rightarrow> 'a list \<Rightarrow> 'a list" where
  "take_last n xs = drop (length xs - n) xs"

lemma length_take_last [simp]: "length (take_last n xs) = min n (length xs)"
  by (simp add: take_last_def)

lemma take_last_all [simp]: "length xs \<le> n \<Longrightarrow> take_last n xs = xs"
  by (simp add: take_last_def)

lemma take_last_snoc: "0 < n \<Longrightarrow> take_last n (xs @ [x]) = take_last (n - 1) xs @ [x]"
  by (cases "length xs < n") (auto simp: take_last_def Suc_diff_le)

lemma take_last_take_last [simp]: "m \<le> n \<Longrightarrow> take_last m (take_last n xs) = take_last m xs"
  by (cases "length xs \<le> n") (auto simp: take_last_def)

lemma take_last_absorb_snoc: "0 < n \<Longrightarrow> take_last n (take_last n xs @ [x]) = take_last n (xs @ [x])"
  by (simp add: take_last_snoc)

lemma set_take_last: "set (take_last n xs) \<subseteq> set xs"
  by (simp add: take_last_def set_drop_subset)

lemma last_take_last [simp]: "0 < n \<Longrightarrow> xs \<noteq> [] \<Longrightarrow> last (take_last n xs) = last xs"
  by (simp add: take_last_def)

section \<open>Transition systems with an invariant\<close>

text \<open>
  A component that runs forever is a start predicate and a step relation. What it keeps is an
  invariant: true at the start, kept by every step, hence true in every reachable state.
\<close>

inductive reach :: "('s \<Rightarrow> bool) \<Rightarrow> ('s \<Rightarrow> 's \<Rightarrow> bool) \<Rightarrow> 's \<Rightarrow> bool" for init step where
  reach_init: "init s \<Longrightarrow> reach init step s"
| reach_step: "reach init step s \<Longrightarrow> step s t \<Longrightarrow> reach init step t"

locale invariant_system =
  fixes init :: "'s \<Rightarrow> bool"
    and step :: "'s \<Rightarrow> 's \<Rightarrow> bool"
    and inv :: "'s \<Rightarrow> bool"
  assumes inv_init: "init s \<Longrightarrow> inv s"
    and inv_step: "inv s \<Longrightarrow> step s t \<Longrightarrow> inv t"
begin

lemma reach_inv: "reach init step s \<Longrightarrow> inv s"
  by (induction rule: reach.induct) (auto intro: inv_init inv_step)

end

text \<open>
  A forward simulation: every step of the detailed system is matched by one step of the abstract one,
  or by none. Then every reachable state of the detailed system is related to a reachable state of the
  abstract one.
\<close>

locale forward_simulation =
  fixes init :: "'s \<Rightarrow> bool"
    and step :: "'s \<Rightarrow> 's \<Rightarrow> bool"
    and ainit :: "'a \<Rightarrow> bool"
    and astep :: "'a \<Rightarrow> 'a \<Rightarrow> bool"
    and rel :: "'s \<Rightarrow> 'a \<Rightarrow> bool"
  assumes sim_init: "init s \<Longrightarrow> \<exists>a. ainit a \<and> rel s a"
    and sim_step: "reach init step s \<Longrightarrow> rel s a \<Longrightarrow> step s t \<Longrightarrow> \<exists>b. (b = a \<or> astep a b) \<and> rel t b"
begin

lemma sim_reach: "reach init step s \<Longrightarrow> \<exists>a. reach ainit astep a \<and> rel s a"
proof (induction rule: reach.induct)
  case (reach_init s)
  then show ?case using sim_init reach.reach_init by metis
next
  case (reach_step s t)
  then show ?case using sim_step [OF reach_step(1) _ reach_step(2)] reach.reach_step [of ainit astep] by metis
qed

end

section \<open>Sorting with a C comparator\<close>

text \<open>
  \<open>qsort\<close> is modelled by insertion with the comparator. On values on which the comparator is a
  total order, the outcome does not depend on the algorithm: it is the only ascending
  rearrangement (\<open>qsort_unique\<close>).
\<close>

fun qinsert :: "('a \<Rightarrow> 'a \<Rightarrow> int) \<Rightarrow> 'a \<Rightarrow> 'a list \<Rightarrow> 'a list" where
  "qinsert cmp x [] = [x]"
| "qinsert cmp x (y # ys) = (if cmp x y \<le> 0 then x # y # ys else y # qinsert cmp x ys)"

fun qsort :: "('a \<Rightarrow> 'a \<Rightarrow> int) \<Rightarrow> 'a list \<Rightarrow> 'a list" where
  "qsort cmp [] = []"
| "qsort cmp (x # xs) = qinsert cmp x (qsort cmp xs)"

lemma mset_qinsert [simp]: "mset (qinsert cmp x ys) = add_mset x (mset ys)"
  by (induction ys) auto

lemma mset_qsort [simp]: "mset (qsort cmp xs) = mset xs"
  by (induction xs) auto

lemma length_qsort [simp]: "length (qsort cmp xs) = length xs"
  by (metis mset_qsort size_mset)

lemma set_qsort [simp]: "set (qsort cmp xs) = set xs"
  by (metis mset_qsort set_mset_mset)

locale c_comparator =
  fixes cmp :: "'a \<Rightarrow> 'a \<Rightarrow> int"
    and dom :: "'a \<Rightarrow> bool"
  assumes cmp_total: "dom x \<Longrightarrow> dom y \<Longrightarrow> cmp x y \<le> 0 \<or> cmp y x \<le> 0"
    and cmp_trans: "dom x \<Longrightarrow> dom y \<Longrightarrow> dom z \<Longrightarrow> cmp x y \<le> 0 \<Longrightarrow> cmp y z \<le> 0 \<Longrightarrow> cmp x z \<le> 0"
    and cmp_antisym: "dom x \<Longrightarrow> dom y \<Longrightarrow> cmp x y \<le> 0 \<Longrightarrow> cmp y x \<le> 0 \<Longrightarrow> x = y"
begin

abbreviation asc :: "'a list \<Rightarrow> bool" where
  "asc \<equiv> sorted_wrt (\<lambda>x y. cmp x y \<le> 0)"

lemma asc_qinsert: "\<forall>z\<in>set (x # ys). dom z \<Longrightarrow> asc ys \<Longrightarrow> asc (qinsert cmp x ys)"
proof (induction ys)
  case (Cons y ys)
  have set: "set (qinsert cmp x ys) = insert x (set ys)"
    by (metis mset_qinsert set_mset_add_mset_insert set_mset_mset)
  show ?case
  proof (cases "cmp x y \<le> 0")
    case True
    then have "\<forall>z\<in>set ys. cmp x z \<le> 0" using Cons.prems by (auto intro: cmp_trans [of x y])
    then show ?thesis using True Cons.prems by simp
  next
    case False
    then have "cmp y x \<le> 0" using Cons.prems cmp_total [of x y] by simp
    then show ?thesis using False Cons by (simp add: set)
  qed
qed simp

lemma asc_qsort: "\<forall>z\<in>set xs. dom z \<Longrightarrow> asc (qsort cmp xs)"
  by (induction xs) (auto intro!: asc_qinsert)

lemma asc_unique:
  assumes "\<forall>z\<in>set xs. dom z" "asc xs" "asc ys" "mset xs = mset ys"
  shows "xs = ys"
  using assms
proof (induction xs arbitrary: ys)
  case (Cons x xs)
  then obtain y zs where ys: "ys = y # zs" by (cases ys) auto
  have sets: "insert x (set xs) = insert y (set zs)"
    using Cons.prems(4) ys by (metis list.set(2) set_mset_mset)
  then have doms: "dom x" "dom y" using Cons.prems(1) by auto
  have "cmp x y \<le> 0" "cmp y x \<le> 0"
    using Cons.prems(2,3) ys sets doms cmp_total [of x x] cmp_total [of y y]
    by (metis insertE insertI1 sorted_wrt.simps(2))+
  then have "x = y" using doms cmp_antisym by blast
  then show ?case using Cons ys by auto
qed simp

theorem qsort_unique:
  assumes "\<forall>z\<in>set xs. dom z" "mset ys = mset xs" "asc ys"
  shows "qsort cmp xs = ys"
  using assms asc_qsort [OF assms(1)] by (intro asc_unique) auto

end

section \<open>Stores written by a sequence of assignments\<close>

text \<open>
  Assigning text to named slots in order, stopping at the first text that a slot refuses. What a
  slot holds afterwards is the last text assigned to it, or what it held before.
\<close>

fun assigns :: "('c \<Rightarrow> 'e \<Rightarrow> 's \<Rightarrow> 'c option) \<Rightarrow> ('e \<times> 's) list \<Rightarrow> 'c \<Rightarrow> 'c option" where
  "assigns f [] c = Some c"
| "assigns f ((e, s) # as) c = (case f c e s of None \<Rightarrow> None | Some c' \<Rightarrow> assigns f as c')"

lemma assigns_append:
  "assigns f (as @ bs) c = (case assigns f as c of None \<Rightarrow> None | Some c' \<Rightarrow> assigns f bs c')"
  by (induction f as c rule: assigns.induct) (auto split: option.splits)

locale slot_store =
  fixes slot :: "'e \<Rightarrow> bool"
    and assign :: "'c \<Rightarrow> 'e \<Rightarrow> 's \<Rightarrow> 'c option"
    and get :: "'e \<Rightarrow> 'c \<Rightarrow> 'v"
    and val :: "'e \<Rightarrow> 's \<Rightarrow> 'v option"
  assumes assign_same: "slot e \<Longrightarrow> assign c e s = Some c' \<Longrightarrow> val e s = Some (get e c')"
    and assign_other: "slot e \<Longrightarrow> slot e' \<Longrightarrow> e \<noteq> e' \<Longrightarrow> assign c e s = Some c' \<Longrightarrow> get e' c' = get e' c"
    and assign_refuses: "slot e \<Longrightarrow> assign c e s = None \<longleftrightarrow> val e s = None"
begin

lemma get_assigns:
  "\<forall>(e', s)\<in>set as. slot e' \<Longrightarrow> slot e \<Longrightarrow> assigns assign as c = Some c' \<Longrightarrow>
     Some (get e c') = (case map_of (rev as) e of None \<Rightarrow> Some (get e c) | Some s \<Rightarrow> val e s)"
proof (induction as arbitrary: c)
  case (Cons a as)
  obtain e1 s1 where a: "a = (e1, s1)" by (cases a)
  with Cons.prems(3) obtain c1 where c1: "assign c e1 s1 = Some c1" "assigns assign as c1 = Some c'"
    by (auto split: option.splits)
  have "get e c1 = get e c" if "e \<noteq> e1"
    using that Cons.prems(1,2) a assign_other [OF _ _ _ c1(1), of e] by auto
  moreover have "val e1 s1 = Some (get e1 c1)" using Cons.prems(1) a assign_same [OF _ c1(1)] by auto
  ultimately show ?case using Cons.IH [OF _ Cons.prems(2) c1(2)] Cons.prems(1) a
    by (auto simp: map_add_def split: option.splits)
qed simp

lemma assigns_refuses:
  "\<forall>(e', s)\<in>set as. slot e' \<Longrightarrow> assigns assign as c = None \<longleftrightarrow> (\<exists>(e, s)\<in>set as. val e s = None)"
proof (induction as arbitrary: c)
  case (Cons a as)
  obtain e1 s1 where a: "a = (e1, s1)" by (cases a)
  then show ?case using Cons assign_refuses [of e1 c s1]
    by (cases "assign c e1 s1") auto
qed simp

end

end
