(* ===== verification/Binary64.thy ===== *)
theory Binary64
  imports Prelude "HOL-Library.Log_Nat"
begin

text \<open>
  The C type \<open>double\<close>, as IEEE 754 binary64 with round-to-nearest-even, the mode the program
  runs in. A finite double is the rational number it denotes; every operation computes the exact
  rational result and rounds it once (\<open>rnd\<close>), overflow gives an infinity (\<open>fl\<close>), and the
  special values follow the standard's tables. Everything is executable, so closed instances
  evaluate by \<open>code_simp\<close>. The two zeros are one value here: the program never divides by a
  zero and no comparison distinguishes them. Shown: rounding is monotone, exact on
  representable numbers and always representable (the contract \<open>rounding\<close>, interpreted on
  \<open>rnd\<close>), and what follows for subtracting non-negative amounts.
\<close>

section \<open>Rounding a rational to binary64\<close>

text \<open>
  \<open>ilog2 x\<close> is the exponent \<open>k\<close> with \<open>2 ^ k \<le> x < 2 ^ (k + 1)\<close> (\<open>ilog2_bounds\<close>);
  \<open>ulp_exp x\<close> the exponent of the last place of \<open>x\<close>: 53 significant bits, never below the
  subnormal spacing \<open>2 ^ (-1074)\<close>.
\<close>

definition ilog2 :: "rat \<Rightarrow> int" where
  "ilog2 x = (let (a, b) = quotient_of x; k = bitlen a - bitlen b
              in if 2 powi k \<le> x then k else k - 1)"

definition round_half_even :: "rat \<Rightarrow> int" where
  "round_half_even x =
     (let f = \<lfloor>x\<rfloor>; d = x - of_int f
      in if d < 1/2 then f else if 1/2 < d then f + 1 else if even f then f else f + 1)"

definition ulp_exp :: "rat \<Rightarrow> int" where
  "ulp_exp x = max (ilog2 \<bar>x\<bar> - 52) (- 1074)"

definition rnd :: "rat \<Rightarrow> rat" where
  "rnd x = (if x = 0 then 0
            else of_int (round_half_even (x / 2 powi ulp_exp x)) * 2 powi ulp_exp x)"

definition f64 :: "rat \<Rightarrow> bool" where
  "f64 x \<longleftrightarrow> (\<exists>m e. \<bar>m\<bar> \<le> 2 ^ 53 \<and> - 1074 \<le> e \<and> x = of_int m * 2 powi e)"

lemma two_powi_pos [simp]: "0 < (2 :: rat) powi k"
  by (simp add: zero_less_power_int)

lemma two_powi_le [simp]: "(2 :: rat) powi a \<le> 2 powi b \<longleftrightarrow> a \<le> b"
  by (metis (full_types) linorder_not_less one_less_numeral_iff order_le_less power_int_increasing power_int_strict_increasing semiring_norm(76))

lemma two_powi_less [simp]: "(2 :: rat) powi a < 2 powi b \<longleftrightarrow> a < b"
  by (meson linorder_not_less two_powi_le)

lemma ilog2_bounds:
  assumes "0 < x"
  shows "2 powi ilog2 x \<le> x \<and> x < 2 powi (ilog2 x + 1)"
proof -
  obtain a b where q: "quotient_of x = (a, b)" by (cases "quotient_of x")
  have b: "0 < b" using q quotient_of_denom_pos by blast
  have x: "x = of_int a / of_int b" using q quotient_of_div by blast
  have a: "0 < a" using assms b x by (simp add: zero_less_divide_iff)
  have pw: "(2 :: rat) powi (bitlen n - 1) \<le> of_int n \<and> of_int n < (2::rat) powi bitlen n" if n: "0 < n" for n
  proof -
    have 1: "0 < bitlen n" using n bitlen_eq_zero_iff [of n] bitlen_nonneg [of n] by linarith
    from bitlen_bounds [OF n] have "of_int (2 ^ nat (bitlen n - 1)) \<le> (of_int n :: rat)"
      and "(of_int n :: rat) < of_int (2 ^ nat (bitlen n))"
      by (simp_all only: of_int_le_iff of_int_less_iff)
    then show ?thesis using 1 by (simp add: power_int_def)
  qed
  let ?k = "bitlen a - bitlen b"
  have "2 powi (?k - 1) = (2 powi (bitlen a - 1) :: rat) / 2 powi bitlen b"
    by (simp add: power_int_diff [symmetric] algebra_simps)
  also have "\<dots> \<le> of_int a / of_int b"
    using pw [OF a] pw [OF b] b a by (intro frac_le) auto
  finally have lo: "2 powi (?k - 1) \<le> x" using x by simp
  have "x < 2 powi bitlen a / (2 powi (bitlen b - 1) :: rat)"
    unfolding x using pw [OF a] pw [OF b] b a by (intro frac_less) auto
  also have "\<dots> = 2 powi (?k + 1)"
    by (simp add: power_int_diff [symmetric] algebra_simps)
  finally have hi: "x < 2 powi (?k + 1)" .
  show ?thesis using lo hi q by (auto simp: ilog2_def Let_def)
qed

lemma ilog2_unique:
  assumes "2 powi k \<le> x" "x < 2 powi (k + 1)"
  shows "ilog2 x = k"
proof -
  have p: "0 < x" using assms(1) two_powi_pos [of k] by linarith
  note b = ilog2_bounds [OF p]
  have "2 powi ilog2 x < (2 powi (k + 1) :: rat)" using b assms by linarith
  moreover have "2 powi k < (2 powi (ilog2 x + 1) :: rat)" using b assms by linarith
  ultimately show ?thesis by simp
qed

lemma round_half_even_of_int [simp]: "round_half_even (of_int n) = n"
  by (simp add: round_half_even_def)

lemma round_half_even_floor: "\<lfloor>x\<rfloor> \<le> round_half_even x \<and> round_half_even x \<le> \<lfloor>x\<rfloor> + 1"
  by (simp add: round_half_even_def Let_def)

lemma round_half_even_mono:
  assumes "x \<le> y" shows "round_half_even x \<le> round_half_even y"
proof (cases "\<lfloor>x\<rfloor> = \<lfloor>y\<rfloor>")
  case True
  then show ?thesis using assms by (auto simp: round_half_even_def Let_def)
next
  case False
  then have "\<lfloor>x\<rfloor> + 1 \<le> \<lfloor>y\<rfloor>" using floor_mono [OF assms] by linarith
  then show ?thesis using round_half_even_floor [of x] round_half_even_floor [of y] by linarith
qed

lemma round_half_even_near: "\<bar>of_int (round_half_even x) - x\<bar> \<le> 1/2"
proof -
  have "of_int \<lfloor>x\<rfloor> \<le> x" "x < of_int \<lfloor>x\<rfloor> + 1" by linarith+
  then show ?thesis unfolding round_half_even_def Let_def by (auto simp: abs_le_iff)
qed

lemma round_half_even_minus: "round_half_even (- x) = - round_half_even x"
proof (cases "x = of_int \<lfloor>x\<rfloor>")
  case True
  then show ?thesis by (metis of_int_minus round_half_even_of_int)
next
  case False
  have "of_int \<lfloor>x\<rfloor> < x" "x < of_int \<lfloor>x\<rfloor> + 1" using False by linarith+
  then have "\<lfloor>- x\<rfloor> = - \<lfloor>x\<rfloor> - 1" by linarith
  then show ?thesis by (auto simp: round_half_even_def Let_def)
qed

lemma ulp_exp_minus [simp]: "ulp_exp (- x) = ulp_exp x"
  by (simp add: ulp_exp_def)

lemma ulp_exp_ge: "- 1074 \<le> ulp_exp x"
  by (simp add: ulp_exp_def)

lemma rnd_zero [simp]: "rnd 0 = 0"
  by (simp add: rnd_def)

lemma rnd_minus: "rnd (- x) = - rnd x"
  by (simp add: rnd_def round_half_even_minus)

lemma abs_less_ulp: "x \<noteq> 0 \<Longrightarrow> \<bar>x\<bar> < 2 powi (ulp_exp x + 53)"
proof -
  assume "x \<noteq> 0"
  then have "\<bar>x\<bar> < 2 powi (ilog2 \<bar>x\<bar> + 1)" using ilog2_bounds by simp
  also have "\<dots> \<le> 2 powi (ulp_exp x + 53)" by (simp add: ulp_exp_def)
  finally show ?thesis .
qed

lemma powi_as_int: "0 \<le> k \<Longrightarrow> (2 :: rat) powi k = of_int (2 ^ nat k)"
  by (simp add: power_int_def)

lemma rnd_le_power:
  assumes "x \<le> 2 powi k" "ulp_exp x \<le> k" 
  shows "rnd x \<le> 2 powi k"
proof (cases "x = 0")
  case False
  let ?e = "ulp_exp x"
  have "x / 2 powi ?e \<le> 2 powi (k - ?e)"
    using assms by (simp add: power_int_diff divide_right_mono)
  then have "x / 2 powi ?e \<le> of_int (2 ^ nat (k - ?e))"
    using assms(2) by (simp add: powi_as_int)
  from round_half_even_mono [OF this] have "round_half_even (x / 2 powi ?e) \<le> 2 ^ nat (k - ?e)"
    by (metis round_half_even_of_int)
  then have "(of_int (round_half_even (x / 2 powi ?e)) :: rat) \<le> 2 powi (k - ?e)"
    using assms(2) by (metis of_int_le_iff powi_as_int diff_ge_0_iff_ge)
  then have "of_int (round_half_even (x / 2 powi ?e)) * 2 powi ?e \<le> (2 powi (k - ?e) * 2 powi ?e :: rat)"
    by (intro mult_right_mono) (auto simp: less_imp_le)
  also have "\<dots> = 2 powi k" by (simp add: power_int_diff)
  finally show ?thesis using False by (simp add: rnd_def)
qed simp

lemma rnd_ge_power:
  assumes "2 powi k \<le> x" "ulp_exp x \<le> k"
  shows "2 powi k \<le> rnd x"
proof -
  let ?e = "ulp_exp x"
  have nz: "x \<noteq> 0" using assms(1) two_powi_pos [of k] by linarith
  have "2 powi (k - ?e) \<le> x / 2 powi ?e"
    using assms by (simp add: power_int_diff divide_right_mono)
  then have "of_int (2 ^ nat (k - ?e)) \<le> x / 2 powi ?e"
    using assms(2) by (simp add: powi_as_int)
  from round_half_even_mono [OF this] have "2 ^ nat (k - ?e) \<le> round_half_even (x / 2 powi ?e)"
    by (metis round_half_even_of_int)
  then have "2 powi (k - ?e) \<le> (of_int (round_half_even (x / 2 powi ?e)) :: rat)"
    using assms(2) by (metis of_int_le_iff powi_as_int diff_ge_0_iff_ge)
  then have "(2 powi (k - ?e) * 2 powi ?e :: rat) \<le> of_int (round_half_even (x / 2 powi ?e)) * 2 powi ?e"
    by (intro mult_right_mono) (auto simp: less_imp_le)
  moreover have "(2 powi (k - ?e) * 2 powi ?e :: rat) = 2 powi k" by (simp add: power_int_diff)
  ultimately show ?thesis using nz by (simp add: rnd_def)
qed

lemma rnd_same_exp_mono:
  assumes "x \<le> y" "ulp_exp x = ulp_exp y" "x \<noteq> 0" "y \<noteq> 0"
  shows "rnd x \<le> rnd y"
proof -
  have "x / 2 powi ulp_exp y \<le> y / 2 powi ulp_exp y"
    using assms(1) by (simp add: divide_right_mono)
  then show ?thesis using assms
    by (simp add: rnd_def round_half_even_mono)
qed

lemma rnd_nonneg: "0 \<le> x \<Longrightarrow> 0 \<le> rnd x"
proof -
  assume "0 \<le> x"
  then have "0 \<le> x / 2 powi ulp_exp x" by (simp add: divide_nonneg_pos)
  from round_half_even_mono [OF this] have "0 \<le> round_half_even (x / 2 powi ulp_exp x)"
    by (simp add: round_half_even_def)
  then show ?thesis by (simp add: rnd_def)
qed

lemma ulp_exp_mono: "0 < x \<Longrightarrow> x \<le> y \<Longrightarrow> ulp_exp x \<le> ulp_exp y"
proof -
  assume x: "0 < x" and xy: "x \<le> y"
  have "2 powi ilog2 x < (2 powi (ilog2 y + 1) :: rat)"
    using ilog2_bounds [OF x] ilog2_bounds [of y] x xy by linarith
  then show ?thesis using x xy by (simp add: ulp_exp_def)
qed

lemma rnd_mono_pos:
  assumes "0 < x" "x \<le> y"
  shows "rnd x \<le> rnd y"
proof (cases "ulp_exp x = ulp_exp y")
  case True
  then show ?thesis using assms rnd_same_exp_mono by simp
next
  case False
  then have lt: "ulp_exp x < ulp_exp y" using ulp_exp_mono [OF assms] by simp
  have ey: "ulp_exp y = ilog2 y - 52" using lt assms by (simp add: ulp_exp_def max_def split: if_splits)
  have "rnd x \<le> 2 powi (ulp_exp x + 53)"
    using abs_less_ulp [of x] assms by (intro rnd_le_power) auto
  also have "\<dots> \<le> 2 powi (ulp_exp y + 52)" using lt by simp
  also have "\<dots> \<le> rnd y"
    using ilog2_bounds [of y] assms ey by (intro rnd_ge_power) auto
  finally show ?thesis .
qed

theorem rnd_mono:
  assumes "x \<le> y" shows "rnd x \<le> rnd y"
proof -
  consider "0 < x" | "x \<le> 0" "0 \<le> y" | "y < 0" by linarith
  then show ?thesis
  proof cases
    case 1 then show ?thesis using assms rnd_mono_pos by simp
  next
    case 2
    then have "0 \<le> rnd y" "0 \<le> rnd (- x)" by (auto intro: rnd_nonneg)
    then show ?thesis by (simp add: rnd_minus)
  next
    case 3
    then have "rnd (- y) \<le> rnd (- x)" using assms by (intro rnd_mono_pos) auto
    then show ?thesis by (simp add: rnd_minus)
  qed
qed

theorem rnd_f64: "f64 (rnd x)"
proof (cases "x = 0")
  case True
  then show ?thesis unfolding f64_def by (intro exI [of _ 0]) simp
next
  case False
  let ?e = "ulp_exp x" and ?m = "round_half_even (x / 2 powi ulp_exp x)"
  have "\<bar>x\<bar> \<le> 2 ^ 53 * 2 powi ?e"
    using abs_less_ulp [OF False] by (simp add: power_int_add mult.commute less_imp_le)
  then have "x / 2 powi ?e \<le> of_int (2 ^ 53)" "of_int (- (2 ^ 53)) \<le> x / 2 powi ?e"
    by (simp_all add: pos_divide_le_eq pos_le_divide_eq abs_le_iff)
  from this [THEN round_half_even_mono] have "\<bar>?m\<bar> \<le> 2 ^ 53"
    unfolding round_half_even_of_int by linarith
  then show ?thesis using False ulp_exp_ge [of x] unfolding f64_def rnd_def by auto
qed

lemma rnd_exact:
  assumes "x = of_int m * 2 powi e" "ulp_exp x \<le> e"
  shows "rnd x = x"
proof (cases "x = 0")
  case False
  let ?u = "ulp_exp x"
  have "x / 2 powi ?u = of_int m * 2 powi (e - ?u)"
    using assms(1) by (simp add: power_int_diff)
  also have "\<dots> = of_int (m * 2 ^ nat (e - ?u))"
    using assms(2) by (simp add: powi_as_int)
  finally have "round_half_even (x / 2 powi ?u) = m * 2 ^ nat (e - ?u)"
    by (simp only: round_half_even_of_int)
  then have "rnd x = of_int (m * 2 ^ nat (e - ?u)) * 2 powi ?u"
    using False by (simp add: rnd_def)
  also have "\<dots> = of_int m * (2 powi (e - ?u) * 2 powi ?u)"
    using assms(2) by (simp add: powi_as_int)
  also have "\<dots> = x" using assms(1) by (simp add: power_int_diff)
  finally show ?thesis .
qed simp

lemma ulp_exp_le:
  assumes "x \<noteq> 0" "\<bar>x\<bar> < 2 powi (e + 53)" "- 1074 \<le> e"
  shows "ulp_exp x \<le> e"
proof -
  have "2 powi ilog2 \<bar>x\<bar> < (2 powi (e + 53) :: rat)"
    using ilog2_bounds [of "\<bar>x\<bar>"] assms by (meson le_less_trans zero_less_abs_iff)
  then show ?thesis using assms(3) by (simp add: ulp_exp_def)
qed

theorem rnd_id:
  assumes "f64 x" shows "rnd x = x"
proof (cases "x = 0")
  case False
  from assms obtain m e where m: "\<bar>m\<bar> \<le> 2 ^ 53" and e: "- 1074 \<le> e" and x: "x = of_int m * 2 powi e"
    unfolding f64_def by blast
  have abs: "\<bar>x\<bar> = of_int \<bar>m\<bar> * 2 powi e" using x by (simp add: abs_mult)
  show ?thesis
  proof (cases "\<bar>m\<bar> = 2 ^ 53")
    case True
    then have ax: "\<bar>x\<bar> = 2 powi (e + 53)" using abs by (simp add: power_int_add)
    define k :: int where "k = (if 0 < m then 2 ^ 52 else - (2 ^ 52))"
    have "m = 2 * k" using True by (auto simp: k_def abs_if split: if_splits)
    then have "x = of_int k * 2 powi (e + 1)" using x by (simp add: power_int_add)
    moreover have "ulp_exp x \<le> e + 1" using False e ax by (intro ulp_exp_le) auto
    ultimately show ?thesis by (rule rnd_exact)
  next
    case False
    then have "\<bar>m\<bar> < 2 ^ 53" using m by simp
    then have "(of_int \<bar>m\<bar> :: rat) < of_int (2 ^ 53)" by (simp only: of_int_less_iff)
    then have "\<bar>x\<bar> < 2 powi (e + 53)"
      unfolding abs by (simp add: power_int_add mult.commute)
    then show ?thesis using \<open>x \<noteq> 0\<close> e x by (intro rnd_exact [of x m e] ulp_exp_le) auto
  qed
qed simp

lemma f64_minus [simp]: "f64 (- x) \<longleftrightarrow> f64 x"
  by (metis minus_minus rnd_f64 rnd_id rnd_minus)

lemma f64_of_int: "\<bar>n\<bar> \<le> 2 ^ 53 \<Longrightarrow> f64 (of_int n)"
  unfolding f64_def by (intro exI [of _ n] exI [of _ 0]) simp

lemma f64_zero [simp]: "f64 0" using f64_of_int [of 0] by simp
lemma f64_one [simp]: "f64 1" using f64_of_int [of 1] by simp
lemma f64_numeral: "numeral k \<le> (2 ^ 53 :: int) \<Longrightarrow> f64 (numeral k)"
  using f64_of_int [of "numeral k"] by simp

section \<open>The contract of a rounding\<close>

text \<open>What the clients of floating-point arithmetic rely on, whatever the format.\<close>

locale rounding =
  fixes rd :: "rat \<Rightarrow> rat"
    and rep :: "rat \<Rightarrow> bool"
  assumes rd_mono: "x \<le> y \<Longrightarrow> rd x \<le> rd y"
    and rd_rep: "rep (rd x)"
    and rd_id: "rep x \<Longrightarrow> rd x = x"
begin

lemma rd_le: "rep b \<Longrightarrow> x \<le> b \<Longrightarrow> rd x \<le> b"
  using rd_mono [of x b] by (simp add: rd_id)

lemma rd_ge: "rep a \<Longrightarrow> a \<le> x \<Longrightarrow> a \<le> rd x"
  using rd_mono [of a x] by (simp add: rd_id)

lemma rd_sub_le: "rep a \<Longrightarrow> 0 \<le> b \<Longrightarrow> rd (a - b) \<le> a"
  by (rule rd_le) auto

lemma rd_sub_mono: "a \<le> a' \<Longrightarrow> b' \<le> b \<Longrightarrow> rd (a - b) \<le> rd (a' - b')"
  by (rule rd_mono) simp

lemma rd_between: "rep a \<Longrightarrow> rep b \<Longrightarrow> a \<le> x \<Longrightarrow> x \<le> b \<Longrightarrow> a \<le> rd x \<and> rd x \<le> b"
  by (simp add: rd_le rd_ge)

lemma rd_idem: "rd (rd x) = rd x"
  by (rule rd_id) (rule rd_rep)

end

interpretation b64: rounding rnd f64
  by unfold_locales (auto simp: rnd_mono rnd_f64 rnd_id)

section \<open>Double values\<close>

text \<open>\<open>Inf True\<close> is minus infinity. \<open>fl q\<close> is the double nearest to the rational \<open>q\<close>.\<close>

datatype double = NaN | Inf bool | Fin rat

definition fl :: "rat \<Rightarrow> double" where
  "fl q = (let r = rnd q in if r \<noteq> 0 \<and> 1024 \<le> ilog2 \<bar>r\<bar> then Inf (r < 0) else Fin r)"

lemma fl_Fin: "\<bar>q\<bar> \<le> 2 ^ 1023 \<Longrightarrow> fl q = Fin (rnd q)"
proof -
  assume q: "\<bar>q\<bar> \<le> 2 ^ 1023"
  have f: "f64 (2 ^ 1023)" unfolding f64_def
    by (intro exI [of _ 1] exI [of _ 1023]) (simp add: power_int_def)
  have "q \<le> 2 ^ 1023" "- q \<le> 2 ^ 1023" using q by (auto simp: abs_le_iff)
  then have "rnd q \<le> 2 ^ 1023" "- rnd q \<le> 2 ^ 1023"
    using rnd_mono [of q "2 ^ 1023"] rnd_mono [of "- q" "2 ^ 1023"] rnd_id [OF f] by (simp_all only: rnd_minus)
  then have b: "\<bar>rnd q\<bar> \<le> 2 powi 1023" by (simp add: abs_le_iff power_int_def)
  have "ilog2 \<bar>rnd q\<bar> < 1024" if "rnd q \<noteq> 0"
  proof -
    have "2 powi ilog2 \<bar>rnd q\<bar> \<le> (2 powi 1023 :: rat)"
      using ilog2_bounds [of "\<bar>rnd q\<bar>"] that b by (meson order_trans zero_less_abs_iff)
    then show ?thesis by (simp only: two_powi_le)
  qed
  then show ?thesis by (auto simp: fl_def Let_def)
qed

section \<open>Operations\<close>

text \<open>
  Negation, the four arithmetic operations, the comparison \<open><\<close> (false on NaN), \<open>isnan\<close>, and the
  conversion from an integer type. The comparisons \<open>>\<close>, \<open>>=\<close>, \<open><=\<close> of the code are \<open>dlt\<close> and
  \<open>dle\<close> with the arguments in the matching order.
\<close>

fun dneg :: "double \<Rightarrow> double" where
  "dneg NaN = NaN"
| "dneg (Inf s) = Inf (\<not> s)"
| "dneg (Fin x) = Fin (- x)"

fun dadd :: "double \<Rightarrow> double \<Rightarrow> double" where
  "dadd (Fin x) (Fin y) = fl (x + y)"
| "dadd NaN _ = NaN"
| "dadd _ NaN = NaN"
| "dadd (Inf s) (Inf t) = (if s = t then Inf s else NaN)"
| "dadd (Inf s) (Fin _) = Inf s"
| "dadd (Fin _) (Inf s) = Inf s"

definition dsub :: "double \<Rightarrow> double \<Rightarrow> double" where
  "dsub a b = dadd a (dneg b)"

fun dmul :: "double \<Rightarrow> double \<Rightarrow> double" where
  "dmul (Fin x) (Fin y) = fl (x * y)"
| "dmul NaN _ = NaN"
| "dmul _ NaN = NaN"
| "dmul (Inf s) (Inf t) = Inf (s \<noteq> t)"
| "dmul (Inf s) (Fin x) = (if x = 0 then NaN else Inf (s \<noteq> (x < 0)))"
| "dmul (Fin x) (Inf s) = (if x = 0 then NaN else Inf (s \<noteq> (x < 0)))"

fun ddiv :: "double \<Rightarrow> double \<Rightarrow> double" where
  "ddiv (Fin x) (Fin y) = (if y = 0 then (if x = 0 then NaN else Inf (x < 0)) else fl (x / y))"
| "ddiv NaN _ = NaN"
| "ddiv _ NaN = NaN"
| "ddiv (Inf s) (Inf t) = NaN"
| "ddiv (Inf s) (Fin x) = Inf (s \<noteq> (x < 0))"
| "ddiv (Fin x) (Inf s) = Fin 0"

fun dlt :: "double \<Rightarrow> double \<Rightarrow> bool" where
  "dlt (Fin x) (Fin y) = (x < y)"
| "dlt NaN _ = False"
| "dlt _ NaN = False"
| "dlt (Inf s) (Inf t) = (s \<and> \<not> t)"
| "dlt (Inf s) (Fin _) = s"
| "dlt (Fin _) (Inf t) = (\<not> t)"

fun isnan :: "double \<Rightarrow> bool" where
  "isnan NaN = True"
| "isnan _ = False"

definition dle :: "double \<Rightarrow> double \<Rightarrow> bool" where
  "dle a b \<longleftrightarrow> \<not> isnan a \<and> \<not> isnan b \<and> \<not> dlt b a"

definition of_c_int :: "int \<Rightarrow> double" where
  "of_c_int n = fl (of_int n)"

section \<open>Square root\<close>

text \<open>
  \<open>isqrt\<close> is the integer square root (\<open>isqrt_spec\<close>). \<open>sqrt_digits x\<close> scales \<open>x\<close> by a power
  of four until the root has more than 55 binary digits before the point and replaces what is
  left of the root by one half of the last digit, which rounds as the exact root does.
\<close>

function isqrt :: "int \<Rightarrow> int" where
  "isqrt n = (if n \<le> 0 then 0
              else let r = 2 * isqrt (n div 4) in if (r + 1) * (r + 1) \<le> n then r + 1 else r)"
  by pat_completeness auto
termination by (relation "measure nat") auto

declare isqrt.simps [simp del]

lemma isqrt_spec: "0 \<le> n \<Longrightarrow> 0 \<le> isqrt n \<and> isqrt n * isqrt n \<le> n \<and> n < (isqrt n + 1) * (isqrt n + 1)"
proof (induction n rule: isqrt.induct)
  case (1 n)
  show ?case
  proof (cases "n = 0")
    case True then show ?thesis by (simp add: isqrt.simps)
  next
    case False
    define s where "s = isqrt (n div 4)"
    have s: "0 \<le> s" "s * s \<le> n div 4" "n div 4 < (s + 1) * (s + 1)"
      using "1.IH" "1.prems" False by (auto simp: s_def)
    have lo: "4 * (s * s) \<le> n" using s(2) by linarith
    have "n div 4 + 1 \<le> (s + 1) * (s + 1)" using s(3) by linarith
    then have hi: "n < 4 * ((s + 1) * (s + 1))" by linarith
    have "isqrt n = (if (2 * s + 1) * (2 * s + 1) \<le> n then 2 * s + 1 else 2 * s)"
      using False "1.prems" by (simp add: isqrt.simps [of n] s_def Let_def)
    then show ?thesis using s(1) lo hi by (auto simp: algebra_simps)
  qed
qed

definition sqrt_digits :: "rat \<Rightarrow> rat" where
  "sqrt_digits x =
     (let t = 55 - ilog2 x div 2;
          y = x * 4 powi t;
          r = isqrt \<lfloor>y\<rfloor>
      in (if of_int (r * r) = y then of_int r else of_int r + 1/2) * 2 powi (- t))"

fun dsqrt :: "double \<Rightarrow> double" where
  "dsqrt NaN = NaN"
| "dsqrt (Inf s) = (if s then NaN else Inf False)"
| "dsqrt (Fin x) = (if x < 0 then NaN else if x = 0 then Fin 0 else fl (sqrt_digits x))"

section \<open>Lemmas for clients\<close>

lemma fl_bounded: "f64 a \<Longrightarrow> f64 b \<Longrightarrow> a \<le> q \<Longrightarrow> q \<le> b \<Longrightarrow> \<bar>a\<bar> \<le> 2 ^ 1023 \<Longrightarrow> \<bar>b\<bar> \<le> 2 ^ 1023 \<Longrightarrow>
    \<exists>r. fl q = Fin r \<and> r = rnd q \<and> f64 r \<and> a \<le> r \<and> r \<le> b"
proof -
  assume *: "f64 a" "f64 b" "a \<le> q" "q \<le> b" "\<bar>a\<bar> \<le> 2 ^ 1023" "\<bar>b\<bar> \<le> 2 ^ 1023"
  have "\<bar>q\<bar> \<le> 2 ^ 1023" using *(3-6) unfolding abs_le_iff by linarith
  then show ?thesis using * b64.rd_between by (auto simp: fl_Fin rnd_f64)
qed

lemma fl_exact: "f64 q \<Longrightarrow> \<bar>q\<bar> \<le> 2 ^ 1023 \<Longrightarrow> fl q = Fin q"
  by (simp add: fl_Fin rnd_id)

lemma fl_of_int: "\<bar>n\<bar> \<le> 2 ^ 53 \<Longrightarrow> fl (of_int n) = Fin (of_int n)"
proof -
  assume n: "\<bar>n\<bar> \<le> 2 ^ 53"
  have "(of_int \<bar>n\<bar> :: rat) \<le> of_int (2 ^ 53)" using n by (simp only: of_int_le_iff)
  also have "\<dots> \<le> 2 ^ 1023" by simp
  finally show ?thesis using f64_of_int [OF n] by (intro fl_exact) auto
qed

lemma of_c_int_small [simp]: "\<bar>n\<bar> \<le> 2 ^ 53 \<Longrightarrow> of_c_int n = Fin (of_int n)"
  by (simp add: of_c_int_def fl_of_int)

lemma isnan_iff: "isnan d \<longleftrightarrow> d = NaN"
  by (cases d) auto

lemma dle_Fin [simp]: "dle (Fin x) (Fin y) \<longleftrightarrow> x \<le> y"
  by (auto simp: dle_def)

lemma dle_NaN [simp]: "\<not> dle NaN d" "\<not> dle d NaN"
  by (simp_all add: dle_def)

lemma dle_Inf [simp]:
  "dle (Fin x) (Inf s) \<longleftrightarrow> \<not> s" "dle (Inf s) (Fin x) \<longleftrightarrow> s" "dle (Inf s) (Inf t) \<longleftrightarrow> s \<or> \<not> t"
  by (auto simp: dle_def)

lemma dlt_NaN [simp]: "\<not> dlt NaN d" "\<not> dlt d NaN"
  by (cases d; simp)+

lemma dsub_Fin: "dsub (Fin x) (Fin y) = fl (x - y)"
  by (simp add: dsub_def)

lemma dsub_NaN [simp]: "dsub NaN d = NaN" "dsub d NaN = NaN"
  by (cases d; simp add: dsub_def)+

lemma dlt_dle_trans: "dlt a b \<Longrightarrow> dle b c \<Longrightarrow> dlt a c"
  by (cases a; cases b; cases c) (auto simp: dle_def)

lemma dle_refl: "\<not> isnan a \<Longrightarrow> dle a a"
  by (cases a) (auto simp: dle_def)

lemma dle_trans: "dle a b \<Longrightarrow> dle b c \<Longrightarrow> dle a c"
  by (cases a; cases b; cases c) (auto simp: dle_def)

lemma dle_antisym: "dle a b \<Longrightarrow> dle b a \<Longrightarrow> a = b"
  by (cases a; cases b) (auto simp: dle_def)

lemma dle_total: "\<not> isnan a \<Longrightarrow> \<not> isnan b \<Longrightarrow> dle a b \<or> dle b a"
  by (cases a; cases b) (auto simp: dle_def)

lemma dlt_iff_not_dle: "\<not> isnan a \<Longrightarrow> \<not> isnan b \<Longrightarrow> dlt a b \<longleftrightarrow> \<not> dle b a"
  by (auto simp: dle_def)

end
