(* ===== verification/Types.thy ===== *)
theory Types
  imports Binary64
begin

text \<open>
  The data of \<^verbatim>\<open>src/types.h\<close>: enumerations, the reason mask, and one record per struct. Field
  names are the source's; where two structs share a field name, the fields of the state, the
  baseline, the probe result, the score result and the snapshot carry the prefixes \<open>st_\<close>,
  \<open>bl_\<close>, \<open>pr_\<close>, \<open>sc_\<close> and \<open>sn_\<close>. An \<open>int\<close> that the code only ever sets to 0 or 1 is a
  \<open>bool\<close>; a character array is the string it holds. The \<open>zero_\<close> constants are what
  \<open>memset(..., 0, ...)\<close> leaves.
\<close>

unbundle bit_operations_syntax

section \<open>Enumerations\<close>

datatype gpu_class_t =
    GPU_CLASS_NA
  | GPU_CLASS_HEALTHY
  | GPU_CLASS_MONITOR
  | GPU_CLASS_DEGRADING
  | GPU_CLASS_DECOMMISSION

fun class_code :: "gpu_class_t \<Rightarrow> int" where
  "class_code GPU_CLASS_NA = 0"
| "class_code GPU_CLASS_HEALTHY = 1"
| "class_code GPU_CLASS_MONITOR = 2"
| "class_code GPU_CLASS_DEGRADING = 3"
| "class_code GPU_CLASS_DECOMMISSION = 4"

text \<open>The classes are ordered by their enum value: a larger class is a worse one.\<close>

instantiation gpu_class_t :: linorder
begin

definition less_eq_gpu_class_t :: "gpu_class_t \<Rightarrow> gpu_class_t \<Rightarrow> bool" where
  "less_eq_gpu_class_t a b \<longleftrightarrow> class_code a \<le> class_code b"

definition less_gpu_class_t :: "gpu_class_t \<Rightarrow> gpu_class_t \<Rightarrow> bool" where
  "less_gpu_class_t a b \<longleftrightarrow> class_code a < class_code b"

instance
proof
  fix a b :: gpu_class_t
  show "a \<le> b \<Longrightarrow> b \<le> a \<Longrightarrow> a = b"
    by (cases a; cases b) (simp_all add: less_eq_gpu_class_t_def)
qed (auto simp: less_eq_gpu_class_t_def less_gpu_class_t_def)

end

datatype gpu_identity_src_t = GPU_IDENTITY_SERIAL | GPU_IDENTITY_UUID

section \<open>Reason bitmask\<close>

text \<open>The C constants \<open>1u << n\<close>.\<close>

definition reason_bit :: "nat \<Rightarrow> u32" where
  "reason_bit n = push_bit n 1"

definition GPU_REASON_TEMP_WARN :: u32 where "GPU_REASON_TEMP_WARN = reason_bit 0"
definition GPU_REASON_TEMP_BAD :: u32 where "GPU_REASON_TEMP_BAD = reason_bit 1"
definition GPU_REASON_HBM_TEMP_WARN :: u32 where "GPU_REASON_HBM_TEMP_WARN = reason_bit 2"
definition GPU_REASON_HBM_TEMP_BAD :: u32 where "GPU_REASON_HBM_TEMP_BAD = reason_bit 3"
definition GPU_REASON_CLK_STD_HIGH :: u32 where "GPU_REASON_CLK_STD_HIGH = reason_bit 4"
definition GPU_REASON_POWER_SATURATION :: u32 where "GPU_REASON_POWER_SATURATION = reason_bit 5"
definition GPU_REASON_ECC_SBE_HIGH :: u32 where "GPU_REASON_ECC_SBE_HIGH = reason_bit 6"
definition GPU_REASON_ECC_DBE_ACTIVE :: u32 where "GPU_REASON_ECC_DBE_ACTIVE = reason_bit 7"
definition GPU_REASON_PERF_DROP_WARN :: u32 where "GPU_REASON_PERF_DROP_WARN = reason_bit 8"
definition GPU_REASON_PERF_DROP_BAD :: u32 where "GPU_REASON_PERF_DROP_BAD = reason_bit 9"
definition GPU_REASON_PERF_DROP_SEVERE :: u32 where "GPU_REASON_PERF_DROP_SEVERE = reason_bit 10"
definition GPU_REASON_RETIRED_PAGES_WARN :: u32 where "GPU_REASON_RETIRED_PAGES_WARN = reason_bit 11"
definition GPU_REASON_RETIRED_PAGES_BAD :: u32 where "GPU_REASON_RETIRED_PAGES_BAD = reason_bit 12"
definition GPU_REASON_ROW_REMAP :: u32 where "GPU_REASON_ROW_REMAP = reason_bit 13"
definition GPU_REASON_PCIE_GEN :: u32 where "GPU_REASON_PCIE_GEN = reason_bit 14"
definition GPU_REASON_PCIE_WIDTH :: u32 where "GPU_REASON_PCIE_WIDTH = reason_bit 15"
definition GPU_REASON_TELEMETRY_INCOMPLETE :: u32 where "GPU_REASON_TELEMETRY_INCOMPLETE = reason_bit 16"
definition GPU_REASON_PROBE_STALE :: u32 where "GPU_REASON_PROBE_STALE = reason_bit 17"

lemmas reason_mask_defs =
  GPU_REASON_TEMP_WARN_def GPU_REASON_TEMP_BAD_def GPU_REASON_HBM_TEMP_WARN_def
  GPU_REASON_HBM_TEMP_BAD_def GPU_REASON_CLK_STD_HIGH_def GPU_REASON_POWER_SATURATION_def
  GPU_REASON_ECC_SBE_HIGH_def GPU_REASON_ECC_DBE_ACTIVE_def GPU_REASON_PERF_DROP_WARN_def
  GPU_REASON_PERF_DROP_BAD_def GPU_REASON_PERF_DROP_SEVERE_def GPU_REASON_RETIRED_PAGES_WARN_def
  GPU_REASON_RETIRED_PAGES_BAD_def GPU_REASON_ROW_REMAP_def GPU_REASON_PCIE_GEN_def
  GPU_REASON_PCIE_WIDTH_def GPU_REASON_TELEMETRY_INCOMPLETE_def GPU_REASON_PROBE_STALE_def

text \<open>A reason is reported when its bit is set in the mask.\<close>

definition has_reason :: "u32 \<Rightarrow> u32 \<Rightarrow> bool" where
  "has_reason rs r \<longleftrightarrow> rs AND r \<noteq> 0"

lemma bit_reason_bit [reason_simps]: "m < 32 \<Longrightarrow> bit (reason_bit n) m \<longleftrightarrow> m = n"
  by (auto simp: reason_bit_def bit_exp_iff)

lemma bit_or_reason [reason_simps]:
  "m < 32 \<Longrightarrow> bit (rs OR reason_bit n) m \<longleftrightarrow> bit rs m \<or> m = n"
  by (auto simp: bit_or_iff bit_reason_bit)

lemma has_reason_bit [reason_simps]:
  assumes "n < 32" shows "has_reason rs (reason_bit n) \<longleftrightarrow> bit rs n"
proof
  assume "has_reason rs (reason_bit n)"
  then obtain m where "m < 32" "bit (rs AND reason_bit n) m"
    unfolding has_reason_def by (auto simp: bit_eq_iff)
  then show "bit rs n" by (auto simp: bit_and_iff bit_reason_bit)
next
  assume "bit rs n"
  then have "bit (rs AND reason_bit n) n" using assms by (simp add: bit_and_iff bit_reason_bit)
  then show "has_reason rs (reason_bit n)" unfolding has_reason_def by auto
qed

section \<open>Samples, ring, state\<close>

record gpu_sample_t =
  power_w :: double
  power_limit_w :: double
  temp_c :: double
  hbm_temp_c :: double
  sm_clock_mhz :: double
  ecc_sbe_volatile :: u64
  ecc_dbe_volatile :: u64
  timestamp_ms :: u64

text \<open>The heap array \<open>samples\<close> is the list of its \<open>capacity\<close> slots.\<close>

record gpu_ring_t =
  samples :: "gpu_sample_t list"
  head :: int
  rcount :: int
  capacity :: int

record gpu_state_t =
  st_ecc_sbe_aggregate :: u64
  st_ecc_dbe_aggregate :: u64
  st_retired_pages_sbe :: u32
  st_retired_pages_dbe :: u32
  st_row_remap_failures :: u32
  st_pending_row_remap :: int
  st_mem_used_bytes :: u64
  st_mem_free_bytes :: u64
  st_mem_total_bytes :: u64
  st_mem_bw_util_pct :: double
  st_pcie_link_gen :: int
  st_pcie_link_gen_max :: int
  st_pcie_link_width :: int
  st_pcie_link_width_max :: int
  st_pcie_replay_count :: u64
  st_nvlink_replay_count :: u64
  st_nvlink_recovery_count :: u64
  st_nvlink_crc_count :: u64
  st_xid_count :: u64
  st_xid_last_code :: u32
  st_board_power_w :: double
  st_energy_j :: double
  st_power_violation_us :: u64
  st_thermal_violation_us :: u64
  st_throttle_sw_power_cap :: bool
  st_throttle_hw_slowdown :: bool
  st_throttle_hw_power_brake :: bool
  st_throttle_sw_thermal :: bool
  st_throttle_hw_thermal :: bool
  st_mem_clock_mhz :: double
  st_util_gpu_pct :: int
  st_util_mem_pct :: int
  st_pstate :: int
  st_fan_speed_pct :: int

definition zero_sample :: gpu_sample_t where
  "zero_sample = \<lparr>power_w = Fin 0, power_limit_w = Fin 0, temp_c = Fin 0, hbm_temp_c = Fin 0,
     sm_clock_mhz = Fin 0, ecc_sbe_volatile = 0, ecc_dbe_volatile = 0, timestamp_ms = 0\<rparr>"

definition zero_state :: gpu_state_t where
  "zero_state = \<lparr>st_ecc_sbe_aggregate = 0, st_ecc_dbe_aggregate = 0, st_retired_pages_sbe = 0,
     st_retired_pages_dbe = 0, st_row_remap_failures = 0, st_pending_row_remap = 0,
     st_mem_used_bytes = 0, st_mem_free_bytes = 0, st_mem_total_bytes = 0,
     st_mem_bw_util_pct = Fin 0, st_pcie_link_gen = 0, st_pcie_link_gen_max = 0,
     st_pcie_link_width = 0, st_pcie_link_width_max = 0, st_pcie_replay_count = 0,
     st_nvlink_replay_count = 0, st_nvlink_recovery_count = 0, st_nvlink_crc_count = 0,
     st_xid_count = 0, st_xid_last_code = 0, st_board_power_w = Fin 0, st_energy_j = Fin 0,
     st_power_violation_us = 0, st_thermal_violation_us = 0, st_throttle_sw_power_cap = False,
     st_throttle_hw_slowdown = False, st_throttle_hw_power_brake = False,
     st_throttle_sw_thermal = False, st_throttle_hw_thermal = False, st_mem_clock_mhz = Fin 0,
     st_util_gpu_pct = 0, st_util_mem_pct = 0, st_pstate = 0, st_fan_speed_pct = 0\<rparr>"

section \<open>Baseline and probe result\<close>

record gpu_baseline_t =
  bl_available :: bool
  bl_valid :: bool
  bl_serial_mismatch :: bool
  bl_driver_mismatch :: bool
  bl_serial :: string
  bl_uuid :: string
  bl_driver_version :: string
  bl_perf_w_mean :: double
  bl_established_at_s :: u64
  bl_workload :: string
  bl_sample_count :: int

record gpu_probe_result_t =
  pr_available :: bool
  pr_stale :: bool
  pr_serial :: string
  pr_perf_w_mean :: double
  pr_probe_timestamp_s :: u64
  pr_probe_exit_code :: int
  pr_workload :: string
  pr_sample_count :: int
  pr_probe_duration_s :: double

definition zero_baseline :: gpu_baseline_t where
  "zero_baseline = \<lparr>bl_available = False, bl_valid = False, bl_serial_mismatch = False,
     bl_driver_mismatch = False, bl_serial = [], bl_uuid = [], bl_driver_version = [],
     bl_perf_w_mean = Fin 0, bl_established_at_s = 0, bl_workload = [], bl_sample_count = 0\<rparr>"

definition zero_probe :: gpu_probe_result_t where
  "zero_probe = \<lparr>pr_available = False, pr_stale = False, pr_serial = [], pr_perf_w_mean = Fin 0,
     pr_probe_timestamp_s = 0, pr_probe_exit_code = 0, pr_workload = [], pr_sample_count = 0,
     pr_probe_duration_s = Fin 0\<rparr>"

section \<open>Scoring output\<close>

record gpu_score_result_t =
  sc_score :: double
  sc_classification :: gpu_class_t
  sc_reason_mask :: u32
  sc_telemetry_ok :: bool
  sc_temp_p95_c :: double
  sc_hbm_temp_p95_c :: double
  sc_clk_std_mhz :: double
  sc_power_saturation_frac :: double
  sc_ecc_sbe_rate_per_hour :: double
  sc_ecc_dbe_in_window :: bool
  sc_perf_drop_frac :: double

definition zero_score :: gpu_score_result_t where
  "zero_score = \<lparr>sc_score = Fin 0, sc_classification = GPU_CLASS_NA, sc_reason_mask = 0,
     sc_telemetry_ok = False, sc_temp_p95_c = Fin 0, sc_hbm_temp_p95_c = Fin 0,
     sc_clk_std_mhz = Fin 0, sc_power_saturation_frac = Fin 0, sc_ecc_sbe_rate_per_hour = Fin 0,
     sc_ecc_dbe_in_window = False, sc_perf_drop_frac = Fin 0\<rparr>"

section \<open>Snapshot and IPC\<close>

record gpu_snapshot_t =
  sn_serial :: string
  sn_uuid :: string
  sn_gpu_model :: string
  sn_driver_version :: string
  sn_gpu_index :: int
  sn_identity_source :: gpu_identity_src_t
  sn_pcie_link_gen_max :: int
  sn_pcie_link_width_max :: int
  sn_score :: double
  sn_classification :: gpu_class_t
  sn_reason_mask :: u32
  sn_telemetry_ok :: bool
  sn_temp_p95_c :: double
  sn_hbm_temp_p95_c :: double
  sn_clk_std_mhz :: double
  sn_power_saturation_frac :: double
  sn_ecc_sbe_rate_per_hour :: double
  sn_ecc_dbe_in_window :: bool
  sn_perf_drop_frac :: double
  sn_probe_stale :: bool
  sn_probe_available :: bool
  sn_baseline_available :: bool
  sn_baseline_valid :: bool
  sn_baseline_serial_mismatch :: bool
  sn_baseline_driver_mismatch :: bool
  sn_baseline_age_s :: u64
  sn_ecc_sbe_volatile :: u64
  sn_ecc_dbe_volatile :: u64
  sn_ecc_sbe_aggregate :: u64
  sn_ecc_dbe_aggregate :: u64
  sn_retired_pages_sbe :: u32
  sn_retired_pages_dbe :: u32
  sn_row_remap_failures :: u32
  sn_pending_row_remap :: int
  sn_mem_used_bytes :: u64
  sn_mem_free_bytes :: u64
  sn_mem_total_bytes :: u64
  sn_mem_bw_util_pct :: double
  sn_pcie_link_gen :: int
  sn_pcie_link_width :: int
  sn_pcie_replay_count :: u64
  sn_nvlink_replay_count :: u64
  sn_nvlink_recovery_count :: u64
  sn_nvlink_crc_count :: u64
  sn_xid_count :: u64
  sn_xid_last_code :: u32
  sn_board_power_w :: double
  sn_power_w :: double
  sn_power_limit_w :: double
  sn_energy_j :: double
  sn_power_violation_us :: u64
  sn_thermal_violation_us :: u64
  sn_throttle_sw_power_cap :: bool
  sn_throttle_hw_slowdown :: bool
  sn_throttle_hw_power_brake :: bool
  sn_throttle_sw_thermal :: bool
  sn_throttle_hw_thermal :: bool
  sn_sm_clock_mhz :: double
  sn_mem_clock_mhz :: double
  sn_util_gpu_pct :: int
  sn_util_mem_pct :: int
  sn_pstate :: int
  sn_temp_c :: double
  sn_hbm_temp_c :: double
  sn_fan_speed_pct :: int
  sn_last_poll_ms :: u64
  sn_gpu_present :: bool
  sn_gpu_available :: bool
  sn_dcgm_available :: int
  sn_collector_errors_total :: u64

definition zero_snapshot :: gpu_snapshot_t where
  "zero_snapshot = \<lparr>sn_serial = [], sn_uuid = [], sn_gpu_model = [], sn_driver_version =
  [], sn_gpu_index = 0, sn_identity_source = GPU_IDENTITY_SERIAL, sn_pcie_link_gen_max = 0,
  sn_pcie_link_width_max = 0, sn_score = Fin 0, sn_classification = GPU_CLASS_NA, sn_reason_mask =
  0, sn_telemetry_ok = False, sn_temp_p95_c = Fin 0, sn_hbm_temp_p95_c = Fin 0, sn_clk_std_mhz =
  Fin 0, sn_power_saturation_frac = Fin 0, sn_ecc_sbe_rate_per_hour = Fin 0, sn_ecc_dbe_in_window
  = False, sn_perf_drop_frac = Fin 0, sn_probe_stale = False, sn_probe_available = False,
  sn_baseline_available = False, sn_baseline_valid = False, sn_baseline_serial_mismatch = False,
  sn_baseline_driver_mismatch = False, sn_baseline_age_s = 0, sn_ecc_sbe_volatile = 0,
  sn_ecc_dbe_volatile = 0, sn_ecc_sbe_aggregate = 0, sn_ecc_dbe_aggregate = 0,
  sn_retired_pages_sbe = 0, sn_retired_pages_dbe = 0, sn_row_remap_failures = 0,
  sn_pending_row_remap = 0, sn_mem_used_bytes = 0, sn_mem_free_bytes = 0, sn_mem_total_bytes = 0,
  sn_mem_bw_util_pct = Fin 0, sn_pcie_link_gen = 0, sn_pcie_link_width = 0, sn_pcie_replay_count =
  0, sn_nvlink_replay_count = 0, sn_nvlink_recovery_count = 0, sn_nvlink_crc_count = 0,
  sn_xid_count = 0, sn_xid_last_code = 0, sn_board_power_w = Fin 0, sn_power_w = Fin 0,
  sn_power_limit_w = Fin 0, sn_energy_j = Fin 0, sn_power_violation_us = 0,
  sn_thermal_violation_us = 0, sn_throttle_sw_power_cap = False, sn_throttle_hw_slowdown = False,
  sn_throttle_hw_power_brake = False, sn_throttle_sw_thermal = False, sn_throttle_hw_thermal =
  False, sn_sm_clock_mhz = Fin 0, sn_mem_clock_mhz = Fin 0, sn_util_gpu_pct = 0, sn_util_mem_pct =
  0, sn_pstate = 0, sn_temp_c = Fin 0, sn_hbm_temp_c = Fin 0, sn_fan_speed_pct = 0,
  sn_last_poll_ms = 0, sn_gpu_present = False, sn_gpu_available = False, sn_dcgm_available = 0,
  sn_collector_errors_total = 0\<rparr>"

record gpu_ipc_msg_t =
  msg_gpu_index :: int
  msg_snapshot :: gpu_snapshot_t

section \<open>Configuration\<close>

text \<open>The compiled-in defaults; a literal that is not exact in binary is the double nearest to it.\<close>

definition CFG_DEFAULT_STATE_DIR :: string where [simp]: "CFG_DEFAULT_STATE_DIR = ''/var/run/gpu-health''"
definition CFG_DEFAULT_BASELINE_DIR :: string where [simp]: "CFG_DEFAULT_BASELINE_DIR = ''/etc/gpu-health/baseline''"
definition CFG_DEFAULT_LISTEN_ADDR :: string where [simp]: "CFG_DEFAULT_LISTEN_ADDR = ''0.0.0.0''"
definition CFG_DEFAULT_LISTEN_PORT :: int where [simp]: "CFG_DEFAULT_LISTEN_PORT = 9108"
definition CFG_DEFAULT_POLL_INTERVAL_S :: int where [simp]: "CFG_DEFAULT_POLL_INTERVAL_S = 1"
definition CFG_DEFAULT_WINDOW_S :: int where [simp]: "CFG_DEFAULT_WINDOW_S = 300"
definition CFG_DEFAULT_STATE_WRITE_INTERVAL_S :: int where [simp]: "CFG_DEFAULT_STATE_WRITE_INTERVAL_S = 30"
definition CFG_DEFAULT_MIN_SAMPLE_RATIO :: double where [simp]: "CFG_DEFAULT_MIN_SAMPLE_RATIO = fl (4/5)"
definition CFG_DEFAULT_MAX_MEDIAN_STEP_S :: double where [simp]: "CFG_DEFAULT_MAX_MEDIAN_STEP_S = fl (5/2)"
definition CFG_DEFAULT_MIN_SAMPLES_ABSOLUTE :: int where [simp]: "CFG_DEFAULT_MIN_SAMPLES_ABSOLUTE = 10"
definition CFG_DEFAULT_TEMP_P95_WARN_C :: double where [simp]: "CFG_DEFAULT_TEMP_P95_WARN_C = Fin 80"
definition CFG_DEFAULT_TEMP_P95_BAD_C :: double where [simp]: "CFG_DEFAULT_TEMP_P95_BAD_C = Fin 90"
definition CFG_DEFAULT_HBM_TEMP_P95_WARN_C :: double where [simp]: "CFG_DEFAULT_HBM_TEMP_P95_WARN_C = Fin 85"
definition CFG_DEFAULT_HBM_TEMP_P95_BAD_C :: double where [simp]: "CFG_DEFAULT_HBM_TEMP_P95_BAD_C = Fin 95"
definition CFG_DEFAULT_CLK_STD_WARN_MHZ :: double where [simp]: "CFG_DEFAULT_CLK_STD_WARN_MHZ = Fin 120"
definition CFG_DEFAULT_POWER_HIGH_RATIO :: double where [simp]: "CFG_DEFAULT_POWER_HIGH_RATIO = fl (49/50)"
definition CFG_DEFAULT_POWER_PENALTY_MAX :: double where [simp]: "CFG_DEFAULT_POWER_PENALTY_MAX = Fin 3"
definition CFG_DEFAULT_ECC_SBE_RATE_WARN :: double where [simp]: "CFG_DEFAULT_ECC_SBE_RATE_WARN = Fin 100"
definition CFG_DEFAULT_ECC_SBE_PENALTY :: double where [simp]: "CFG_DEFAULT_ECC_SBE_PENALTY = Fin 5"
definition CFG_DEFAULT_ECC_DBE_PENALTY :: double where [simp]: "CFG_DEFAULT_ECC_DBE_PENALTY = Fin 25"
definition CFG_DEFAULT_RETIRED_PAGES_WARN :: int where [simp]: "CFG_DEFAULT_RETIRED_PAGES_WARN = 1"
definition CFG_DEFAULT_RETIRED_PAGES_BAD :: int where [simp]: "CFG_DEFAULT_RETIRED_PAGES_BAD = 10"
definition CFG_DEFAULT_RETIRED_PEN_WARN :: double where [simp]: "CFG_DEFAULT_RETIRED_PEN_WARN = Fin 5"
definition CFG_DEFAULT_RETIRED_PEN_BAD :: double where [simp]: "CFG_DEFAULT_RETIRED_PEN_BAD = Fin 15"
definition CFG_DEFAULT_ROW_REMAP_PENALTY :: double where [simp]: "CFG_DEFAULT_ROW_REMAP_PENALTY = Fin 25"
definition CFG_DEFAULT_PCIE_GEN_PENALTY :: double where [simp]: "CFG_DEFAULT_PCIE_GEN_PENALTY = Fin 10"
definition CFG_DEFAULT_PCIE_WIDTH_PENALTY :: double where [simp]: "CFG_DEFAULT_PCIE_WIDTH_PENALTY = Fin 15"
definition CFG_DEFAULT_PERF_DROP_WARN :: double where [simp]: "CFG_DEFAULT_PERF_DROP_WARN = fl (3/100)"
definition CFG_DEFAULT_PERF_DROP_BAD :: double where [simp]: "CFG_DEFAULT_PERF_DROP_BAD = fl (7/100)"
definition CFG_DEFAULT_PERF_DROP_SEVERE :: double where [simp]: "CFG_DEFAULT_PERF_DROP_SEVERE = fl (3/25)"
definition CFG_DEFAULT_PERF_DROP_PEN_WARN :: double where [simp]: "CFG_DEFAULT_PERF_DROP_PEN_WARN = Fin 5"
definition CFG_DEFAULT_PERF_DROP_PEN_BAD :: double where [simp]: "CFG_DEFAULT_PERF_DROP_PEN_BAD = Fin 15"
definition CFG_DEFAULT_PERF_DROP_PEN_SEVERE :: double where [simp]: "CFG_DEFAULT_PERF_DROP_PEN_SEVERE = Fin 30"
definition CFG_DEFAULT_PROBE_INTERVAL_S :: int where [simp]: "CFG_DEFAULT_PROBE_INTERVAL_S = 86400"
definition CFG_DEFAULT_PROBE_TTL_S :: int where [simp]: "CFG_DEFAULT_PROBE_TTL_S = 129600"
definition CFG_DEFAULT_NVML_TIMEOUT_MS :: int where [simp]: "CFG_DEFAULT_NVML_TIMEOUT_MS = 5000"
definition CFG_DEFAULT_NVML_ERROR_THRESHOLD :: int where [simp]: "CFG_DEFAULT_NVML_ERROR_THRESHOLD = 10"
definition CFG_DEFAULT_NVML_HARD_THRESHOLD :: int where [simp]: "CFG_DEFAULT_NVML_HARD_THRESHOLD = 1"
definition CFG_DEFAULT_NVML_RETRY_INTERVAL_S :: int where [simp]: "CFG_DEFAULT_NVML_RETRY_INTERVAL_S = 60"
definition CFG_DEFAULT_DCGM_TIMEOUT_MS :: int where [simp]: "CFG_DEFAULT_DCGM_TIMEOUT_MS = 5000"
definition CFG_DEFAULT_DCGM_ERROR_THRESHOLD :: int where [simp]: "CFG_DEFAULT_DCGM_ERROR_THRESHOLD = 10"
definition CFG_DEFAULT_DCGM_RETRY_INTERVAL_S :: int where [simp]: "CFG_DEFAULT_DCGM_RETRY_INTERVAL_S = 60"

text \<open>The fields correspond one to one to the keys of the configuration file.\<close>

record gpu_config_t =
  state_dir :: string
  baseline_dir :: string
  listen_addr :: string
  listen_port :: int
  poll_interval_s :: int
  window_s :: int
  state_write_interval_s :: int
  min_sample_ratio :: double
  max_median_step_s :: double
  min_samples_absolute :: int
  temp_p95_warn_c :: double
  temp_p95_bad_c :: double
  hbm_temp_p95_warn_c :: double
  hbm_temp_p95_bad_c :: double
  clk_std_warn_mhz :: double
  power_high_ratio :: double
  power_penalty_max :: double
  ecc_sbe_rate_warn_per_hour :: double
  ecc_sbe_penalty :: double
  ecc_dbe_penalty :: double
  retired_pages_warn :: int
  retired_pages_bad :: int
  retired_pages_pen_warn :: double
  retired_pages_pen_bad :: double
  row_remap_failure_penalty :: double
  pcie_link_degraded_penalty :: double
  pcie_width_degraded_penalty :: double
  perf_drop_warn :: double
  perf_drop_bad :: double
  perf_drop_severe :: double
  perf_drop_pen_warn :: double
  perf_drop_pen_bad :: double
  perf_drop_pen_severe :: double
  probe_interval_s :: int
  probe_ttl_s :: int
  nvml_timeout_ms :: int
  nvml_error_threshold :: int
  nvml_hard_error_threshold :: int
  nvml_retry_interval_s :: int
  dcgm_timeout_ms :: int
  dcgm_error_threshold :: int
  dcgm_retry_interval_s :: int
  file_sd_path :: string
  tls_cert_path :: string
  tls_key_path :: string

end
