(* ===== verification/Ring.thy ===== *)
theory Ring
  imports Types
begin

text \<open>
  The ring buffer of one GPU: \<open>ring_push\<close> of \<^verbatim>\<open>src/collector.c\<close>, the allocation in
  \<open>collector_start\<close>, and the logical index used by \<open>sample_field\<close> of \<^verbatim>\<open>src/scorer.c\<close>. Every
  operation keeps \<open>ring_wf\<close>, every index computed from it lies inside the allocated array, and
  the ring refines a list of at most \<open>capacity\<close> samples (\<open>window\<close>, oldest first): a push appends
  and forgets the oldest sample. The locale \<open>sliding_window\<close> states that contract.
\<close>

section \<open>Operations\<close>

definition ring_push :: "gpu_ring_t \<Rightarrow> gpu_sample_t \<Rightarrow> gpu_ring_t" where
  "ring_push ring s =
     (let ring1 = ring\<lparr>samples := (samples ring)[nat (head ring) := s]\<rparr>;
          ring2 = ring1\<lparr>head := c_mod (head ring1 + 1) (capacity ring1)\<rparr>
      in if rcount ring2 < capacity ring2 then ring2\<lparr>rcount := rcount ring2 + 1\<rparr> else ring2)"

text \<open>The allocation: at least one slot, zeroed by \<open>calloc\<close>.\<close>

definition ring_alloc :: "int \<Rightarrow> gpu_ring_t" where
  "ring_alloc c =
     (let cap = (if c < 1 then 1 else c)
      in \<lparr>samples = replicate (nat cap) zero_sample, head = 0, rcount = 0, capacity = cap\<rparr>)"

text \<open>Position of the logical index \<open>i\<close> (0 is the oldest sample) in the array.\<close>

definition ring_idx :: "gpu_ring_t \<Rightarrow> int \<Rightarrow> int" where
  "ring_idx ring i = c_mod (head ring - rcount ring + i + capacity ring) (capacity ring)"

definition ring_at :: "gpu_ring_t \<Rightarrow> int \<Rightarrow> gpu_sample_t" where
  "ring_at ring i = samples ring ! nat (ring_idx ring i)"

definition window :: "gpu_ring_t \<Rightarrow> gpu_sample_t list" where
  "window ring = map (\<lambda>i. ring_at ring (int i)) [0..<nat (rcount ring)]"

definition ring_wf :: "gpu_ring_t \<Rightarrow> bool" where
  "ring_wf ring \<longleftrightarrow> 0 < capacity ring \<and> length (samples ring) = nat (capacity ring) \<and>
     0 \<le> head ring \<and> head ring < capacity ring \<and> 0 \<le> rcount ring \<and> rcount ring \<le> capacity ring"

section \<open>Index arithmetic\<close>

lemma ring_idx_mod [ring_simps]:
  "ring_wf ring \<Longrightarrow> 0 \<le> i \<Longrightarrow>
     ring_idx ring i = (head ring - rcount ring + i) mod capacity ring"
  by (simp add: ring_idx_def ring_wf_def)

lemma ring_idx_range:
  "ring_wf ring \<Longrightarrow> 0 \<le> i \<Longrightarrow> 0 \<le> ring_idx ring i \<and> ring_idx ring i < capacity ring"
  by (auto simp: ring_idx_mod) (auto simp: ring_wf_def)

lemma ring_idx_in_array:
  "ring_wf ring \<Longrightarrow> 0 \<le> i \<Longrightarrow> nat (ring_idx ring i) < length (samples ring)"
  using ring_idx_range [of ring i] by (simp add: ring_wf_def)

text \<open>The newest sample sits just before the head, at logical index \<open>count - 1\<close>.\<close>

lemma ring_idx_last:
  "ring_wf ring \<Longrightarrow> 0 < rcount ring \<Longrightarrow>
     ring_idx ring (rcount ring - 1) = c_mod (head ring - 1 + capacity ring) (capacity ring)"
  by (simp add: ring_idx_def)

lemma ring_idx_ne_head:
  assumes "ring_wf ring" "0 \<le> i" "i < rcount ring" "rcount ring - i < capacity ring"
  shows "ring_idx ring i \<noteq> head ring"
proof
  assume "ring_idx ring i = head ring"
  then have "(head ring - (rcount ring - i)) mod capacity ring = head ring mod capacity ring"
    using assms by (simp add: ring_idx_mod ring_wf_def algebra_simps)
  then have "capacity ring dvd rcount ring - i"
    by (metis diff_diff_cancel dvd_minus_iff minus_diff_eq mod_eq_dvd_iff diff_diff_eq2 add_diff_cancel_left')
  then show False using assms by (simp add: zdvd_not_zless)
qed

lemma mod_succ_diff: "((h + 1) mod c - n + i) mod c = (h + 1 - n + i) mod (c :: int)"
  by (metis (no_types, opaque_lifting) add.commute diff_add_eq mod_add_right_eq)

section \<open>What a push does\<close>

lemma ring_push_fields:
  assumes "ring_wf ring"
  shows "samples (ring_push ring s) = (samples ring)[nat (head ring) := s]"
    and "head (ring_push ring s) = (head ring + 1) mod capacity ring"
    and "rcount (ring_push ring s) = min (rcount ring + 1) (capacity ring)"
    and "capacity (ring_push ring s) = capacity ring"
  using assms by (auto simp: ring_push_def ring_wf_def Let_def)

lemma ring_wf_push: "ring_wf ring \<Longrightarrow> ring_wf (ring_push ring s)"
  by (simp add: ring_wf_def ring_push_fields [unfolded ring_wf_def])

lemma ring_wf_alloc: "ring_wf (ring_alloc c)"
  by (simp add: ring_wf_def ring_alloc_def Let_def)

lemma window_alloc [simp]: "window (ring_alloc c) = []"
  by (simp add: window_def ring_alloc_def Let_def)

lemma length_window [simp]: "length (window ring) = nat (rcount ring)"
  by (simp add: window_def)

lemma window_nth: "i < nat (rcount ring) \<Longrightarrow> window ring ! i = ring_at ring (int i)"
  by (simp add: window_def)

lemma ring_at_push_new:
  assumes wf: "ring_wf ring"
  shows "ring_at (ring_push ring s) (rcount (ring_push ring s) - 1) = s"
proof -
  let ?r = "ring_push ring s"
  have pos: "0 < rcount ?r" using wf by (auto simp: ring_push_fields ring_wf_def)
  have "ring_idx ?r (rcount ?r - 1) = ((head ring + 1) mod capacity ring - 1) mod capacity ring"
    using ring_wf_push [OF wf] pos by (simp add: ring_idx_mod ring_push_fields [OF wf])
  also have "\<dots> = head ring" using wf by (simp add: ring_wf_def mod_diff_left_eq)
  finally show ?thesis using wf by (simp add: ring_at_def ring_push_fields [OF wf]) (simp add: ring_wf_def)
qed

lemma ring_at_push_old:
  assumes wf: "ring_wf ring" and i: "0 \<le> i" "i + 1 < rcount (ring_push ring s)"
  shows "ring_at (ring_push ring s) i =
         ring_at ring (i + (rcount ring + 1 - rcount (ring_push ring s)))"
proof -
  let ?r = "ring_push ring s" and ?j = "i + (rcount ring + 1 - rcount (ring_push ring s))"
  have j: "0 \<le> ?j" "?j < rcount ring" "rcount ring - ?j < capacity ring"
    using wf i by (auto simp: ring_push_fields ring_wf_def min_def split: if_splits)
  have "ring_idx ?r i = (head ring + 1 - rcount ?r + i) mod capacity ring"
    using ring_wf_push [OF wf] i by (simp add: ring_idx_mod ring_push_fields [OF wf] mod_succ_diff)
  also have "\<dots> = ring_idx ring ?j" using wf j by (simp add: ring_idx_mod algebra_simps)
  finally have idx: "ring_idx ?r i = ring_idx ring ?j" .
  have "nat (ring_idx ring ?j) \<noteq> nat (head ring)"
    using ring_idx_ne_head [OF wf j] ring_idx_range [OF wf j(1)] wf
    by (auto simp: ring_wf_def eq_nat_nat_iff)
  then show ?thesis by (simp add: ring_at_def idx ring_push_fields [OF wf])
qed

lemma window_push:
  assumes wf: "ring_wf ring"
  shows "window (ring_push ring s) = take_last (nat (capacity ring)) (window ring @ [s])"
proof (rule nth_equalityI)
  let ?r = "ring_push ring s"
  have cnt: "rcount ?r = min (rcount ring + 1) (capacity ring)" using wf by (simp add: ring_push_fields)
  have bnd: "0 \<le> rcount ring" "rcount ring \<le> capacity ring" "0 < capacity ring"
    using wf by (auto simp: ring_wf_def)
  show len: "length (window ?r) = length (take_last (nat (capacity ring)) (window ring @ [s]))"
    using bnd cnt by (auto simp: min_def nat_add_distrib)
  fix i assume "i < length (window ?r)"
  then have i: "i < nat (rcount ?r)" by simp
  let ?d = "length (window ring @ [s]) - nat (capacity ring)"
  have d: "int ?d = rcount ring + 1 - rcount ?r" using bnd cnt by auto
  have rhs: "take_last (nat (capacity ring)) (window ring @ [s]) ! i = (window ring @ [s]) ! (?d + i)"
    unfolding take_last_def by (rule nth_drop) simp
  show "window ?r ! i = take_last (nat (capacity ring)) (window ring @ [s]) ! i"
  proof (cases "int i = rcount ?r - 1")
    case True
    then have "?d + i = length (window ring)" using d bnd by (simp add: nat_eq_iff2)
    then show ?thesis using i True rhs ring_at_push_new [OF wf, of s]
      by (simp add: window_nth nth_append del: One_nat_def)
  next
    case False
    then have lt: "int i + 1 < rcount ?r" using i by linarith
    then have di: "?d + i < nat (rcount ring)" using d by linarith
    have "window ?r ! i = ring_at ring (int i + int ?d)"
      using i lt ring_at_push_old [OF wf, of "int i" s] unfolding d by (simp add: window_nth)
    also have "\<dots> = (window ring @ [s]) ! (?d + i)"
      using di by (simp add: window_nth nth_append add.commute)
    finally show ?thesis using rhs by simp
  qed
qed

section \<open>The contract of a sliding window\<close>

locale sliding_window =
  fixes empty :: "'r"
    and push :: "'r \<Rightarrow> 'a \<Rightarrow> 'r"
    and win :: "'r \<Rightarrow> 'a list"
    and wf :: "'r \<Rightarrow> bool"
    and cap :: nat
  assumes cap_pos: "0 < cap"
    and wf_empty: "wf empty"
    and wf_push: "wf r \<Longrightarrow> wf (push r x)"
    and win_empty: "win empty = []"
    and win_push: "wf r \<Longrightarrow> win (push r x) = take_last cap (win r @ [x])"
begin

lemma wf_pushes: "wf r \<Longrightarrow> wf (foldl push r xs)"
  by (induction xs arbitrary: r) (auto intro: wf_push)

lemma win_pushes_from: "wf r \<Longrightarrow> length (win r) \<le> cap \<Longrightarrow> win (foldl push r xs) = take_last cap (win r @ xs)"
proof (induction xs rule: rev_induct)
  case (snoc x xs)
  then have "win (foldl push r (xs @ [x])) = take_last cap (take_last cap (win r @ xs) @ [x])"
    by (simp add: win_push wf_pushes)
  also have "\<dots> = take_last cap (win r @ xs @ [x])"
    using take_last_absorb_snoc [OF cap_pos, of "win r @ xs" x] by simp
  finally show ?case .
qed simp

theorem win_pushes: "win (foldl push empty xs) = take_last cap xs"
  using win_pushes_from [OF wf_empty, of xs] by (simp add: win_empty)

lemma win_length: "length (win (foldl push empty xs)) = min cap (length xs)"
  by (simp add: win_pushes)

lemma win_newest: "xs \<noteq> [] \<Longrightarrow> last (win (foldl push empty xs)) = last xs"
  using cap_pos by (simp add: win_pushes)

end

definition ring_wf_cap :: "int \<Rightarrow> gpu_ring_t \<Rightarrow> bool" where
  "ring_wf_cap c ring \<longleftrightarrow> ring_wf ring \<and> capacity ring = (if c < 1 then 1 else c)"

interpretation ring: sliding_window "ring_alloc c" ring_push window "ring_wf_cap c" "nat (max 1 c)" for c :: int
proof unfold_locales
  show "ring_wf_cap c (ring_alloc c)"
    by (simp add: ring_wf_cap_def ring_wf_alloc) (simp add: ring_alloc_def Let_def)
next
  fix r x assume "ring_wf_cap c r"
  then show "ring_wf_cap c (ring_push r x)"
    by (simp add: ring_wf_cap_def ring_wf_push ring_push_fields(4))
next
  fix r x assume "ring_wf_cap c r"
  then show "window (ring_push r x) = take_last (nat (max 1 c)) (window r @ [x])"
    by (auto simp: ring_wf_cap_def window_push max_def)
qed auto

text \<open>C24. The ring buffer is a sliding window: after any sequence of pushes into a freshly allocated
  ring it holds exactly the last samples pushed, oldest first, as many as its capacity allows (at
  least one slot), and it stays well formed: the head and the count never leave their ranges.\<close>

theorem ring_is_sliding_window:
  "window (foldl ring_push (ring_alloc c) xs) = take_last (nat (max 1 c)) xs \<and>
   ring_wf (foldl ring_push (ring_alloc c) xs)"
  using ring.win_pushes [of c xs] ring.wf_pushes [OF ring.wf_empty, of c xs] by (simp add: ring_wf_cap_def)

end
