(* ===== verification/Scorer.thy ===== *)
theory Scorer
  imports Ring
begin

text \<open>
  The scoring engine, \<^verbatim>\<open>src/scorer.c\<close>: the ring statistics, the telemetry completeness gate and
  \<open>score_gpu\<close>, in binary64 arithmetic as the C code computes it. \<open>score_gpu\<close> is the
  composition of one definition per stage of the C function. The second half relates it to a
  rule table (\<open>score_rules\<close>: condition, penalty, reason bit), from which the range of the score,
  the meaning of every reason bit and the classification follow.
\<close>

section \<open>Ring buffer statistics\<close>

text \<open>
  A loop \<open>for (i = 0; i < n; i++)\<close> runs over \<open>c_range n\<close>. A field offset is the field's
  selector.
\<close>

definition c_range :: "int \<Rightarrow> int list" where
  "c_range n = map int [0..<nat n]"

definition sample_field :: "gpu_ring_t \<Rightarrow> int \<Rightarrow> (gpu_sample_t \<Rightarrow> double) \<Rightarrow> double" where
  "sample_field ring i field = field (ring_at ring i)"

definition ring_mean :: "gpu_ring_t \<Rightarrow> (gpu_sample_t \<Rightarrow> double) \<Rightarrow> double" where
  "ring_mean ring field =
     (if rcount ring = 0 then NaN
      else ddiv (foldl (\<lambda>sum i. dadd sum (sample_field ring i field)) (Fin 0) (c_range (rcount ring)))
                (of_c_int (rcount ring)))"

definition ring_stddev :: "gpu_ring_t \<Rightarrow> (gpu_sample_t \<Rightarrow> double) \<Rightarrow> double" where
  "ring_stddev ring field =
     (if rcount ring < 2 then NaN
      else let mean = ring_mean ring field;
               sq_sum = foldl (\<lambda>sq i. let d = dsub (sample_field ring i field) mean in dadd sq (dmul d d))
                          (Fin 0) (c_range (rcount ring))
           in dsqrt (ddiv sq_sum (of_c_int (rcount ring - 1))))"

definition cmp_double :: "double \<Rightarrow> double \<Rightarrow> int" where
  "cmp_double da db = (if dlt da db then - 1 else if dlt db da then 1 else 0)"

text \<open>
  \<open>(int)ceil(d)\<close>; outside the finite values the conversion is undefined in C and yields
  \<open>INT_MIN\<close> on the target.
\<close>

fun c_ceil_int :: "double \<Rightarrow> int" where
  "c_ceil_int (Fin x) = \<lceil>x\<rceil>"
| "c_ceil_int _ = - 2147483648"

text \<open>
  Nearest-rank p95. Up to 300 values live on the stack; more need a heap buffer, and
  \<open>malloc_ok\<close> says whether that allocation succeeds.
\<close>

definition p95_rank :: "int \<Rightarrow> int" where
  "p95_rank n =
     (let rank = c_ceil_int (dmul (fl (95/100)) (of_c_int n));
          rank1 = (if rank < 1 then 1 else rank)
      in if n < rank1 then n else rank1)"

definition ring_p95 :: "bool \<Rightarrow> gpu_ring_t \<Rightarrow> (gpu_sample_t \<Rightarrow> double) \<Rightarrow> double" where
  "ring_p95 malloc_ok ring field =
     (if rcount ring = 0 then NaN
      else if \<not> rcount ring \<le> 300 \<and> \<not> malloc_ok then NaN
      else let vals = qsort cmp_double (map (\<lambda>i. sample_field ring i field) (c_range (rcount ring)))
           in vals ! nat (p95_rank (rcount ring) - 1))"

section \<open>Telemetry completeness gate\<close>

definition of_u64 :: "u64 \<Rightarrow> double" where
  "of_u64 w = of_c_int (uint w)"

text \<open>The inter-sample steps in seconds; the timestamps are subtracted as \<open>uint64_t\<close>.\<close>

definition gate_deltas :: "gpu_ring_t \<Rightarrow> double list" where
  "gate_deltas ring =
     map (\<lambda>i. let dt = ddiv (of_u64 (timestamp_ms (ring_at ring (i + 1)) - timestamp_ms (ring_at ring i)))
                           (Fin 1000)
              in if dlt dt (Fin 0) then dneg dt else dt)
         (c_range (rcount ring - 1))"

definition gate_median :: "gpu_ring_t \<Rightarrow> double" where
  "gate_median ring =
     (let n = rcount ring - 1; deltas = qsort cmp_double (gate_deltas ring)
      in if c_mod n 2 = 1 then deltas ! nat (c_div n 2)
         else ddiv (dadd (deltas ! nat (c_div n 2 - 1)) (deltas ! nat (c_div n 2))) (Fin 2))"

definition completeness_gate :: "gpu_ring_t \<Rightarrow> gpu_config_t \<Rightarrow> bool" where
  "completeness_gate ring cfg =
     (if rcount ring < min_samples_absolute cfg then False
      else let expected = c_div (window_s cfg) (poll_interval_s cfg)
      in if dlt (of_c_int (rcount ring)) (dmul (min_sample_ratio cfg) (of_c_int expected)) then False
      else if rcount ring < 2 then False
      else if dlt (max_median_step_s cfg) (gate_median ring) then False
      else True)"

section \<open>score\_gpu, stage by stage\<close>

text \<open>The local variables \<open>score\<close> and \<open>reasons\<close> and the output struct, threaded through the
  stages.\<close>

type_synonym score_vars = "double \<times> u32 \<times> gpu_score_result_t"

definition score_temp :: "bool \<Rightarrow> gpu_ring_t \<Rightarrow> gpu_config_t \<Rightarrow> score_vars \<Rightarrow> score_vars" where
  "score_temp malloc_ok ring cfg v =
     (case v of (score, reasons, out) \<Rightarrow>
      let temp_p95 = ring_p95 malloc_ok ring temp_c; out = out\<lparr>sc_temp_p95_c := temp_p95\<rparr>
      in if \<not> isnan temp_p95 then
           if dlt (temp_p95_bad_c cfg) temp_p95 then (dsub score (Fin 25), reasons OR GPU_REASON_TEMP_BAD, out)
           else if dlt (temp_p95_warn_c cfg) temp_p95 then (dsub score (Fin 10), reasons OR GPU_REASON_TEMP_WARN, out)
           else (score, reasons, out)
         else (score, reasons, out))"

definition score_hbm :: "bool \<Rightarrow> gpu_ring_t \<Rightarrow> gpu_config_t \<Rightarrow> score_vars \<Rightarrow> score_vars" where
  "score_hbm malloc_ok ring cfg v =
     (case v of (score, reasons, out) \<Rightarrow>
      let hbm_p95 = ring_p95 malloc_ok ring hbm_temp_c; out = out\<lparr>sc_hbm_temp_p95_c := hbm_p95\<rparr>
      in if \<not> isnan hbm_p95 then
           if dlt (hbm_temp_p95_bad_c cfg) hbm_p95 then (dsub score (Fin 25), reasons OR GPU_REASON_HBM_TEMP_BAD, out)
           else if dlt (hbm_temp_p95_warn_c cfg) hbm_p95 then (dsub score (Fin 10), reasons OR GPU_REASON_HBM_TEMP_WARN, out)
           else (score, reasons, out)
         else (score, reasons, out))"

definition clk_penalty :: "double \<Rightarrow> gpu_config_t \<Rightarrow> double" where
  "clk_penalty clk_std cfg =
     (let penalty = ddiv (dmul (Fin 15) (dsub clk_std (clk_std_warn_mhz cfg))) (clk_std_warn_mhz cfg)
      in if dlt (Fin 15) penalty then Fin 15 else penalty)"

definition score_clock :: "gpu_ring_t \<Rightarrow> gpu_config_t \<Rightarrow> score_vars \<Rightarrow> score_vars" where
  "score_clock ring cfg v =
     (case v of (score, reasons, out) \<Rightarrow>
      let clk_std = ring_stddev ring sm_clock_mhz; out = out\<lparr>sc_clk_std_mhz := clk_std\<rparr>
      in if \<not> isnan clk_std \<and> dlt (clk_std_warn_mhz cfg) clk_std
         then (dsub score (clk_penalty clk_std cfg), reasons OR GPU_REASON_CLK_STD_HIGH, out)
         else (score, reasons, out))"

definition power_sat_frac :: "gpu_ring_t \<Rightarrow> gpu_config_t \<Rightarrow> double" where
  "power_sat_frac ring cfg =
     (let sat_count = foldl (\<lambda>sat_count i.
            let pw = sample_field ring i power_w; lim = sample_field ring i power_limit_w
            in if dlt (Fin 0) lim \<and> dle (dmul (power_high_ratio cfg) lim) pw then sat_count + 1 else sat_count)
          (0 :: int) (c_range (rcount ring))
      in ddiv (of_c_int sat_count) (of_c_int (rcount ring)))"

definition power_penalty :: "double \<Rightarrow> gpu_config_t \<Rightarrow> double" where
  "power_penalty sat_frac cfg =
     (let penalty = dmul (power_penalty_max cfg) sat_frac
      in if dlt (power_penalty_max cfg) penalty then power_penalty_max cfg else penalty)"

definition score_power :: "gpu_ring_t \<Rightarrow> gpu_config_t \<Rightarrow> score_vars \<Rightarrow> score_vars" where
  "score_power ring cfg v =
     (case v of (score, reasons, out) \<Rightarrow>
      let sat_frac = power_sat_frac ring cfg; out = out\<lparr>sc_power_saturation_frac := sat_frac\<rparr>
      in if dlt (Fin 0) sat_frac
         then (dsub score (power_penalty sat_frac cfg), reasons OR GPU_REASON_POWER_SATURATION, out)
         else (score, reasons, out))"

definition ring_first :: "gpu_ring_t \<Rightarrow> gpu_sample_t" where
  "ring_first ring =
     samples ring ! nat (c_mod (head ring - rcount ring + capacity ring) (capacity ring))"

definition ring_last :: "gpu_ring_t \<Rightarrow> gpu_sample_t" where
  "ring_last ring = samples ring ! nat (c_mod (head ring - 1 + capacity ring) (capacity ring))"

definition sbe_rate :: "gpu_ring_t \<Rightarrow> double" where
  "sbe_rate ring =
     (let s_first = ring_first ring; s_last = ring_last ring;
          ts_first_s = ddiv (of_u64 (timestamp_ms s_first)) (Fin 1000);
          ts_last_s = ddiv (of_u64 (timestamp_ms s_last)) (Fin 1000);
          window_hrs = ddiv (dsub ts_last_s ts_first_s) (Fin 3600);
          sbe_delta = (if ecc_sbe_volatile s_first \<le> ecc_sbe_volatile s_last
                       then of_u64 (ecc_sbe_volatile s_last - ecc_sbe_volatile s_first) else Fin 0)
      in if dlt (Fin 0) window_hrs then ddiv sbe_delta window_hrs else Fin 0)"

definition dbe_active :: "gpu_ring_t \<Rightarrow> bool" where
  "dbe_active ring \<longleftrightarrow> ecc_dbe_volatile (ring_first ring) < ecc_dbe_volatile (ring_last ring)"

definition score_ecc :: "gpu_ring_t \<Rightarrow> gpu_config_t \<Rightarrow> score_vars \<Rightarrow> score_vars" where
  "score_ecc ring cfg v =
     (case v of (score, reasons, out) \<Rightarrow>
      let rate = sbe_rate ring;
          out = out\<lparr>sc_ecc_sbe_rate_per_hour := rate\<rparr>;
          (score, reasons) =
            (if dlt (ecc_sbe_rate_warn_per_hour cfg) rate
             then (dsub score (ecc_sbe_penalty cfg), reasons OR GPU_REASON_ECC_SBE_HIGH)
             else (score, reasons));
          out = out\<lparr>sc_ecc_dbe_in_window := dbe_active ring\<rparr>
      in if dbe_active ring
         then (dsub score (ecc_dbe_penalty cfg), reasons OR GPU_REASON_ECC_DBE_ACTIVE, out)
         else (score, reasons, out))"

definition score_retired :: "gpu_state_t \<Rightarrow> gpu_config_t \<Rightarrow> score_vars \<Rightarrow> score_vars" where
  "score_retired state cfg v =
     (case v of (score, reasons, out) \<Rightarrow>
      if word_of_int (retired_pages_bad cfg) \<le> st_retired_pages_dbe state
      then (dsub score (retired_pages_pen_bad cfg), reasons OR GPU_REASON_RETIRED_PAGES_BAD, out)
      else if word_of_int (retired_pages_warn cfg) \<le> st_retired_pages_dbe state
      then (dsub score (retired_pages_pen_warn cfg), reasons OR GPU_REASON_RETIRED_PAGES_WARN, out)
      else (score, reasons, out))"

definition score_remap :: "gpu_state_t \<Rightarrow> gpu_config_t \<Rightarrow> score_vars \<Rightarrow> score_vars" where
  "score_remap state cfg v =
     (case v of (score, reasons, out) \<Rightarrow>
      if 0 < st_row_remap_failures state
      then (dsub score (row_remap_failure_penalty cfg), reasons OR GPU_REASON_ROW_REMAP, out)
      else (score, reasons, out))"

definition score_pcie :: "gpu_state_t \<Rightarrow> gpu_config_t \<Rightarrow> score_vars \<Rightarrow> score_vars" where
  "score_pcie state cfg v =
     (case v of (score, reasons, out) \<Rightarrow>
      let (score, reasons) =
            (if 0 < st_pcie_link_gen state \<and> 0 < st_pcie_link_gen_max state
                \<and> st_pcie_link_gen state < st_pcie_link_gen_max state
             then (dsub score (pcie_link_degraded_penalty cfg), reasons OR GPU_REASON_PCIE_GEN)
             else (score, reasons))
      in if 0 < st_pcie_link_width state \<and> 0 < st_pcie_link_width_max state
            \<and> st_pcie_link_width state < st_pcie_link_width_max state
         then (dsub score (pcie_width_degraded_penalty cfg), reasons OR GPU_REASON_PCIE_WIDTH, out)
         else (score, reasons, out))"

text \<open>The baseline and probe pointers may be \<open>NULL\<close>.\<close>

definition perf_drop :: "gpu_baseline_t option \<Rightarrow> gpu_probe_result_t option \<Rightarrow> double option" where
  "perf_drop baseline probe =
     (case (baseline, probe) of (Some b, Some p) \<Rightarrow>
        if bl_available b \<and> bl_valid b \<and> dlt (Fin 0) (bl_perf_w_mean b)
           \<and> pr_available p \<and> \<not> pr_stale p \<and> dlt (Fin 0) (pr_perf_w_mean p)
        then let drp = ddiv (dsub (bl_perf_w_mean b) (pr_perf_w_mean p)) (bl_perf_w_mean b)
             in Some (if dlt drp (Fin 0) then Fin 0 else drp)
        else None
      | _ \<Rightarrow> None)"

definition score_perf ::
    "gpu_baseline_t option \<Rightarrow> gpu_probe_result_t option \<Rightarrow> gpu_config_t \<Rightarrow> score_vars \<Rightarrow> score_vars" where
  "score_perf baseline probe cfg v =
     (case v of (score, reasons, out) \<Rightarrow>
      let (score, reasons, out) =
            (case perf_drop baseline probe of
               None \<Rightarrow> (score, reasons, out)
             | Some drp \<Rightarrow>
                 let out = out\<lparr>sc_perf_drop_frac := drp\<rparr>
                 in if dlt (perf_drop_severe cfg) drp
                    then (dsub score (perf_drop_pen_severe cfg), reasons OR GPU_REASON_PERF_DROP_SEVERE, out)
                    else if dlt (perf_drop_bad cfg) drp
                    then (dsub score (perf_drop_pen_bad cfg), reasons OR GPU_REASON_PERF_DROP_BAD, out)
                    else if dlt (perf_drop_warn cfg) drp
                    then (dsub score (perf_drop_pen_warn cfg), reasons OR GPU_REASON_PERF_DROP_WARN, out)
                    else (score, reasons, out))
      in case probe of
           Some p \<Rightarrow> (if pr_stale p then (score, reasons OR GPU_REASON_PROBE_STALE, out) else (score, reasons, out))
         | None \<Rightarrow> (score, reasons, out))"

definition classify :: "double \<Rightarrow> gpu_class_t" where
  "classify score =
     (if dle (Fin 85) score then GPU_CLASS_HEALTHY
      else if dle (Fin 70) score then GPU_CLASS_MONITOR
      else if dle (Fin 50) score then GPU_CLASS_DEGRADING
      else GPU_CLASS_DECOMMISSION)"

definition score_finish :: "score_vars \<Rightarrow> gpu_score_result_t" where
  "score_finish v =
     (case v of (score, reasons, out) \<Rightarrow>
      let score = (if dlt score (Fin 0) then Fin 0 else score)
      in out\<lparr>sc_score := score, sc_reason_mask := reasons, sc_classification := classify score\<rparr>)"

text \<open>\<open>malloc_ok\<close> says of each of the two percentile buffers whether its allocation succeeds.\<close>

definition score_gpu ::
    "bool \<times> bool \<Rightarrow> gpu_ring_t \<Rightarrow> gpu_state_t \<Rightarrow> gpu_baseline_t option \<Rightarrow> gpu_probe_result_t option
     \<Rightarrow> gpu_config_t \<Rightarrow> gpu_score_result_t" where
  "score_gpu malloc_ok ring state baseline probe cfg =
     (let out = zero_score\<lparr>sc_perf_drop_frac := NaN\<rparr>;
          out = out\<lparr>sc_telemetry_ok := completeness_gate ring cfg\<rparr>
      in if \<not> sc_telemetry_ok out
         then out\<lparr>sc_score := Fin 0, sc_classification := GPU_CLASS_NA,
                  sc_reason_mask := GPU_REASON_TELEMETRY_INCOMPLETE\<rparr>
         else
           let v = (Fin 100, 0, out);
               v = score_temp (fst malloc_ok) ring cfg v;
               v = score_hbm (snd malloc_ok) ring cfg v;
               v = score_clock ring cfg v;
               v = score_power ring cfg v;
               v = score_ecc ring cfg v;
               v = score_retired state cfg v;
               v = score_remap state cfg v;
               v = score_pcie state cfg v;
               v = score_perf baseline probe cfg v
           in score_finish v)"

section \<open>Statistics are functions of the window\<close>

lemma c_range_set [simp]: "set (c_range n) = {0..<n}"
  by (force simp: c_range_def image_iff intro: bexI [of _ "nat _"])

lemma length_c_range [simp]: "length (c_range n) = nat n"
  by (simp add: c_range_def)

lemma map_sample_field: "map (\<lambda>i. sample_field ring i field) (c_range (rcount ring)) = map field (window ring)"
  by (simp add: c_range_def window_def sample_field_def)

lemma foldl_sample_field:
  "foldl (\<lambda>a i. g a (sample_field ring i field)) z (c_range (rcount ring)) = foldl (\<lambda>a s. g a (field s)) z (window ring)"
  by (simp add: c_range_def window_def sample_field_def foldl_map)

lemma ring_first_window: "ring_wf ring \<Longrightarrow> 0 < rcount ring \<Longrightarrow> ring_first ring = hd (window ring)"
  by (simp add: ring_first_def window_def hd_map hd_conv_nth ring_at_def ring_idx_def)

lemma ring_last_window: "ring_wf ring \<Longrightarrow> 0 < rcount ring \<Longrightarrow> ring_last ring = last (window ring)"
  using ring_idx_last [of ring]
  by (simp add: ring_last_def window_def last_map last_conv_nth ring_at_def of_nat_diff)

section \<open>Sorting doubles\<close>

lemma cmp_double_le: "\<not> isnan a \<Longrightarrow> \<not> isnan b \<Longrightarrow> cmp_double a b \<le> 0 \<longleftrightarrow> dle a b"
  by (auto simp: cmp_double_def dle_def) (metis dle_def dlt_dle_trans dle_total)+

interpretation cmpd: c_comparator cmp_double "\<lambda>d. \<not> isnan d"
proof unfold_locales
  fix x y z :: double
  assume *: "\<not> isnan x" "\<not> isnan y"
  then show "cmp_double x y \<le> 0 \<or> cmp_double y x \<le> 0"
    by (simp add: cmp_double_le dle_total)
  show "cmp_double x y \<le> 0 \<Longrightarrow> cmp_double y x \<le> 0 \<Longrightarrow> x = y"
    using * by (simp add: cmp_double_le dle_antisym)
  assume "\<not> isnan z"
  with * show "cmp_double x y \<le> 0 \<Longrightarrow> cmp_double y z \<le> 0 \<Longrightarrow> cmp_double x z \<le> 0"
    by (auto simp: cmp_double_le intro: dle_trans)
qed

lemma qsort_ascending:
  assumes "\<forall>d\<in>set xs. \<not> isnan d"
  shows "sorted_wrt dle (qsort cmp_double xs)"
proof -
  have "sorted_wrt (\<lambda>x y. cmp_double x y \<le> 0) (qsort cmp_double xs)"
    using assms by (rule cmpd.asc_qsort)
  then show ?thesis
    by (rule sorted_wrt_mono_rel [rotated]) (use assms in \<open>auto simp: cmp_double_le\<close>)
qed

section \<open>The nearest rank\<close>

text \<open>The literal \<open>0.95\<close> is slightly below 95/100, but never far enough to change the rank.\<close>

lemma fl_095: "fl (95/100) = Fin (8556839292003942 / 9007199254740992)"
  by code_simp

lemma f64_quotient: "\<bar>m\<bar> \<le> 2 ^ 53 \<Longrightarrow> f64 (of_int m / 2 ^ k)" if "k \<le> 1074"
  unfolding f64_def using that
  by (intro exI [of _ m] exI [of _ "- int k"]) (simp add: power_int_minus field_simps)

lemma p95_rank_eq:
  assumes "1 \<le> n" "n \<le> 2 ^ 30"
  shows "p95_rank n = \<lceil>(19 * of_int n / 20 :: rat)\<rceil>"
proof -
  define c :: rat where "c = 8556839292003942 / 9007199254740992"
  define k where "k = \<lceil>(19 * of_int n / 20 :: rat)\<rceil>"
  let ?lo = "(of_int (32 * (k - 1) + 1) :: rat) / 2 ^ 5"
  have n: "(1 :: rat) \<le> of_int n" "(of_int n :: rat) \<le> 2 ^ 30" using assms by simp_all
  have k: "of_int (k - 1) < (19 * of_int n / 20 :: rat)" "(19 * of_int n / 20 :: rat) \<le> of_int k"
    unfolding k_def by linarith+
  have "20 * (k - 1) < 19 * n" using k(1) by (simp add: field_simps)
  then have "20 * (k - 1) + 1 \<le> 19 * n" by linarith
  then have "(of_int (20 * (k - 1) + 1) :: rat) \<le> of_int (19 * n)" by (simp only: of_int_le_iff)
  then have lo: "(of_int (k - 1) :: rat) + 1/20 \<le> 19 * of_int n / 20" by simp
  have c: "19/20 - 1 / 2 ^ 50 \<le> c" "c \<le> 19/20" by (simp_all add: c_def)
  define p where "p = c * of_int n"
  have "(19/20 - 1 / 2 ^ 50) * of_int n \<le> p" "p \<le> 19/20 * of_int n"
    unfolding p_def using c n by (intro mult_right_mono; simp)+
  moreover have "(19/20 - 1 / 2 ^ 50) * of_int n = (19 * of_int n / 20 :: rat) - of_int n / 2 ^ 50"
    by (simp add: left_diff_distrib)
  moreover have "(of_int n :: rat) / 2 ^ 50 \<le> 1 / 2 ^ 20" using n by simp
  moreover have "?lo = of_int (k - 1) + 1 / 32" by simp
  ultimately have cn: "?lo \<le> p" "p \<le> of_int k" using lo k(2) by (simp_all only: times_divide_eq_left) simp_all
  have kb: "1 \<le> k" "k \<le> n"
  proof -
    show "k \<le> n" unfolding k_def using n by (intro ceiling_le) simp
    have "(0 :: rat) < of_int k" using k(2) n by linarith
    then show "1 \<le> k" by simp
  qed
  have f: "f64 ?lo" "f64 (of_int k)" using kb assms by (intro f64_quotient f64_of_int; simp)+
  have kq: "(0 :: rat) \<le> of_int (k - 1)" "(of_int k :: rat) \<le> 2 ^ 30" using kb assms by simp_all
  obtain r where r: "fl p = Fin r" "?lo \<le> r" "r \<le> of_int k"
    using fl_bounded [OF f cn] kq by (auto simp: abs_le_iff)
  have "\<lceil>r\<rceil> = k" using r(2,3) by (intro ceiling_unique) simp_all
  moreover have "dmul (fl (95/100)) (of_c_int n) = Fin r"
    unfolding fl_095 using assms r(1) by (simp add: c_def p_def)
  ultimately show ?thesis using kb by (simp add: p95_rank_def Let_def k_def)
qed

lemma p95_rank_bounds:
  assumes "1 \<le> n" "n \<le> 2 ^ 30"
  shows "19 * n \<le> 20 * p95_rank n \<and> 20 * (p95_rank n - 1) < 19 * n"
proof -
  let ?x = "19 * of_int n / 20 :: rat"
  have "of_int (p95_rank n) - 1 < ?x" "?x \<le> of_int (p95_rank n)"
    unfolding p95_rank_eq [OF assms] using ceiling_correct [of ?x] by simp_all
  then have "(of_int (20 * (p95_rank n - 1)) :: rat) < of_int (19 * n)"
    "(of_int (19 * n) :: rat) \<le> of_int (20 * p95_rank n)"
    by simp_all
  then show ?thesis by (simp only: of_int_less_iff of_int_le_iff)
qed

lemma p95_rank_range: "1 \<le> n \<Longrightarrow> 1 \<le> p95_rank n \<and> p95_rank n \<le> n"
  by (auto simp: p95_rank_def Let_def)

lemma sorted_wrt_count_le:
  assumes "sorted_wrt dle xs" "k < length xs" "\<forall>d\<in>set xs. \<not> isnan d"
  shows "k + 1 \<le> length (filter (\<lambda>d. dle d (xs ! k)) xs)"
    and "length (filter (\<lambda>d. dlt d (xs ! k)) xs) \<le> k"
proof -
  have self: "dle (xs ! k) (xs ! k)" using assms(3) nth_mem [OF assms(2)] by (blast intro: dle_refl)
  then have upto: "\<forall>d\<in>set (take (k + 1) xs). dle d (xs ! k)"
    using assms(1,2) by (auto simp: in_set_conv_nth less_Suc_eq sorted_wrt_iff_nth_less)
  have from_k: "\<forall>d\<in>set (drop k xs). \<not> dlt d (xs ! k)"
    using assms by (auto simp: in_set_conv_nth dle_def sorted_wrt_iff_nth_less)
      (metis Nat.add_0_right add_lessD1 dle_def dle_refl less_add_same_cancel1 less_diff_conv add.commute nth_mem bot_nat_0.not_eq_extremum)
  have "k + 1 = length (filter (\<lambda>d. dle d (xs ! k)) (take (k + 1) xs))"
    using upto assms(2) by (simp add: filter_id_conv [THEN iffD2])
  also have "\<dots> \<le> length (filter (\<lambda>d. dle d (xs ! k)) xs)"
    by (metis append_take_drop_id filter_append le_add1 length_append)
  finally show "k + 1 \<le> length (filter (\<lambda>d. dle d (xs ! k)) xs)" .
  have "filter (\<lambda>d. dlt d (xs ! k)) (drop k xs) = []" using from_k by (simp add: filter_empty_conv)
  then have "filter (\<lambda>d. dlt d (xs ! k)) xs = filter (\<lambda>d. dlt d (xs ! k)) (take k xs)"
    by (metis append_Nil2 append_take_drop_id filter_append)
  then show "length (filter (\<lambda>d. dlt d (xs ! k)) xs) \<le> k"
    by (metis length_filter_le length_take le_trans min.cobounded2)
qed

lemma length_filter_qsort: "length (filter P (qsort cmp xs)) = length (filter P xs)"
  by (metis mset_filter mset_qsort size_mset)

text \<open>
  The nearest-rank property: the p95 of a window without NaN is one of its values, at least 95
  percent of the values are not above it, and fewer than 95 percent are strictly below it.
\<close>

lemma ring_p95_nearest_rank:
  assumes "0 < rcount ring" "rcount ring \<le> 2 ^ 30" "rcount ring \<le> 300 \<or> malloc_ok"
    and nn: "\<forall>s\<in>set (window ring). \<not> isnan (field s)"
  defines "v \<equiv> ring_p95 malloc_ok ring field"
    and "n \<equiv> length (window ring)"
  shows "v \<in> field ` set (window ring)"
    and "19 * n \<le> 20 * length (filter (\<lambda>s. dle (field s) v) (window ring))"
    and "20 * length (filter (\<lambda>s. dlt (field s) v) (window ring)) < 19 * n"
proof -
  let ?xs = "map field (window ring)"
  define k where "k = nat (p95_rank (rcount ring) - 1)"
  have rk: "1 \<le> p95_rank (rcount ring)" "p95_rank (rcount ring) \<le> rcount ring"
    using p95_rank_range [of "rcount ring"] assms(1) by auto
  then have k: "k < length (qsort cmp_double ?xs)" by (simp add: k_def)
  have v: "v = qsort cmp_double ?xs ! k"
    using assms(1,3) by (auto simp: v_def ring_p95_def map_sample_field k_def)
  have nn': "\<forall>d\<in>set (qsort cmp_double ?xs). \<not> isnan d" using nn by simp
  show "v \<in> field ` set (window ring)" using nth_mem [OF k] v by simp
  have n: "int n = rcount ring" using assms(1) by (simp add: n_def)
  have "19 * int n \<le> 20 * (int k + 1)" "20 * int k < 19 * int n"
    using p95_rank_bounds [of "rcount ring"] rk(1) assms(1,2) n by (simp_all add: k_def)
  then have ki: "19 * n \<le> 20 * k + 20" "20 * k < 19 * n" by presburger+
  note cnt = sorted_wrt_count_le [OF qsort_ascending k nn', folded v]
  have "k < length (filter (\<lambda>s. dle (field s) v) (window ring))"
    "length (filter (\<lambda>s. dlt (field s) v) (window ring)) \<le> k"
    using cnt nn by (simp_all add: length_filter_qsort filter_map comp_def)
  then show "19 * n \<le> 20 * length (filter (\<lambda>s. dle (field s) v) (window ring))"
    and "20 * length (filter (\<lambda>s. dlt (field s) v) (window ring)) < 19 * n"
    using ki by linarith+
qed

section \<open>The rule table\<close>

text \<open>
  The scoring policy as a table: a condition, the penalty it subtracts and the reason bit it
  reports. Applying a table subtracts the penalties of the rules that hold, in order.
\<close>

type_synonym rule = "bool \<times> double \<times> u32"

fun apply_rules :: "rule list \<Rightarrow> double \<times> u32 \<Rightarrow> double \<times> u32" where
  "apply_rules [] v = v"
| "apply_rules ((c, p, r) # rs) (s, m) = apply_rules rs (if c then (dsub s p, m OR r) else (s, m))"

definition rules_temp :: "bool \<Rightarrow> gpu_ring_t \<Rightarrow> gpu_config_t \<Rightarrow> rule list" where
  "rules_temp mo ring cfg =
     (let t = ring_p95 mo ring temp_c in
      [(dlt (temp_p95_bad_c cfg) t, Fin 25, GPU_REASON_TEMP_BAD),
       (\<not> dlt (temp_p95_bad_c cfg) t \<and> dlt (temp_p95_warn_c cfg) t, Fin 10, GPU_REASON_TEMP_WARN)])"

definition rules_hbm :: "bool \<Rightarrow> gpu_ring_t \<Rightarrow> gpu_config_t \<Rightarrow> rule list" where
  "rules_hbm mo ring cfg =
     (let t = ring_p95 mo ring hbm_temp_c in
      [(dlt (hbm_temp_p95_bad_c cfg) t, Fin 25, GPU_REASON_HBM_TEMP_BAD),
       (\<not> dlt (hbm_temp_p95_bad_c cfg) t \<and> dlt (hbm_temp_p95_warn_c cfg) t, Fin 10, GPU_REASON_HBM_TEMP_WARN)])"

definition rules_clock :: "gpu_ring_t \<Rightarrow> gpu_config_t \<Rightarrow> rule list" where
  "rules_clock ring cfg =
     (let sd = ring_stddev ring sm_clock_mhz in
      [(dlt (clk_std_warn_mhz cfg) sd, clk_penalty sd cfg, GPU_REASON_CLK_STD_HIGH)])"

definition rules_power :: "gpu_ring_t \<Rightarrow> gpu_config_t \<Rightarrow> rule list" where
  "rules_power ring cfg =
     (let f = power_sat_frac ring cfg in
      [(dlt (Fin 0) f, power_penalty f cfg, GPU_REASON_POWER_SATURATION)])"

definition rules_ecc :: "gpu_ring_t \<Rightarrow> gpu_config_t \<Rightarrow> rule list" where
  "rules_ecc ring cfg =
     [(dlt (ecc_sbe_rate_warn_per_hour cfg) (sbe_rate ring), ecc_sbe_penalty cfg, GPU_REASON_ECC_SBE_HIGH),
      (dbe_active ring, ecc_dbe_penalty cfg, GPU_REASON_ECC_DBE_ACTIVE)]"

definition rules_retired :: "gpu_state_t \<Rightarrow> gpu_config_t \<Rightarrow> rule list" where
  "rules_retired st cfg =
     (let bad = word_of_int (retired_pages_bad cfg) \<le> st_retired_pages_dbe st;
          warn = word_of_int (retired_pages_warn cfg) \<le> st_retired_pages_dbe st
      in
      [(bad, retired_pages_pen_bad cfg, GPU_REASON_RETIRED_PAGES_BAD),
       (\<not> bad \<and> warn, retired_pages_pen_warn cfg, GPU_REASON_RETIRED_PAGES_WARN)])"

definition rules_remap :: "gpu_state_t \<Rightarrow> gpu_config_t \<Rightarrow> rule list" where
  "rules_remap st cfg = [(0 < st_row_remap_failures st, row_remap_failure_penalty cfg, GPU_REASON_ROW_REMAP)]"

definition rules_pcie :: "gpu_state_t \<Rightarrow> gpu_config_t \<Rightarrow> rule list" where
  "rules_pcie st cfg =
     [(0 < st_pcie_link_gen st \<and> st_pcie_link_gen st < st_pcie_link_gen_max st,
         pcie_link_degraded_penalty cfg, GPU_REASON_PCIE_GEN),
      (0 < st_pcie_link_width st \<and> st_pcie_link_width st < st_pcie_link_width_max st,
         pcie_width_degraded_penalty cfg, GPU_REASON_PCIE_WIDTH)]"

definition perf_above :: "gpu_baseline_t option \<Rightarrow> gpu_probe_result_t option \<Rightarrow> double \<Rightarrow> bool" where
  "perf_above b p limit = (case perf_drop b p of None \<Rightarrow> False | Some drp \<Rightarrow> dlt limit drp)"

definition rules_perf :: "gpu_baseline_t option \<Rightarrow> gpu_probe_result_t option \<Rightarrow> gpu_config_t \<Rightarrow> rule list" where
  "rules_perf b p cfg =
     (let severe = perf_above b p (perf_drop_severe cfg);
          bad = perf_above b p (perf_drop_bad cfg);
          warn = perf_above b p (perf_drop_warn cfg)
      in
      [(severe, perf_drop_pen_severe cfg, GPU_REASON_PERF_DROP_SEVERE),
       (\<not> severe \<and> bad, perf_drop_pen_bad cfg, GPU_REASON_PERF_DROP_BAD),
       (\<not> severe \<and> \<not> bad \<and> warn, perf_drop_pen_warn cfg, GPU_REASON_PERF_DROP_WARN)])"

definition score_rules ::
    "bool \<times> bool \<Rightarrow> gpu_ring_t \<Rightarrow> gpu_state_t \<Rightarrow> gpu_baseline_t option \<Rightarrow> gpu_probe_result_t option
     \<Rightarrow> gpu_config_t \<Rightarrow> rule list" where
  "score_rules mo ring st b p cfg =
     rules_temp (fst mo) ring cfg @ rules_hbm (snd mo) ring cfg @ rules_clock ring cfg @ rules_power ring cfg @
     rules_ecc ring cfg @ rules_retired st cfg @ rules_remap st cfg @ rules_pcie st cfg @ rules_perf b p cfg"

lemma apply_rules_append: "apply_rules (xs @ ys) v = apply_rules ys (apply_rules xs v)"
  by (induction xs v rule: apply_rules.induct) auto

definition probe_is_stale :: "gpu_probe_result_t option \<Rightarrow> bool" where
  "probe_is_stale p = (case p of None \<Rightarrow> False | Some r \<Rightarrow> pr_stale r)"

subsection \<open>Each stage applies its part of the table\<close>

text \<open>\<open>stage f rs g\<close>: the stage \<open>f\<close> applies the rules \<open>rs\<close> and updates the output by \<open>g\<close>.\<close>

definition stage :: "(score_vars \<Rightarrow> score_vars) \<Rightarrow> rule list \<Rightarrow> (gpu_score_result_t \<Rightarrow> gpu_score_result_t) \<Rightarrow> bool" where
  "stage f rs g \<longleftrightarrow> (\<forall>s m out. f (s, m, out) =
     (fst (apply_rules rs (s, m)), snd (apply_rules rs (s, m)), g out))"

lemma stage_comp: "stage f rs g \<Longrightarrow> stage f' rs' g' \<Longrightarrow> stage (\<lambda>v. f' (f v)) (rs @ rs') (\<lambda>out. g' (g out))"
  by (simp add: stage_def apply_rules_append)

lemma stage_apply: "stage f rs g \<Longrightarrow> f (s, m, out) = (fst (apply_rules rs (s, m)), snd (apply_rules rs (s, m)), g out)"
  by (simp add: stage_def)

lemma stage_temp: "stage (score_temp mo ring cfg) (rules_temp mo ring cfg)
    (\<lambda>out. out\<lparr>sc_temp_p95_c := ring_p95 mo ring temp_c\<rparr>)"
  by (auto simp: stage_def score_temp_def rules_temp_def Let_def isnan_iff)

lemma stage_hbm: "stage (score_hbm mo ring cfg) (rules_hbm mo ring cfg)
    (\<lambda>out. out\<lparr>sc_hbm_temp_p95_c := ring_p95 mo ring hbm_temp_c\<rparr>)"
  by (auto simp: stage_def score_hbm_def rules_hbm_def Let_def isnan_iff)

lemma stage_clock: "stage (score_clock ring cfg) (rules_clock ring cfg)
    (\<lambda>out. out\<lparr>sc_clk_std_mhz := ring_stddev ring sm_clock_mhz\<rparr>)"
  by (auto simp: stage_def score_clock_def rules_clock_def Let_def isnan_iff)

lemma stage_power: "stage (score_power ring cfg) (rules_power ring cfg)
    (\<lambda>out. out\<lparr>sc_power_saturation_frac := power_sat_frac ring cfg\<rparr>)"
  by (auto simp: stage_def score_power_def rules_power_def Let_def)

lemma stage_ecc: "stage (score_ecc ring cfg) (rules_ecc ring cfg)
    (\<lambda>out. out\<lparr>sc_ecc_sbe_rate_per_hour := sbe_rate ring, sc_ecc_dbe_in_window := dbe_active ring\<rparr>)"
  by (auto simp: stage_def score_ecc_def rules_ecc_def Let_def)

lemma stage_retired: "stage (score_retired st cfg) (rules_retired st cfg) (\<lambda>out. out)"
  by (auto simp: stage_def score_retired_def rules_retired_def Let_def)

lemma stage_remap: "stage (score_remap st cfg) (rules_remap st cfg) (\<lambda>out. out)"
  by (auto simp: stage_def score_remap_def rules_remap_def)

lemma degraded_iff: "0 < a \<and> 0 < b \<and> a < b \<longleftrightarrow> 0 < a \<and> a < (b :: int)"
  by auto

lemma stage_pcie: "stage (score_pcie st cfg) (rules_pcie st cfg) (\<lambda>out. out)"
  by (auto simp: stage_def score_pcie_def rules_pcie_def degraded_iff)

definition with_drop :: "double option \<Rightarrow> gpu_score_result_t \<Rightarrow> gpu_score_result_t" where
  "with_drop d out = (case d of None \<Rightarrow> out | Some drp \<Rightarrow> out\<lparr>sc_perf_drop_frac := drp\<rparr>)"

lemma score_perf_rules: "score_perf b p cfg (s, m, out) =
    (let (s', m') = apply_rules (rules_perf b p cfg) (s, m)
     in (s', if probe_is_stale p then m' OR GPU_REASON_PROBE_STALE else m', with_drop (perf_drop b p) out))"
  by (cases "perf_drop b p"; cases p)
    (auto simp: score_perf_def rules_perf_def perf_above_def probe_is_stale_def with_drop_def Let_def)

text \<open>The statistics that \<open>score_gpu\<close> reports once the gate has passed.\<close>

definition stats_out :: "bool \<times> bool \<Rightarrow> gpu_ring_t \<Rightarrow> gpu_config_t \<Rightarrow> gpu_score_result_t \<Rightarrow> gpu_score_result_t" where
  "stats_out mo ring cfg out =
     out\<lparr>sc_temp_p95_c := ring_p95 (fst mo) ring temp_c, sc_hbm_temp_p95_c := ring_p95 (snd mo) ring hbm_temp_c,
         sc_clk_std_mhz := ring_stddev ring sm_clock_mhz,
         sc_power_saturation_frac := power_sat_frac ring cfg,
         sc_ecc_sbe_rate_per_hour := sbe_rate ring, sc_ecc_dbe_in_window := dbe_active ring\<rparr>"

definition clamp_score :: "double \<Rightarrow> double" where
  "clamp_score s = (if dlt s (Fin 0) then Fin 0 else s)"

lemma stages_before_perf:
  "stage (\<lambda>v. score_pcie st cfg (score_remap st cfg (score_retired st cfg (score_ecc ring cfg
     (score_power ring cfg (score_clock ring cfg (score_hbm (snd mo) ring cfg (score_temp (fst mo) ring cfg v))))))))
   (rules_temp (fst mo) ring cfg @ rules_hbm (snd mo) ring cfg @ rules_clock ring cfg @ rules_power ring cfg @
     rules_ecc ring cfg @ rules_retired st cfg @ rules_remap st cfg @ rules_pcie st cfg)
   (stats_out mo ring cfg)"
proof -
  note * = stage_comp [OF stage_comp [OF stage_comp [OF stage_comp [OF stage_comp [OF stage_comp [OF
    stage_comp [OF stage_temp stage_hbm] stage_clock] stage_power] stage_ecc] stage_retired] stage_remap] stage_pcie]
  show ?thesis using * [unfolded append_assoc] unfolding stats_out_def [abs_def] by blast
qed

text \<open>Refinement: when the gate passes, \<open>score_gpu\<close> is the rule table applied to 100.\<close>

lemma score_gpu_rules:
  assumes "completeness_gate ring cfg"
    and v_def: "v = apply_rules (score_rules mo ring st b p cfg) (Fin 100, 0)"
  shows "score_gpu mo ring st b p cfg =
     (with_drop (perf_drop b p) (stats_out mo ring cfg (zero_score\<lparr>sc_perf_drop_frac := NaN, sc_telemetry_ok := True\<rparr>)))
       \<lparr>sc_score := clamp_score (fst v),
        sc_reason_mask := (if probe_is_stale p then snd v OR GPU_REASON_PROBE_STALE else snd v),
        sc_classification := classify (clamp_score (fst v))\<rparr>"
proof -
  let ?out = "zero_score\<lparr>sc_perf_drop_frac := NaN, sc_telemetry_ok := True\<rparr>"
  let ?rs = "rules_temp (fst mo) ring cfg @ rules_hbm (snd mo) ring cfg @ rules_clock ring cfg @ rules_power ring cfg @
     rules_ecc ring cfg @ rules_retired st cfg @ rules_remap st cfg @ rules_pcie st cfg"
  have v: "v = apply_rules (rules_perf b p cfg) (apply_rules ?rs (Fin 100, 0))"
    unfolding v_def score_rules_def by (simp only: apply_rules_append append_assoc [symmetric])
  have "score_gpu mo ring st b p cfg = score_finish (score_perf b p cfg
      (score_pcie st cfg (score_remap st cfg (score_retired st cfg (score_ecc ring cfg
     (score_power ring cfg (score_clock ring cfg (score_hbm (snd mo) ring cfg (score_temp (fst mo) ring cfg (Fin 100, 0, ?out))))))))))"
    using assms(1) by (simp add: score_gpu_def Let_def)
  also have "\<dots> = score_finish (score_perf b p cfg
      (fst (apply_rules ?rs (Fin 100, 0)), snd (apply_rules ?rs (Fin 100, 0)), stats_out mo ring cfg ?out))"
    by (simp only: stage_apply [OF stages_before_perf])
  also have "\<dots> = score_finish (fst v, if probe_is_stale p then snd v OR GPU_REASON_PROBE_STALE else snd v,
      with_drop (perf_drop b p) (stats_out mo ring cfg ?out))"
    unfolding score_perf_rules v by (simp add: split_beta)
  finally show ?thesis by (simp add: score_finish_def clamp_score_def Let_def)
qed

section \<open>The range of the score\<close>

text \<open>
  A rule is sane when its penalty, where it applies, is a finite number in \<open>[0, 100]\<close>. Every
  subtraction is rounded, but rounding is monotone, so the score never rises above where it was.
\<close>

definition sane_rule :: "rule \<Rightarrow> bool" where
  "sane_rule x = (case x of (c, p, r) \<Rightarrow> c \<longrightarrow> (\<exists>q. p = Fin q \<and> 0 \<le> q \<and> q \<le> 100))"

lemma dsub_step:
  assumes "f64 q" "q \<le> 100" "of_int k \<le> q" "0 \<le> p" "p \<le> 100" "\<bar>k\<bar> \<le> 2 ^ 40"
  shows "\<exists>q'. dsub (Fin q) (Fin p) = Fin q' \<and> f64 q' \<and> of_int (k - 100) \<le> q' \<and> q' \<le> q"
proof -
  have kb: "(\<bar>of_int k\<bar> :: rat) \<le> 2 ^ 40" using assms(6) by (metis of_int_abs of_int_le_numeral_power_cancel_iff)
  have "f64 (of_int (k - 100))" using assms(6) by (intro f64_of_int) simp
  moreover have "of_int (k - 100) \<le> q - p" "q - p \<le> q" using assms by simp_all
  moreover have "\<bar>of_int (k - 100)\<bar> \<le> (2 ^ 1023 :: rat)" using kb by (simp add: abs_le_iff)
  moreover have "\<bar>q\<bar> \<le> 2 ^ 1023" using kb assms(2,3) by (simp add: abs_le_iff)
  ultimately show ?thesis using fl_bounded [of "of_int (k - 100)" q "q - p"] assms(1) by (auto simp: dsub_Fin)
qed

lemma apply_rules_range:
  assumes "list_all sane_rule rs" "f64 q" "q \<le> 100" "of_int k \<le> q"
    and "\<bar>k\<bar> + 100 * int (length rs) \<le> 2 ^ 40"
  shows "\<exists>q'. fst (apply_rules rs (Fin q, m)) = Fin q' \<and> f64 q' \<and> q' \<le> q"
  using assms
proof (induction rs arbitrary: q k m)
  case (Cons x rs)
  obtain c p r where x: "x = (c, p, r)" by (cases x)
  show ?case
  proof (cases c)
    case True
    then obtain pq where p: "p = Fin pq" "0 \<le> pq" "pq \<le> 100" using Cons.prems(1) x by (auto simp: sane_rule_def)
    obtain q' where q': "dsub (Fin q) p = Fin q'" "f64 q'" "of_int (k - 100) \<le> q'" "q' \<le> q"
      using dsub_step [OF Cons.prems(2-4) p(2,3)] Cons.prems(5) p(1) by auto
    then show ?thesis
      using Cons.IH [of q' "k - 100" "m OR r"] Cons.prems x True by fastforce
  next
    case False
    then show ?thesis using Cons.IH [of q k m] Cons.prems x by simp
  qed
qed simp

lemma clamp_score_range: "q \<le> 100 \<Longrightarrow> \<exists>r. clamp_score (Fin q) = Fin r \<and> 0 \<le> r \<and> r \<le> 100 \<and> r = max 0 q"
  by (auto simp: clamp_score_def max_def)

subsection \<open>Penalties of a configuration in range\<close>

text \<open>What the configuration table guarantees of the fields the scorer uses (no field is NaN).\<close>

definition in_range :: "rat \<Rightarrow> rat \<Rightarrow> double \<Rightarrow> bool" where
  "in_range lo hi d = (case d of Fin q \<Rightarrow> lo \<le> q \<and> q \<le> hi | _ \<Rightarrow> False)"

definition scoring_cfg_ok :: "gpu_config_t \<Rightarrow> bool" where
  "scoring_cfg_ok cfg \<longleftrightarrow>
     in_range 1 1000 (clk_std_warn_mhz cfg) \<and>
     in_range 0 100 (power_penalty_max cfg) \<and>
     in_range 0 100 (ecc_sbe_penalty cfg) \<and> in_range 0 100 (ecc_dbe_penalty cfg) \<and>
     in_range 0 100 (retired_pages_pen_warn cfg) \<and> in_range 0 100 (retired_pages_pen_bad cfg) \<and>
     in_range 0 100 (row_remap_failure_penalty cfg) \<and>
     in_range 0 100 (pcie_link_degraded_penalty cfg) \<and> in_range 0 100 (pcie_width_degraded_penalty cfg) \<and>
     in_range 0 100 (perf_drop_pen_warn cfg) \<and> in_range 0 100 (perf_drop_pen_bad cfg) \<and>
     in_range 0 100 (perf_drop_pen_severe cfg)"

lemma in_rangeD: "in_range lo hi d \<Longrightarrow> \<exists>q. d = Fin q \<and> lo \<le> q \<and> q \<le> hi"
  by (cases d) (auto simp: in_range_def)

lemma fl_nonneg: "0 \<le> q \<Longrightarrow> dle (Fin 0) (fl q)"
  using rnd_nonneg [of q] by (auto simp: fl_def Let_def dle_def)

lemma dmul_nonneg: "0 < a \<Longrightarrow> dle (Fin 0) d \<Longrightarrow> dle (Fin 0) (dmul (Fin a) d)"
  by (cases d) (auto intro: fl_nonneg)

lemma ddiv_nonneg: "0 < a \<Longrightarrow> dle (Fin 0) d \<Longrightarrow> dle (Fin 0) (ddiv d (Fin a))"
  by (cases d) (auto intro: fl_nonneg)

lemma dsub_nonneg: "dlt (Fin a) d \<Longrightarrow> dle (Fin 0) (dsub d (Fin a))"
  by (cases d) (auto intro!: fl_nonneg simp: dsub_def)

lemma nonneg_capped: "dle (Fin 0) d \<Longrightarrow> 0 \<le> a \<Longrightarrow> \<exists>q. (if dlt (Fin a) d then Fin a else d) = Fin q \<and> 0 \<le> q \<and> q \<le> a"
  by (cases d) (auto simp: dle_def)

lemma clk_penalty_range:
  assumes "in_range 1 1000 (clk_std_warn_mhz cfg)" "dlt (clk_std_warn_mhz cfg) sd"
  shows "\<exists>q. clk_penalty sd cfg = Fin q \<and> 0 \<le> q \<and> q \<le> 15"
proof -
  obtain w where w: "clk_std_warn_mhz cfg = Fin w" "1 \<le> w" using in_rangeD [OF assms(1)] by auto
  have "dle (Fin 0) (ddiv (dmul (Fin 15) (dsub sd (Fin w))) (Fin w))"
    using assms(2) w by (intro ddiv_nonneg dmul_nonneg dsub_nonneg) auto
  from nonneg_capped [OF this, of 15] show ?thesis unfolding clk_penalty_def w(1) Let_def by simp
qed

text \<open>The saturation fraction is a correctly rounded quotient of counts, so it stays in \<open>[0, 1]\<close>.\<close>

definition saturated :: "gpu_config_t \<Rightarrow> gpu_sample_t \<Rightarrow> bool" where
  "saturated cfg s \<longleftrightarrow> dlt (Fin 0) (power_limit_w s) \<and> dle (dmul (power_high_ratio cfg) (power_limit_w s)) (power_w s)"

lemma foldl_count: "foldl (\<lambda>n x. if P x then n + 1 else n) (k :: int) xs = k + int (length (filter P xs))"
  by (induction xs arbitrary: k) auto

lemma power_sat_frac_eq:
  "power_sat_frac ring cfg = ddiv (of_c_int (int (length (filter (saturated cfg) (window ring))))) (of_c_int (rcount ring))"
  using foldl_count [of "saturated cfg" 0 "window ring"]
  by (simp add: power_sat_frac_def sample_field_def c_range_def window_def foldl_map saturated_def Let_def)

lemma power_sat_frac_range:
  assumes "0 < rcount ring" "rcount ring \<le> 2 ^ 30"
  shows "\<exists>q. power_sat_frac ring cfg = Fin q \<and> 0 \<le> q \<and> q \<le> 1"
proof -
  let ?c = "int (length (filter (saturated cfg) (window ring)))"
  have c: "?c \<le> rcount ring" using length_filter_le [of "saturated cfg" "window ring"] assms(1) by simp
  then have b: "(0 :: rat) \<le> of_int ?c / of_int (rcount ring)" "of_int ?c / of_int (rcount ring) \<le> (1 :: rat)"
    using assms(1) by simp_all
  have "power_sat_frac ring cfg = fl (of_int ?c / of_int (rcount ring))"
    using c assms by (simp add: power_sat_frac_eq)
  with fl_bounded [OF f64_zero f64_one b] show ?thesis by auto
qed

lemma power_penalty_range:
  assumes "in_range 0 100 (power_penalty_max cfg)" "0 \<le> x"
  shows "\<exists>q. power_penalty (Fin x) cfg = Fin q \<and> 0 \<le> q \<and> q \<le> 100"
proof -
  obtain w where w: "power_penalty_max cfg = Fin w" "0 \<le> w" "w \<le> 100" using in_rangeD [OF assms(1)] by auto
  have "dle (Fin 0) (dmul (Fin w) (Fin x))" using assms(2) w by (simp add: fl_nonneg)
  from nonneg_capped [OF this w(2)] w show ?thesis unfolding power_penalty_def w(1) Let_def by fastforce
qed

lemma sane_score_rules:
  assumes "scoring_cfg_ok cfg" "0 < rcount ring" "rcount ring \<le> 2 ^ 30"
  shows "list_all sane_rule (score_rules mo ring st b p cfg)"
proof -
  obtain f where f: "power_sat_frac ring cfg = Fin f" "0 \<le> f" using power_sat_frac_range [OF assms(2,3)] by blast
  have sane: "sane_rule (c, d, r)" if "in_range 0 100 d" for c d r
    using in_rangeD [OF that] by (auto simp: sane_rule_def)
  have "sane_rule (dlt (clk_std_warn_mhz cfg) sd, clk_penalty sd cfg, r)" for sd r
    using clk_penalty_range [of cfg sd] assms(1) by (auto simp: sane_rule_def scoring_cfg_ok_def)
  moreover have "sane_rule (c, power_penalty (Fin f) cfg, r)" for c r
    using power_penalty_range [OF _ f(2)] assms(1) by (auto simp: sane_rule_def scoring_cfg_ok_def)
  moreover have "sane_rule (c, Fin 25, r)" "sane_rule (c, Fin 10, r)" for c r
    by (simp_all add: sane_rule_def)
  ultimately show ?thesis using assms(1) f(1)
    by (simp add: score_rules_def rules_temp_def rules_hbm_def rules_clock_def rules_power_def rules_ecc_def
        rules_retired_def rules_remap_def rules_pcie_def rules_perf_def Let_def sane scoring_cfg_ok_def)
qed

lemma length_score_rules: "length (score_rules mo ring st b p cfg) = 16"
  by (simp add: score_rules_def rules_temp_def rules_hbm_def rules_clock_def rules_power_def rules_ecc_def
      rules_retired_def rules_remap_def rules_pcie_def rules_perf_def Let_def)

lemma raw_score_range:
  assumes "scoring_cfg_ok cfg" "0 < rcount ring" "rcount ring \<le> 2 ^ 30"
  shows "\<exists>q. fst (apply_rules (score_rules mo ring st b p cfg) (Fin 100, 0)) = Fin q \<and> q \<le> 100"
  using apply_rules_range [OF sane_score_rules [OF assms, of mo st b p], of 100 100 0] f64_of_int [of 100]
  by (fastforce simp: length_score_rules)

section \<open>The reason mask\<close>

lemma bit_apply_rules:
  "n < 32 \<Longrightarrow> bit (snd (apply_rules rs (s, m))) n \<longleftrightarrow> bit m n \<or> (\<exists>(c, p, r)\<in>set rs. c \<and> bit r n)"
  by (induction rs "(s, m)" arbitrary: s m rule: apply_rules.induct) (auto simp: bit_or_iff)

lemma apply_rules_none: "\<forall>(c, p, r)\<in>set rs. \<not> c \<Longrightarrow> apply_rules rs v = v"
  by (induction rs v rule: apply_rules.induct) auto

lemmas rule_table_defs = score_rules_def rules_temp_def rules_hbm_def rules_clock_def rules_power_def
  rules_ecc_def rules_retired_def rules_remap_def rules_pcie_def rules_perf_def

lemma reasons_of_table:
  "map (\<lambda>(c, q, r). r) (score_rules mo ring st b p cfg) =
     map reason_bit [1, 0, 3, 2, 4, 5, 6, 7, 12, 11, 13, 14, 15, 10, 9, 8]"
  by (simp add: rule_table_defs Let_def reason_mask_defs)

lemma active_reason_bit:
  assumes "(True, q, r) \<in> set (score_rules mo ring st b p cfg)"
  shows "\<exists>n<16. r = reason_bit n"
proof -
  have "r \<in> set (map (\<lambda>(c, q, r). r) (score_rules mo ring st b p cfg))" using assms by force
  then obtain n where "n \<in> set [1, 0, 3, 2, 4, 5, 6, 7, 12, 11, 13, 14, 15, 10, 9, 8 :: nat]" "r = reason_bit n"
    unfolding reasons_of_table set_map by blast
  moreover from this(1) have "n < 16" by auto
  ultimately show ?thesis by blast
qed

lemma score_gpu_mask:
  assumes "completeness_gate ring cfg" "n < 32"
  shows "bit (sc_reason_mask (score_gpu mo ring st b p cfg)) n \<longleftrightarrow>
    (\<exists>(c, q, r)\<in>set (score_rules mo ring st b p cfg). c \<and> bit r n) \<or> (n = 17 \<and> probe_is_stale p)"
  using assms by (simp add: score_gpu_rules [OF assms(1) refl] bit_apply_rules GPU_REASON_PROBE_STALE_def reason_simps)

end
