(* ===== verification/Nvml.thy ===== *)
theory Nvml
  imports Types
begin

text \<open>
  The interface to the driver library: \<^verbatim>\<open>src/nvml.h\<close> and \<^verbatim>\<open>src/nvml.c\<close>, and \<open>do_nvml_poll\<close> of
  \<^verbatim>\<open>src/collector.c\<close>. The library itself is not part of the program: its functions are the fields of
  the record \<open>nvml_vtable_t\<close>, an argument of the poll. A call returns its code and the value of
  its output parameter; an optional function may be missing. One such record stands for the answers
  of one poll cycle, so nothing is assumed about how the driver behaves from one cycle to the next.
\<close>

section \<open>Resolving symbols\<close>

text \<open>
  Both libraries are loaded in the same way, with \<open>dlopen\<close> and \<open>dlsym\<close> as arguments. The outcome
  records the handle that was stored, the function pointers and the handles that were closed.
\<close>

record ('h, 'f) load_result =
  ld_ret :: int
  ld_handle :: "'h option"
  ld_table :: "string \<Rightarrow> 'f option"
  ld_closed :: "'h list"

definition dl_sym :: "('h \<Rightarrow> string \<Rightarrow> 'f option) \<Rightarrow> 'h \<Rightarrow> string \<Rightarrow> string option \<Rightarrow> 'f option" where
  "dl_sym dlsym dl primary fallback =
     (case dlsym dl primary of
        Some p \<Rightarrow> Some p
      | None \<Rightarrow> (case fallback of None \<Rightarrow> None | Some f \<Rightarrow> dlsym dl f))"

type_synonym dl_symbol = "string \<times> string \<times> string option"

fun load_req :: "('h \<Rightarrow> string \<Rightarrow> 'f option) \<Rightarrow> 'h \<Rightarrow> dl_symbol list \<Rightarrow> (string \<Rightarrow> 'f option) \<Rightarrow> bool \<times> (string \<Rightarrow> 'f option)" where
  "load_req dlsym dl [] vt = (True, vt)"
| "load_req dlsym dl ((member, primary, fallback) # syms) vt =
     (let p = dl_sym dlsym dl primary fallback; vt = vt(member := p)
      in if p = None then (False, vt) else load_req dlsym dl syms vt)"

fun load_opt :: "('h \<Rightarrow> string \<Rightarrow> 'f option) \<Rightarrow> 'h \<Rightarrow> dl_symbol list \<Rightarrow> (string \<Rightarrow> 'f option) \<Rightarrow> (string \<Rightarrow> 'f option)" where
  "load_opt dlsym dl [] vt = vt"
| "load_opt dlsym dl ((member, primary, fallback) # syms) vt =
     load_opt dlsym dl syms (vt(member := dl_sym dlsym dl primary fallback))"

definition dl_load ::
    "string list \<Rightarrow> dl_symbol list \<Rightarrow> dl_symbol list \<Rightarrow> (string \<Rightarrow> 'h option) \<Rightarrow> ('h \<Rightarrow> string \<Rightarrow> 'f option)
     \<Rightarrow> ('h, 'f) load_result" where
  "dl_load names req opt dlopen dlsym =
     (case List.map_filter dlopen names of
        [] \<Rightarrow> \<lparr>ld_ret = - 1, ld_handle = None, ld_table = (\<lambda>_. None), ld_closed = []\<rparr>
      | dl # _ \<Rightarrow>
          (case load_req dlsym dl req (\<lambda>_. None) of
             (False, vt) \<Rightarrow> \<lparr>ld_ret = - 1, ld_handle = None, ld_table = vt, ld_closed = [dl]\<rparr>
           | (True, vt) \<Rightarrow> \<lparr>ld_ret = 0, ld_handle = Some dl, ld_table = load_opt dlsym dl opt vt, ld_closed = []\<rparr>))"

definition nvml_required :: "dl_symbol list" where
  "nvml_required =
     [(''Init'', ''nvmlInit_v2'', Some ''nvmlInit''),
      (''Shutdown'', ''nvmlShutdown'', None),
      (''ErrorString'', ''nvmlErrorString'', None),
      (''DeviceGetCount'', ''nvmlDeviceGetCount'', None),
      (''DeviceGetHandleByIndex'', ''nvmlDeviceGetHandleByIndex_v2'', Some ''nvmlDeviceGetHandleByIndex''),
      (''DeviceGetSerial'', ''nvmlDeviceGetSerial'', None),
      (''DeviceGetUUID'', ''nvmlDeviceGetUUID'', None),
      (''DeviceGetName'', ''nvmlDeviceGetName'', None),
      (''SystemGetDriverVersion'', ''nvmlSystemGetDriverVersion'', None),
      (''DeviceGetMaxPcieLinkGeneration'', ''nvmlDeviceGetMaxPcieLinkGeneration'', None),
      (''DeviceGetMaxPcieLinkWidth'', ''nvmlDeviceGetMaxPcieLinkWidth'', None),
      (''DeviceGetTemperature'', ''nvmlDeviceGetTemperature'', None),
      (''DeviceGetPowerUsage'', ''nvmlDeviceGetPowerUsage'', None),
      (''DeviceGetEnforcedPowerLimit'', ''nvmlDeviceGetEnforcedPowerLimit'', None),
      (''DeviceGetTotalEccErrors'', ''nvmlDeviceGetTotalEccErrors'', None),
      (''DeviceGetMemoryInfo'', ''nvmlDeviceGetMemoryInfo'', Some ''nvmlDeviceGetMemoryInfo_v2''),
      (''DeviceGetClockInfo'', ''nvmlDeviceGetClockInfo'', None),
      (''DeviceGetUtilizationRates'', ''nvmlDeviceGetUtilizationRates'', None),
      (''DeviceGetCurrentClocksThrottleReasons'', ''nvmlDeviceGetCurrentClocksThrottleReasons'', None),
      (''DeviceGetPerformanceState'', ''nvmlDeviceGetPerformanceState'', None),
      (''DeviceGetCurrPcieLinkGeneration'', ''nvmlDeviceGetCurrPcieLinkGeneration'', None),
      (''DeviceGetCurrPcieLinkWidth'', ''nvmlDeviceGetCurrPcieLinkWidth'', None)]"

definition nvml_optional :: "dl_symbol list" where
  "nvml_optional =
     [(''DeviceGetFieldValues'', ''nvmlDeviceGetFieldValues'', None),
      (''DeviceGetRetiredPages'', ''nvmlDeviceGetRetiredPages'', None),
      (''DeviceGetRemappedRows'', ''nvmlDeviceGetRemappedRows'', None),
      (''DeviceGetFanSpeed'', ''nvmlDeviceGetFanSpeed'', None),
      (''DeviceGetPcieReplayCounter'', ''nvmlDeviceGetPcieReplayCounter'', None),
      (''DeviceGetViolationStatus'', ''nvmlDeviceGetViolationStatus'', None)]"

definition nvml_load :: "(string \<Rightarrow> 'h option) \<Rightarrow> ('h \<Rightarrow> string \<Rightarrow> 'f option) \<Rightarrow> ('h, 'f) load_result" where
  "nvml_load dlopen dlsym =
     dl_load [''libnvidia-ml.so.1'', ''libnvidia-ml.so''] nvml_required nvml_optional dlopen dlsym"

text \<open>The handles that \<open>dlclose\<close> receives.\<close>

definition nvml_unload :: "'h option \<Rightarrow> 'h list" where
  "nvml_unload dl_handle = (case dl_handle of None \<Rightarrow> [] | Some dl \<Rightarrow> [dl])"

section \<open>The function table\<close>

record nvml_memory_t =
  total :: u64
  free :: u64
  used :: u64

record nvml_utilization_t =
  util_gpu :: u32
  util_memory :: u32

datatype nvml_value_type_t =
    NVML_VALUE_TYPE_DOUBLE
  | NVML_VALUE_TYPE_UNSIGNED_INT
  | NVML_VALUE_TYPE_UNSIGNED_LONG
  | NVML_VALUE_TYPE_UNSIGNED_LONG_LONG
  | NVML_VALUE_TYPE_SIGNED_LONG_LONG
  | NVML_VALUE_TYPE_SIGNED_INT
  | NVML_VALUE_TYPE_UNSIGNED_SHORT

text \<open>Of the value union the program reads \<open>uiVal\<close>.\<close>

record nvml_field_value_t =
  fv_valueType :: nvml_value_type_t
  fv_nvmlReturn :: int
  fv_uiVal :: u32

datatype nvml_temperature_sensor = NVML_TEMPERATURE_GPU
datatype nvml_clock = NVML_CLOCK_SM | NVML_CLOCK_MEM
datatype nvml_ecc_error = NVML_MEMORY_ERROR_TYPE_CORRECTED | NVML_MEMORY_ERROR_TYPE_UNCORRECTED
datatype nvml_ecc_counter = NVML_VOLATILE_ECC | NVML_AGGREGATE_ECC
datatype nvml_page_cause =
    NVML_PAGE_RETIREMENT_CAUSE_MULTIPLE_SINGLE_BIT_ECC_ERRORS
  | NVML_PAGE_RETIREMENT_CAUSE_DOUBLE_BIT_ECC_ERRORS

text \<open>The functions of the table that a poll calls.\<close>

record nvml_vtable_t =
  DeviceGetTemperature :: "nvml_temperature_sensor \<Rightarrow> int \<times> u32"
  DeviceGetFieldValues :: "(nat \<Rightarrow> int \<times> nvml_field_value_t) option"
  DeviceGetPowerUsage :: "int \<times> u32"
  DeviceGetEnforcedPowerLimit :: "int \<times> u32"
  DeviceGetTotalEccErrors :: "nvml_ecc_error \<Rightarrow> nvml_ecc_counter \<Rightarrow> int \<times> u64"
  DeviceGetRetiredPages :: "(nvml_page_cause \<Rightarrow> int \<times> u32) option"
  DeviceGetRemappedRows :: "(int \<times> u32 \<times> u32 \<times> u32 \<times> u32) option"
  DeviceGetMemoryInfo :: "int \<times> nvml_memory_t"
  DeviceGetClockInfo :: "nvml_clock \<Rightarrow> int \<times> u32"
  DeviceGetUtilizationRates :: "int \<times> nvml_utilization_t"
  DeviceGetCurrentClocksThrottleReasons :: "int \<times> u64"
  DeviceGetPerformanceState :: "int \<times> int"
  DeviceGetFanSpeed :: "(int \<times> u32) option"
  DeviceGetCurrPcieLinkGeneration :: "int \<times> u32"
  DeviceGetCurrPcieLinkWidth :: "int \<times> u32"
  DeviceGetPcieReplayCounter :: "(int \<times> u32) option"

definition NVML_FI_DEV_MEMORY_TEMP :: nat where "NVML_FI_DEV_MEMORY_TEMP = 82"
definition NVML_ERROR_DRIVER_NOT_LOADED :: int where "NVML_ERROR_DRIVER_NOT_LOADED = 9"
definition NVML_ERROR_GPU_IS_LOST :: int where "NVML_ERROR_GPU_IS_LOST = 15"

definition NVML_IS_HARD_ERROR :: "int \<Rightarrow> bool" where
  "NVML_IS_HARD_ERROR ret \<longleftrightarrow> ret = NVML_ERROR_GPU_IS_LOST \<or> ret = NVML_ERROR_DRIVER_NOT_LOADED"

definition NVML_THROTTLE_REASON_SW_POWER_CAP :: u64 where "NVML_THROTTLE_REASON_SW_POWER_CAP = 0x04"
definition NVML_THROTTLE_REASON_HW_SLOWDOWN :: u64 where "NVML_THROTTLE_REASON_HW_SLOWDOWN = 0x08"
definition NVML_THROTTLE_REASON_SW_THERMAL :: u64 where "NVML_THROTTLE_REASON_SW_THERMAL = 0x20"
definition NVML_THROTTLE_REASON_HW_THERMAL :: u64 where "NVML_THROTTLE_REASON_HW_THERMAL = 0x40"
definition NVML_THROTTLE_REASON_HW_POWER_BRAKE :: u64 where "NVML_THROTTLE_REASON_HW_POWER_BRAKE = 0x80"

section \<open>One poll cycle\<close>

text \<open>
  A required call whose code is not 0 ends the poll with that code and the name of the call; the
  caller then drops the partly filled sample and state. \<open>(double)u\<close> of an unsigned is exact,
  \<open>(int)u\<close> reinterprets its bits.
\<close>

type_synonym 'a polled = "(int \<times> string) + 'a"

definition nvml_call :: "int \<times> 'v \<Rightarrow> string \<Rightarrow> ('v \<Rightarrow> 'a polled) \<Rightarrow> 'a polled" where
  "nvml_call r name k = (case r of (ret, v) \<Rightarrow> if ret \<noteq> 0 then Inl (ret, name) else k v)"

definition dbl_u32 :: "u32 \<Rightarrow> double" where
  "dbl_u32 u = of_c_int (uint u)"

definition poll_hbm :: "nvml_vtable_t \<Rightarrow> gpu_sample_t \<Rightarrow> gpu_sample_t" where
  "poll_hbm vt sample =
     (let sample = sample\<lparr>hbm_temp_c := Fin 0\<rparr>
      in case DeviceGetFieldValues vt of
           None \<Rightarrow> sample
         | Some get \<Rightarrow>
             (case get NVML_FI_DEV_MEMORY_TEMP of (ret, fv) \<Rightarrow>
                if ret = 0 \<and> fv_nvmlReturn fv = 0 \<and> fv_valueType fv = NVML_VALUE_TYPE_UNSIGNED_INT
                then sample\<lparr>hbm_temp_c := dbl_u32 (fv_uiVal fv)\<rparr> else sample))"

definition poll_retired :: "nvml_vtable_t \<Rightarrow> gpu_state_t \<Rightarrow> gpu_state_t" where
  "poll_retired vt state =
     (case DeviceGetRetiredPages vt of
        None \<Rightarrow> state
      | Some get \<Rightarrow>
          let state = (case get NVML_PAGE_RETIREMENT_CAUSE_MULTIPLE_SINGLE_BIT_ECC_ERRORS of (ret, page_count) \<Rightarrow>
                if ret = 0 then state\<lparr>st_retired_pages_sbe := page_count\<rparr> else state)
          in case get NVML_PAGE_RETIREMENT_CAUSE_DOUBLE_BIT_ECC_ERRORS of (ret, page_count) \<Rightarrow>
                if ret = 0 then state\<lparr>st_retired_pages_dbe := page_count\<rparr> else state)"

definition poll_remap :: "nvml_vtable_t \<Rightarrow> gpu_state_t \<Rightarrow> gpu_state_t" where
  "poll_remap vt state =
     (case DeviceGetRemappedRows vt of
        None \<Rightarrow> state
      | Some (ret, corr, uncorr, pending, failed) \<Rightarrow>
          if ret = 0 then state\<lparr>st_row_remap_failures := uncorr, st_pending_row_remap := sint pending\<rparr>
          else state)"

definition poll_replay :: "nvml_vtable_t \<Rightarrow> gpu_state_t \<Rightarrow> gpu_state_t" where
  "poll_replay vt state =
     (case DeviceGetPcieReplayCounter vt of
        None \<Rightarrow> state
      | Some (ret, u) \<Rightarrow> if ret = 0 then state\<lparr>st_pcie_replay_count := ucast u\<rparr> else state)"

definition poll_fan :: "nvml_vtable_t \<Rightarrow> gpu_state_t \<Rightarrow> gpu_state_t" where
  "poll_fan vt state =
     (let state = state\<lparr>st_fan_speed_pct := - 1\<rparr>
      in case DeviceGetFanSpeed vt of
           None \<Rightarrow> state
         | Some (ret, u) \<Rightarrow> if ret = 0 then state\<lparr>st_fan_speed_pct := sint u\<rparr> else state)"

definition set_throttle :: "u64 \<Rightarrow> gpu_state_t \<Rightarrow> gpu_state_t" where
  "set_throttle reasons state =
     state\<lparr>st_throttle_sw_power_cap := reasons AND NVML_THROTTLE_REASON_SW_POWER_CAP \<noteq> 0,
           st_throttle_hw_slowdown := reasons AND NVML_THROTTLE_REASON_HW_SLOWDOWN \<noteq> 0,
           st_throttle_hw_power_brake := reasons AND NVML_THROTTLE_REASON_HW_POWER_BRAKE \<noteq> 0,
           st_throttle_sw_thermal := reasons AND NVML_THROTTLE_REASON_SW_THERMAL \<noteq> 0,
           st_throttle_hw_thermal := reasons AND NVML_THROTTLE_REASON_HW_THERMAL \<noteq> 0\<rparr>"

definition poll_sample ::
    "nvml_vtable_t \<Rightarrow> u64 \<Rightarrow> gpu_sample_t \<Rightarrow> (gpu_sample_t \<Rightarrow> 'a polled) \<Rightarrow> 'a polled" where
  "poll_sample vt now sample k =
     (let sample = sample\<lparr>timestamp_ms := now\<rparr> in
      nvml_call (DeviceGetTemperature vt NVML_TEMPERATURE_GPU) ''DeviceGetTemperature(GPU)'' (\<lambda>u.
      let sample = sample\<lparr>temp_c := dbl_u32 u\<rparr>;
          sample = poll_hbm vt sample in
      nvml_call (DeviceGetPowerUsage vt) ''DeviceGetPowerUsage'' (\<lambda>u.
      let sample = sample\<lparr>power_w := ddiv (dbl_u32 u) (Fin 1000)\<rparr> in
      nvml_call (DeviceGetEnforcedPowerLimit vt) ''DeviceGetEnforcedPowerLimit'' (\<lambda>u.
      let sample = sample\<lparr>power_limit_w := ddiv (dbl_u32 u) (Fin 1000)\<rparr> in
      nvml_call (DeviceGetClockInfo vt NVML_CLOCK_SM) ''DeviceGetClockInfo(SM)'' (\<lambda>u.
      let sample = sample\<lparr>sm_clock_mhz := dbl_u32 u\<rparr> in
      nvml_call (DeviceGetTotalEccErrors vt NVML_MEMORY_ERROR_TYPE_CORRECTED NVML_VOLATILE_ECC)
        ''DeviceGetTotalEccErrors(CORRECTED,VOLATILE)'' (\<lambda>ull.
      let sample = sample\<lparr>ecc_sbe_volatile := ull\<rparr> in
      nvml_call (DeviceGetTotalEccErrors vt NVML_MEMORY_ERROR_TYPE_UNCORRECTED NVML_VOLATILE_ECC)
        ''DeviceGetTotalEccErrors(UNCORRECTED,VOLATILE)'' (\<lambda>ull.
      k (sample\<lparr>ecc_dbe_volatile := ull\<rparr>))))))))"

definition poll_state :: "nvml_vtable_t \<Rightarrow> gpu_state_t \<Rightarrow> (gpu_state_t \<Rightarrow> 'a polled) \<Rightarrow> 'a polled" where
  "poll_state vt state k =
     nvml_call (DeviceGetTotalEccErrors vt NVML_MEMORY_ERROR_TYPE_CORRECTED NVML_AGGREGATE_ECC)
       ''DeviceGetTotalEccErrors(CORRECTED,AGGREGATE)'' (\<lambda>ull.
     let state = state\<lparr>st_ecc_sbe_aggregate := ull\<rparr> in
     nvml_call (DeviceGetTotalEccErrors vt NVML_MEMORY_ERROR_TYPE_UNCORRECTED NVML_AGGREGATE_ECC)
       ''DeviceGetTotalEccErrors(UNCORRECTED,AGGREGATE)'' (\<lambda>ull.
     let state = state\<lparr>st_ecc_dbe_aggregate := ull\<rparr>;
         state = poll_retired vt state;
         state = poll_remap vt state in
     nvml_call (DeviceGetMemoryInfo vt) ''DeviceGetMemoryInfo'' (\<lambda>mem.
     let state = state\<lparr>st_mem_used_bytes := used mem, st_mem_free_bytes := free mem, st_mem_total_bytes := total mem\<rparr> in
     nvml_call (DeviceGetClockInfo vt NVML_CLOCK_MEM) ''DeviceGetClockInfo(MEM)'' (\<lambda>u.
     let state = state\<lparr>st_mem_clock_mhz := dbl_u32 u\<rparr> in
     nvml_call (DeviceGetUtilizationRates vt) ''DeviceGetUtilizationRates'' (\<lambda>util.
     let state = state\<lparr>st_util_gpu_pct := sint (util_gpu util), st_util_mem_pct := sint (util_memory util)\<rparr> in
     nvml_call (DeviceGetCurrentClocksThrottleReasons vt) ''DeviceGetCurrentClocksThrottleReasons'' (\<lambda>reasons.
     let state = set_throttle reasons state in
     nvml_call (DeviceGetPerformanceState vt) ''DeviceGetPerformanceState'' (\<lambda>pstate.
     let state = state\<lparr>st_pstate := pstate\<rparr> in
     nvml_call (DeviceGetCurrPcieLinkGeneration vt) ''DeviceGetCurrPcieLinkGeneration'' (\<lambda>u.
     let state = state\<lparr>st_pcie_link_gen := sint u\<rparr> in
     nvml_call (DeviceGetCurrPcieLinkWidth vt) ''DeviceGetCurrPcieLinkWidth'' (\<lambda>u.
     let state = state\<lparr>st_pcie_link_width := sint u\<rparr>;
         state = poll_replay vt state;
         state = poll_fan vt state in
     k state)))))))))"

definition do_nvml_poll ::
    "nvml_vtable_t \<Rightarrow> u64 \<Rightarrow> gpu_sample_t \<Rightarrow> gpu_state_t \<Rightarrow> (gpu_sample_t \<times> gpu_state_t) polled" where
  "do_nvml_poll vt now sample state =
     poll_sample vt now sample (\<lambda>sample. poll_state vt state (\<lambda>state. Inr (sample, state)))"

section \<open>Loading\<close>

lemma load_req_found:
  "load_req dlsym dl syms vt = (True, vt') \<Longrightarrow>
     (\<forall>(m, p, f)\<in>set syms. dl_sym dlsym dl p f \<noteq> None \<and> vt' m \<noteq> None) \<and> (\<forall>m. vt m \<noteq> None \<longrightarrow> vt' m \<noteq> None)"
proof (induction syms arbitrary: vt)
  case (Cons x syms)
  obtain m p f where x: "x = (m, p, f)" by (cases x)
  with Cons.prems obtain q where "dl_sym dlsym dl p f = Some q" "load_req dlsym dl syms (vt(m := Some q)) = (True, vt')"
    by (auto simp: Let_def split: if_splits)
  with Cons.IH [OF this(2)] x show ?case by auto
qed simp

lemma load_req_iff: "fst (load_req dlsym dl syms vt) \<longleftrightarrow> list_all (\<lambda>(m, p, f). dl_sym dlsym dl p f \<noteq> None) syms"
proof (induction syms arbitrary: vt)
  case (Cons x syms)
  then show ?case by (cases x) (auto simp: Let_def)
qed simp

lemma load_opt_other: "m \<notin> fst ` set syms \<Longrightarrow> load_opt dlsym dl syms vt m = vt m"
proof (induction syms arbitrary: vt)
  case (Cons x syms)
  then show ?case by (cases x) auto
qed simp

lemma dl_load_cases:
  assumes "fst ` set req \<inter> fst ` set opt = {}" and r: "r = dl_load names req opt dlopen dlsym"
  shows "(case List.map_filter dlopen names of
     [] \<Rightarrow> ld_ret r = - 1 \<and> ld_handle r = None \<and> ld_closed r = []
   | dl # _ \<Rightarrow>
       if list_all (\<lambda>(m, p, f). dl_sym dlsym dl p f \<noteq> None) req
       then ld_ret r = 0 \<and> ld_handle r = Some dl \<and> ld_closed r = [] \<and> list_all (\<lambda>(m, p, f). ld_table r m \<noteq> None) req
       else ld_ret r = - 1 \<and> ld_handle r = None \<and> ld_closed r = [dl])"
proof (cases "List.map_filter dlopen names")
  case (Cons dl rest)
  show ?thesis
  proof (cases "load_req dlsym dl req (\<lambda>_. None)")
    case (Pair ok vt)
    note all = load_req_iff [of dlsym dl req "\<lambda>_. None", unfolded Pair fst_conv]
    show ?thesis
    proof (cases ok)
      case False
      then show ?thesis using Cons Pair all by (simp add: r dl_load_def)
    next
      case True
      then have found: "load_req dlsym dl req (\<lambda>_. None) = (True, vt)" using Pair by simp
      have "ld_table r m \<noteq> None" if "(m, p, f) \<in> set req" for m p f
      proof -
        have "m \<notin> fst ` set opt" using assms(1) that by (metis disjoint_iff fst_conv image_eqI)
        then show ?thesis using load_req_found [OF found] that Cons found
          by (auto simp: r dl_load_def load_opt_other)
      qed
      then show ?thesis using Cons found all True by (auto simp: r dl_load_def list_all_iff)
    qed
  qed
qed (simp add: r dl_load_def)

text \<open>Loading the driver library succeeds exactly when one of its two names opens and every required
  symbol resolves under its primary or fallback name; then every required function pointer is set.
  On failure no handle is stored and a library that was opened has been closed again.\<close>

theorem nvml_load_complete:
  assumes "r = nvml_load dlopen dlsym"
  shows "case List.map_filter dlopen [''libnvidia-ml.so.1'', ''libnvidia-ml.so''] of
     [] \<Rightarrow> ld_ret r = - 1 \<and> ld_handle r = None \<and> ld_closed r = []
   | dl # _ \<Rightarrow>
       if list_all (\<lambda>(m, p, f). dl_sym dlsym dl p f \<noteq> None) nvml_required
       then ld_ret r = 0 \<and> ld_handle r = Some dl \<and> ld_closed r = [] \<and>
            list_all (\<lambda>(m, p, f). ld_table r m \<noteq> None) nvml_required
       else ld_ret r = - 1 \<and> ld_handle r = None \<and> ld_closed r = [dl]"
proof -
  have "fst ` set nvml_required \<inter> fst ` set nvml_optional = {}"
    by (simp add: nvml_required_def nvml_optional_def)
  from dl_load_cases [OF this assms [unfolded nvml_load_def]] show ?thesis .
qed

theorem nvml_load_complete_witness:
  "ld_ret (nvml_load (\<lambda>n. if n = ''libnvidia-ml.so'' then Some (7 :: nat) else None) (\<lambda>dl s. Some s)) = 0"
proof -
  have "list_all (\<lambda>(m, p, f). dl_sym (\<lambda>(dl :: nat) s. Some s) 7 p f \<noteq> None) nvml_required"
    by (simp add: dl_sym_def list_all_iff)
  then show ?thesis
    using nvml_load_complete [OF refl, of "\<lambda>n. if n = ''libnvidia-ml.so'' then Some (7 :: nat) else None" "\<lambda>dl s. Some s"]
    by (simp add: List.map_filter_simps)
qed

section \<open>The first failing call\<close>

text \<open>The required calls of a poll in their order, with the code each returns.\<close>

definition required_calls :: "nvml_vtable_t \<Rightarrow> (int \<times> string) list" where
  "required_calls vt =
     [(fst (DeviceGetTemperature vt NVML_TEMPERATURE_GPU), ''DeviceGetTemperature(GPU)''),
      (fst (DeviceGetPowerUsage vt), ''DeviceGetPowerUsage''),
      (fst (DeviceGetEnforcedPowerLimit vt), ''DeviceGetEnforcedPowerLimit''),
      (fst (DeviceGetClockInfo vt NVML_CLOCK_SM), ''DeviceGetClockInfo(SM)''),
      (fst (DeviceGetTotalEccErrors vt NVML_MEMORY_ERROR_TYPE_CORRECTED NVML_VOLATILE_ECC),
         ''DeviceGetTotalEccErrors(CORRECTED,VOLATILE)''),
      (fst (DeviceGetTotalEccErrors vt NVML_MEMORY_ERROR_TYPE_UNCORRECTED NVML_VOLATILE_ECC),
         ''DeviceGetTotalEccErrors(UNCORRECTED,VOLATILE)''),
      (fst (DeviceGetTotalEccErrors vt NVML_MEMORY_ERROR_TYPE_CORRECTED NVML_AGGREGATE_ECC),
         ''DeviceGetTotalEccErrors(CORRECTED,AGGREGATE)''),
      (fst (DeviceGetTotalEccErrors vt NVML_MEMORY_ERROR_TYPE_UNCORRECTED NVML_AGGREGATE_ECC),
         ''DeviceGetTotalEccErrors(UNCORRECTED,AGGREGATE)''),
      (fst (DeviceGetMemoryInfo vt), ''DeviceGetMemoryInfo''),
      (fst (DeviceGetClockInfo vt NVML_CLOCK_MEM), ''DeviceGetClockInfo(MEM)''),
      (fst (DeviceGetUtilizationRates vt), ''DeviceGetUtilizationRates''),
      (fst (DeviceGetCurrentClocksThrottleReasons vt), ''DeviceGetCurrentClocksThrottleReasons''),
      (fst (DeviceGetPerformanceState vt), ''DeviceGetPerformanceState''),
      (fst (DeviceGetCurrPcieLinkGeneration vt), ''DeviceGetCurrPcieLinkGeneration''),
      (fst (DeviceGetCurrPcieLinkWidth vt), ''DeviceGetCurrPcieLinkWidth'')]"

definition poll_error :: "'a polled \<Rightarrow> (int \<times> string) option" where
  "poll_error r = (case r of Inl e \<Rightarrow> Some e | Inr _ \<Rightarrow> None)"

lemma poll_error_simps [simp]: "poll_error (Inl e) = Some e" "poll_error (Inr v) = None"
  by (simp_all add: poll_error_def)

lemma poll_error_call:
  "poll_error (nvml_call r name k) = (if fst r \<noteq> 0 then Some (fst r, name) else poll_error (k (snd r)))"
  by (simp add: nvml_call_def split: prod.split)

lemma poll_error_first:
  "poll_error (do_nvml_poll vt now sample state) = find (\<lambda>(ret, name). ret \<noteq> 0) (required_calls vt)"
  unfolding do_nvml_poll_def poll_sample_def poll_state_def required_calls_def Let_def
  by (simp only: poll_error_call find.simps prod.case poll_error_simps if_not_P split: if_split)

text \<open>A poll fails exactly with the code and the name of the first required driver call whose code
  is not zero, and succeeds when all fifteen return zero; the five optional functions and the memory
  temperature never make it fail, missing or not.\<close>

theorem do_nvml_poll_first_error:
  "(case do_nvml_poll vt now sample state of Inl e \<Rightarrow> Some e | Inr _ \<Rightarrow> None) =
     find (\<lambda>(ret, name). ret \<noteq> 0) (required_calls vt)"
  using poll_error_first [of vt now sample state] by (simp add: poll_error_def)

section \<open>What a successful poll stores\<close>

lemma nvml_call_Inr: "nvml_call r name k = Inr v \<longleftrightarrow> fst r = 0 \<and> k (snd r) = Inr v"
  by (simp add: nvml_call_def split: prod.split)

lemma do_nvml_poll_Inr:
  assumes "do_nvml_poll vt now sample state = Inr (s, t)"
  shows "timestamp_ms s = now"
    and "temp_c s = dbl_u32 (snd (DeviceGetTemperature vt NVML_TEMPERATURE_GPU))"
    and "power_w s = ddiv (dbl_u32 (snd (DeviceGetPowerUsage vt))) (Fin 1000)"
    and "power_limit_w s = ddiv (dbl_u32 (snd (DeviceGetEnforcedPowerLimit vt))) (Fin 1000)"
    and "sm_clock_mhz s = dbl_u32 (snd (DeviceGetClockInfo vt NVML_CLOCK_SM))"
    and "ecc_sbe_volatile s = snd (DeviceGetTotalEccErrors vt NVML_MEMORY_ERROR_TYPE_CORRECTED NVML_VOLATILE_ECC)"
    and "ecc_dbe_volatile s = snd (DeviceGetTotalEccErrors vt NVML_MEMORY_ERROR_TYPE_UNCORRECTED NVML_VOLATILE_ECC)"
    and "hbm_temp_c s = hbm_temp_c (poll_hbm vt sample)"
  using assms unfolding do_nvml_poll_def poll_sample_def poll_state_def Let_def nvml_call_Inr
  by (auto simp: poll_hbm_def Let_def split: option.splits prod.splits)

lemma poll_optional_keeps:
  "st_pcie_link_gen_max (poll_retired vt t) = st_pcie_link_gen_max t"
  "st_pcie_link_gen_max (poll_remap vt t) = st_pcie_link_gen_max t"
  "st_pcie_link_gen_max (poll_replay vt t) = st_pcie_link_gen_max t"
  "st_pcie_link_gen_max (poll_fan vt t) = st_pcie_link_gen_max t"
  "st_pcie_link_width_max (poll_retired vt t) = st_pcie_link_width_max t"
  "st_pcie_link_width_max (poll_remap vt t) = st_pcie_link_width_max t"
  "st_pcie_link_width_max (poll_replay vt t) = st_pcie_link_width_max t"
  "st_pcie_link_width_max (poll_fan vt t) = st_pcie_link_width_max t"
  "st_pcie_link_gen (poll_replay vt t) = st_pcie_link_gen t" "st_pcie_link_gen (poll_fan vt t) = st_pcie_link_gen t"
  "st_pcie_link_width (poll_replay vt t) = st_pcie_link_width t" "st_pcie_link_width (poll_fan vt t) = st_pcie_link_width t"
  "st_row_remap_failures (poll_replay vt t) = st_row_remap_failures t"
  "st_row_remap_failures (poll_fan vt t) = st_row_remap_failures t"
  "st_row_remap_failures (poll_retired vt t) = st_row_remap_failures t"
  by (auto simp: poll_retired_def poll_remap_def poll_replay_def poll_fan_def Let_def split: option.splits prod.splits)

lemma set_throttle_keeps:
  "st_pcie_link_gen_max (set_throttle r t) = st_pcie_link_gen_max t"
  "st_pcie_link_width_max (set_throttle r t) = st_pcie_link_width_max t"
  "st_row_remap_failures (set_throttle r t) = st_row_remap_failures t"
  by (simp_all add: set_throttle_def)

lemma do_nvml_poll_state:
  assumes "do_nvml_poll vt now sample state = Inr (s, t)"
  shows "st_pcie_link_gen_max t = st_pcie_link_gen_max state \<and> st_pcie_link_width_max t = st_pcie_link_width_max state"
    and "st_pcie_link_gen t = sint (snd (DeviceGetCurrPcieLinkGeneration vt))"
    and "st_pcie_link_width t = sint (snd (DeviceGetCurrPcieLinkWidth vt))"
    and "st_row_remap_failures t = st_row_remap_failures (poll_remap vt state)"
  using assms unfolding do_nvml_poll_def poll_sample_def poll_state_def Let_def nvml_call_Inr
  by (auto simp: poll_optional_keeps set_throttle_keeps poll_remap_def split: option.splits prod.splits)

text \<open>The row remap counter of the state is the number of rows remapped after uncorrectable errors
  and not the driver's remap failure flag: with remapped rows and no failure the state still reports
  row remap failures, which the scorer penalises.\<close>

theorem row_remap_failures_is_uncorrectable:
  assumes "do_nvml_poll vt now sample state = Inr (s, t)"
    and "DeviceGetRemappedRows vt = Some (0, corr, uncorr, pending, failed)"
  shows "st_row_remap_failures t = uncorr"
  using do_nvml_poll_state(4) [OF assms(1)] assms(2) by (simp add: poll_remap_def)

text \<open>A driver whose calls all succeed.\<close>

definition demo_vt :: nvml_vtable_t where
  "demo_vt = \<lparr>DeviceGetTemperature = (\<lambda>_. (0, 60)), DeviceGetFieldValues = None, DeviceGetPowerUsage = (0, 300000),
     DeviceGetEnforcedPowerLimit = (0, 700000), DeviceGetTotalEccErrors = (\<lambda>_ _. (0, 0)), DeviceGetRetiredPages = None,
     DeviceGetRemappedRows = Some (0, 0, 2, 0, 0), DeviceGetMemoryInfo = (0, \<lparr>total = 80, free = 70, used = 10\<rparr>),
     DeviceGetClockInfo = (\<lambda>_. (0, 1500)), DeviceGetUtilizationRates = (0, \<lparr>util_gpu = 50, util_memory = 20\<rparr>),
     DeviceGetCurrentClocksThrottleReasons = (0, 4), DeviceGetPerformanceState = (0, 0), DeviceGetFanSpeed = None,
     DeviceGetCurrPcieLinkGeneration = (0, 5), DeviceGetCurrPcieLinkWidth = (0, 16), DeviceGetPcieReplayCounter = None\<rparr>"

lemma demo_vt_poll: "\<exists>s t. do_nvml_poll demo_vt now sample state = Inr (s, t)"
proof (cases "do_nvml_poll demo_vt now sample state")
  case (Inl e)
  have "find (\<lambda>(ret, name). ret \<noteq> 0) (required_calls demo_vt) = None"
    by (simp add: required_calls_def demo_vt_def)
  then show ?thesis using Inl poll_error_first [of demo_vt now sample state] by simp
qed auto

theorem row_remap_failures_is_uncorrectable_witness:
  "\<exists>s t. do_nvml_poll demo_vt 0 zero_sample zero_state = Inr (s, t) \<and> st_row_remap_failures t = 2"
proof -
  obtain s t where "do_nvml_poll demo_vt 0 zero_sample zero_state = Inr (s, t)" using demo_vt_poll by blast
  moreover have "DeviceGetRemappedRows demo_vt = Some (0, 0, 2, 0, 0)" by (simp add: demo_vt_def)
  ultimately show ?thesis using row_remap_failures_is_uncorrectable by blast
qed

end
