(* ===== verification/Dcgm.thy ===== *)
theory Dcgm
  imports Nvml
begin

text \<open>
  The optional DCGM daemon interface, \<^verbatim>\<open>src/dcgm.c\<close> and \<^verbatim>\<open>src/dcgm.h\<close>, and \<open>apply_dcgm_state\<close> of
  \<^verbatim>\<open>src/collector.c\<close>. The library functions are fields of the argument \<open>dcgm_vtable_t\<close>. A field value is
  the 64-bit content of its union: the code reads it as \<open>int64_t\<close> or as \<open>double\<close>. Setup is modelled
  with the trace of the library calls it makes, so that the order of its cleanup can be stated.
\<close>

section \<open>Doubles from their bits\<close>

definition double_of_bits :: "u64 \<Rightarrow> double" where
  "double_of_bits w =
     (let s = bit w 63; e = uint (drop_bit 52 w AND 0x7FF); m = uint (w AND 0xFFFFFFFFFFFFF);
          x = (if e = 0 then of_int m * 2 powi (- 1074) else of_int (2 ^ 52 + m) * 2 powi (e - 1075))
      in if e = 2047 then (if m = 0 then Inf s else NaN)
         else Fin (if s then - x else x))"

section \<open>Fields\<close>

datatype dcgm_field =
    DCGM_FI_DEV_POWER_USAGE
  | DCGM_FI_DEV_TOTAL_ENERGY_CONSUMPTION
  | DCGM_FI_DEV_MEM_COPY_UTIL
  | DCGM_FI_DEV_POWER_VIOLATION
  | DCGM_FI_DEV_THERMAL_VIOLATION
  | DCGM_FI_DEV_NVLINK_CRC_FLIT_ERROR_COUNT_TOTAL
  | DCGM_FI_DEV_NVLINK_REPLAY_ERROR_COUNT_TOTAL
  | DCGM_FI_DEV_NVLINK_RECOVERY_ERROR_COUNT_TOTAL
  | DCGM_FI_DEV_XID_ERRORS
  | DCGM_FI_DEV_LAST_XID
  | DCGM_FI_DEV_PCIE_REPLAY_COUNTER
  | DCGM_FI_DEV_ROW_REMAP_FAILURE

fun field_id :: "dcgm_field \<Rightarrow> u16" where
  "field_id DCGM_FI_DEV_POWER_USAGE = 155"
| "field_id DCGM_FI_DEV_TOTAL_ENERGY_CONSUMPTION = 156"
| "field_id DCGM_FI_DEV_MEM_COPY_UTIL = 204"
| "field_id DCGM_FI_DEV_POWER_VIOLATION = 240"
| "field_id DCGM_FI_DEV_THERMAL_VIOLATION = 241"
| "field_id DCGM_FI_DEV_NVLINK_CRC_FLIT_ERROR_COUNT_TOTAL = 409"
| "field_id DCGM_FI_DEV_NVLINK_REPLAY_ERROR_COUNT_TOTAL = 429"
| "field_id DCGM_FI_DEV_NVLINK_RECOVERY_ERROR_COUNT_TOTAL = 439"
| "field_id DCGM_FI_DEV_XID_ERRORS = 230"
| "field_id DCGM_FI_DEV_LAST_XID = 237"
| "field_id DCGM_FI_DEV_PCIE_REPLAY_COUNTER = 202"
| "field_id DCGM_FI_DEV_ROW_REMAP_FAILURE = 395"

definition POLL_FIELDS :: "dcgm_field list" where
  "POLL_FIELDS =
     [DCGM_FI_DEV_POWER_USAGE, DCGM_FI_DEV_TOTAL_ENERGY_CONSUMPTION, DCGM_FI_DEV_MEM_COPY_UTIL,
      DCGM_FI_DEV_POWER_VIOLATION, DCGM_FI_DEV_THERMAL_VIOLATION,
      DCGM_FI_DEV_NVLINK_CRC_FLIT_ERROR_COUNT_TOTAL, DCGM_FI_DEV_NVLINK_REPLAY_ERROR_COUNT_TOTAL,
      DCGM_FI_DEV_NVLINK_RECOVERY_ERROR_COUNT_TOTAL, DCGM_FI_DEV_XID_ERRORS, DCGM_FI_DEV_LAST_XID,
      DCGM_FI_DEV_PCIE_REPLAY_COUNTER, DCGM_FI_DEV_ROW_REMAP_FAILURE]"

record dcgm_field_value_t =
  fieldType :: u16
  status :: int
  bits :: u64

definition i64 :: "dcgm_field_value_t \<Rightarrow> int" where
  "i64 v = sint (bits v)"

definition dbl :: "dcgm_field_value_t \<Rightarrow> double" where
  "dbl v = double_of_bits (bits v)"

definition DCGM_FT_INT64 :: u16 where "DCGM_FT_INT64 = 108"
definition DCGM_INT64_BLANK :: int where "DCGM_INT64_BLANK = 0x7FFFFFFFFFFFFFF0"
definition DCGM_FP64_BLANK :: double where "DCGM_FP64_BLANK = Fin 140737488355328"
definition DCGM_FIELD_UNAVAILABLE_DBL :: double where "DCGM_FIELD_UNAVAILABLE_DBL = Fin (- 1)"
definition DCGM_FIELD_UNAVAILABLE_U64 :: u64 where "DCGM_FIELD_UNAVAILABLE_U64 = - 1"
definition DCGM_FIELD_UNAVAILABLE_U32 :: u32 where "DCGM_FIELD_UNAVAILABLE_U32 = - 1"

record dcgm_fields_t =
  d_power_w :: double
  d_energy_j :: double
  d_mem_bw_util_pct :: double
  d_power_violation_us :: u64
  d_thermal_violation_us :: u64
  d_nvlink_replay :: u64
  d_nvlink_recovery :: u64
  d_nvlink_crc :: u64
  d_xid_count :: u64
  d_xid_last_code :: u32
  d_pcie_replay :: u64
  d_row_remap_failures :: u32

definition unavailable_fields :: dcgm_fields_t where
  "unavailable_fields =
     \<lparr>d_power_w = DCGM_FIELD_UNAVAILABLE_DBL, d_energy_j = DCGM_FIELD_UNAVAILABLE_DBL,
      d_mem_bw_util_pct = DCGM_FIELD_UNAVAILABLE_DBL, d_power_violation_us = DCGM_FIELD_UNAVAILABLE_U64,
      d_thermal_violation_us = DCGM_FIELD_UNAVAILABLE_U64, d_nvlink_replay = DCGM_FIELD_UNAVAILABLE_U64,
      d_nvlink_recovery = DCGM_FIELD_UNAVAILABLE_U64, d_nvlink_crc = DCGM_FIELD_UNAVAILABLE_U64,
      d_xid_count = DCGM_FIELD_UNAVAILABLE_U64, d_xid_last_code = DCGM_FIELD_UNAVAILABLE_U32,
      d_pcie_replay = DCGM_FIELD_UNAVAILABLE_U64, d_row_remap_failures = DCGM_FIELD_UNAVAILABLE_U32\<rparr>"

section \<open>The function table\<close>

text \<open>
  \<open>GetLatestValues\<close> fills the zeroed array it is given, one entry per requested field. What it
  returns may depend on the refresh that precedes it, its first argument here: the code that the
  optional \<open>UpdateAllFields\<close> returned, if there is one.
\<close>

record dcgm_vtable_t =
  dcgm_Init :: int
  dcgm_Connect :: "string \<Rightarrow> int \<times> int"
  GroupCreate :: "int \<Rightarrow> int \<times> int"
  GroupAddDevice :: "int \<Rightarrow> int \<Rightarrow> u32 \<Rightarrow> int"
  FieldGroupCreate :: "int \<Rightarrow> u16 list \<Rightarrow> int \<times> int"
  WatchFields :: "int \<Rightarrow> int \<Rightarrow> int \<Rightarrow> int"
  UpdateAllFields :: "(int \<Rightarrow> int) option"
  GetLatestValues :: "int option \<Rightarrow> int \<Rightarrow> int \<Rightarrow> u16 list \<Rightarrow> int \<times> dcgm_field_value_t list"

definition dcgm_required :: "dl_symbol list" where
  "dcgm_required =
     [(''Init'', ''dcgmInit'', None), (''Shutdown'', ''dcgmShutdown'', None),
      (''Connect'', ''dcgmConnect'', None), (''Disconnect'', ''dcgmDisconnect'', None),
      (''GroupCreate'', ''dcgmGroupCreate'', None), (''GroupAddDevice'', ''dcgmGroupAddDevice'', None),
      (''FieldGroupCreate'', ''dcgmFieldGroupCreate'', None), (''WatchFields'', ''dcgmWatchFields'', None),
      (''GetLatestValues'', ''dcgmGetLatestValuesForFields'', Some ''dcgmGetLatestValues'')]"

definition dcgm_optional :: "dl_symbol list" where
  "dcgm_optional = [(''UpdateAllFields'', ''dcgmUpdateAllFields'', None), (''ErrorString'', ''dcgmErrorString'', None)]"

definition dcgm_load :: "(string \<Rightarrow> 'h option) \<Rightarrow> ('h \<Rightarrow> string \<Rightarrow> 'f option) \<Rightarrow> ('h, 'f) load_result" where
  "dcgm_load dlopen dlsym = dl_load [''libdcgm.so.1'', ''libdcgm.so''] dcgm_required dcgm_optional dlopen dlsym"

definition dcgm_unload :: "'h option \<Rightarrow> 'h list" where
  "dcgm_unload dl_handle = (case dl_handle of None \<Rightarrow> [] | Some dl \<Rightarrow> [dl])"

section \<open>Setup and teardown\<close>

datatype dcgm_event =
    EvInit
  | EvShutdown
  | EvConnect int
  | EvDisconnect int
  | EvGroup int
  | EvAdd int u32
  | EvFieldGroup int
  | EvWatch int int

fun add_devices :: "dcgm_vtable_t \<Rightarrow> int \<Rightarrow> int \<Rightarrow> u32 list \<Rightarrow> dcgm_event list \<times> bool" where
  "add_devices vt h group_id [] = ([], True)"
| "add_devices vt h group_id (g # gs) =
     (if GroupAddDevice vt h group_id g \<noteq> 0 then ([EvAdd group_id g], False)
      else let (evs, ok) = add_devices vt h group_id gs in (EvAdd group_id g # evs, ok))"

text \<open>The trace, the return value and the handle that the caller keeps.\<close>

definition dcgm_setup :: "dcgm_vtable_t \<Rightarrow> u32 list \<Rightarrow> dcgm_event list \<times> int \<times> int" where
  "dcgm_setup vt gpu_ids =
     (if dcgm_Init vt \<noteq> 0 then ([EvInit], - 1, 0)
      else case dcgm_Connect vt ''127.0.0.1'' of (ret, h) \<Rightarrow>
        if ret \<noteq> 0 then ([EvInit, EvConnect h, EvShutdown], - 1, h)
        else let fail_disconnect = (\<lambda>evs. ([EvInit, EvConnect h] @ evs @ [EvDisconnect h, EvShutdown], - 1, h))
        in case GroupCreate vt h of (ret, group_id) \<Rightarrow>
          if ret \<noteq> 0 then fail_disconnect [EvGroup group_id]
          else case add_devices vt h group_id gpu_ids of (added, ok) \<Rightarrow>
            if \<not> ok then fail_disconnect (EvGroup group_id # added)
            else case FieldGroupCreate vt h (map field_id POLL_FIELDS) of (ret, field_group_id) \<Rightarrow>
              if ret \<noteq> 0 then fail_disconnect (EvGroup group_id # added @ [EvFieldGroup field_group_id])
              else if WatchFields vt h group_id field_group_id \<noteq> 0
              then fail_disconnect (EvGroup group_id # added @ [EvFieldGroup field_group_id, EvWatch group_id field_group_id])
              else ([EvInit, EvConnect h, EvGroup group_id] @ added @
                    [EvFieldGroup field_group_id, EvWatch group_id field_group_id], 0, h))"

definition dcgm_teardown :: "int \<Rightarrow> dcgm_event list" where
  "dcgm_teardown h = [EvDisconnect h, EvShutdown]"

section \<open>One poll\<close>

definition i64_valid :: "dcgm_field_value_t \<Rightarrow> bool" where
  "i64_valid v \<longleftrightarrow> i64 v < DCGM_INT64_BLANK"

definition u32_field :: "dcgm_field_value_t \<Rightarrow> u32 \<Rightarrow> u32" where
  "u32_field v old =
     (if 0 \<le> i64 v \<and> i64 v < DCGM_INT64_BLANK
      then (if i64 v \<le> 4294967295 then word_of_int (i64 v) else DCGM_FIELD_UNAVAILABLE_U32) else old)"

definition u64_field :: "dcgm_field_value_t \<Rightarrow> u64 \<Rightarrow> u64" where
  "u64_field v old = (if i64_valid v then word_of_int (i64 v) else old)"

definition store_field :: "dcgm_field \<Rightarrow> dcgm_field_value_t \<Rightarrow> dcgm_fields_t \<Rightarrow> dcgm_fields_t" where
  "store_field f v out =
     (if status v \<noteq> 0 then out
      else case f of
        DCGM_FI_DEV_POWER_USAGE \<Rightarrow>
          if fieldType v = DCGM_FT_INT64
          then (if i64_valid v then out\<lparr>d_power_w := ddiv (of_c_int (i64 v)) (Fin 1000)\<rparr> else out)
          else (if dlt (dbl v) DCGM_FP64_BLANK then out\<lparr>d_power_w := dbl v\<rparr> else out)
      | DCGM_FI_DEV_TOTAL_ENERGY_CONSUMPTION \<Rightarrow>
          if i64_valid v then out\<lparr>d_energy_j := ddiv (of_c_int (i64 v)) (Fin 1000)\<rparr> else out
      | DCGM_FI_DEV_MEM_COPY_UTIL \<Rightarrow>
          if i64_valid v then out\<lparr>d_mem_bw_util_pct := of_c_int (i64 v)\<rparr> else out
      | DCGM_FI_DEV_POWER_VIOLATION \<Rightarrow> out\<lparr>d_power_violation_us := u64_field v (d_power_violation_us out)\<rparr>
      | DCGM_FI_DEV_THERMAL_VIOLATION \<Rightarrow> out\<lparr>d_thermal_violation_us := u64_field v (d_thermal_violation_us out)\<rparr>
      | DCGM_FI_DEV_NVLINK_CRC_FLIT_ERROR_COUNT_TOTAL \<Rightarrow> out\<lparr>d_nvlink_crc := u64_field v (d_nvlink_crc out)\<rparr>
      | DCGM_FI_DEV_NVLINK_REPLAY_ERROR_COUNT_TOTAL \<Rightarrow> out\<lparr>d_nvlink_replay := u64_field v (d_nvlink_replay out)\<rparr>
      | DCGM_FI_DEV_NVLINK_RECOVERY_ERROR_COUNT_TOTAL \<Rightarrow> out\<lparr>d_nvlink_recovery := u64_field v (d_nvlink_recovery out)\<rparr>
      | DCGM_FI_DEV_XID_ERRORS \<Rightarrow> out\<lparr>d_xid_count := u64_field v (d_xid_count out)\<rparr>
      | DCGM_FI_DEV_LAST_XID \<Rightarrow> out\<lparr>d_xid_last_code := u32_field v (d_xid_last_code out)\<rparr>
      | DCGM_FI_DEV_PCIE_REPLAY_COUNTER \<Rightarrow> out\<lparr>d_pcie_replay := u64_field v (d_pcie_replay out)\<rparr>
      | DCGM_FI_DEV_ROW_REMAP_FAILURE \<Rightarrow> out\<lparr>d_row_remap_failures := u32_field v (d_row_remap_failures out)\<rparr>)"

text \<open>\<open>None\<close> is the return value \<open>-1\<close>: the read as a whole failed.\<close>

definition dcgm_poll :: "dcgm_vtable_t \<Rightarrow> int \<Rightarrow> int \<Rightarrow> dcgm_fields_t option" where
  "dcgm_poll vt handle gpu_id =
     (let uret = map_option (\<lambda>update. update handle) (UpdateAllFields vt)
      in case GetLatestValues vt uret handle gpu_id (map field_id POLL_FIELDS) of (ret, values) \<Rightarrow>
        if ret \<noteq> 0 then None
        else Some (fold (\<lambda>(f, v) out. store_field f v out) (zip POLL_FIELDS values) unavailable_fields))"

text \<open>Each guarded assignment of the C function writes one field, and no two the same one.\<close>

definition apply_dcgm_state :: "gpu_state_t \<Rightarrow> dcgm_fields_t \<Rightarrow> gpu_state_t" where
  "apply_dcgm_state state d =
     state\<lparr>st_board_power_w := (if d_power_w d \<noteq> DCGM_FIELD_UNAVAILABLE_DBL then d_power_w d else st_board_power_w state),
           st_energy_j := (if d_energy_j d \<noteq> DCGM_FIELD_UNAVAILABLE_DBL then d_energy_j d else st_energy_j state),
           st_mem_bw_util_pct := (if d_mem_bw_util_pct d \<noteq> DCGM_FIELD_UNAVAILABLE_DBL then d_mem_bw_util_pct d else st_mem_bw_util_pct state),
           st_power_violation_us := (if d_power_violation_us d \<noteq> DCGM_FIELD_UNAVAILABLE_U64 then d_power_violation_us d else st_power_violation_us state),
           st_thermal_violation_us := (if d_thermal_violation_us d \<noteq> DCGM_FIELD_UNAVAILABLE_U64 then d_thermal_violation_us d else st_thermal_violation_us state),
           st_nvlink_replay_count := (if d_nvlink_replay d \<noteq> DCGM_FIELD_UNAVAILABLE_U64 then d_nvlink_replay d else st_nvlink_replay_count state),
           st_nvlink_recovery_count := (if d_nvlink_recovery d \<noteq> DCGM_FIELD_UNAVAILABLE_U64 then d_nvlink_recovery d else st_nvlink_recovery_count state),
           st_nvlink_crc_count := (if d_nvlink_crc d \<noteq> DCGM_FIELD_UNAVAILABLE_U64 then d_nvlink_crc d else st_nvlink_crc_count state),
           st_xid_count := (if d_xid_count d \<noteq> DCGM_FIELD_UNAVAILABLE_U64 then d_xid_count d else st_xid_count state),
           st_xid_last_code := (if d_xid_last_code d \<noteq> DCGM_FIELD_UNAVAILABLE_U32 then d_xid_last_code d else st_xid_last_code state),
           st_pcie_replay_count := (if d_pcie_replay d \<noteq> DCGM_FIELD_UNAVAILABLE_U64 then d_pcie_replay d else st_pcie_replay_count state),
           st_row_remap_failures := (if d_row_remap_failures d \<noteq> DCGM_FIELD_UNAVAILABLE_U32 then d_row_remap_failures d else st_row_remap_failures state)\<rparr>"

section \<open>Loading and setup\<close>

lemma dcgm_load_complete:
  assumes "r = dcgm_load dlopen dlsym"
  shows "case List.map_filter dlopen [''libdcgm.so.1'', ''libdcgm.so''] of
     [] \<Rightarrow> ld_ret r = - 1 \<and> ld_handle r = None \<and> ld_closed r = []
   | dl # _ \<Rightarrow>
       if list_all (\<lambda>(m, p, f). dl_sym dlsym dl p f \<noteq> None) dcgm_required
       then ld_ret r = 0 \<and> ld_handle r = Some dl \<and> ld_closed r = [] \<and>
            list_all (\<lambda>(m, p, f). ld_table r m \<noteq> None) dcgm_required
       else ld_ret r = - 1 \<and> ld_handle r = None \<and> ld_closed r = [dl]"
proof -
  have "fst ` set dcgm_required \<inter> fst ` set dcgm_optional = {}"
    by (simp add: dcgm_required_def dcgm_optional_def)
  from dl_load_cases [OF this assms [unfolded dcgm_load_def]] show ?thesis .
qed

lemma add_devices_ok: "add_devices vt h g ids = (evs, True) \<Longrightarrow> evs = map (EvAdd g) ids"
  by (induction ids arbitrary: evs) (auto split: if_splits prod.splits)

lemma add_devices_events: "add_devices vt h g ids = (evs, ok) \<Longrightarrow> set evs \<subseteq> range (EvAdd g)"
  by (induction ids arbitrary: evs ok) (auto split: if_splits prod.splits)

text \<open>Setup of the metrics daemon is all or nothing: it succeeds only after every GPU was added to
  the group and the watch was installed, in this order and without closing anything; on failure
  after a successful connection the last two calls are the disconnect of that connection and the
  library shutdown, and the success trace contains neither.\<close>

theorem dcgm_setup_cleans_up:
  assumes "dcgm_setup vt gpu_ids = (tr, ret, h)"
  shows "if ret = 0
    then \<exists>g f. tr = [EvInit, EvConnect h, EvGroup g] @ map (EvAdd g) gpu_ids @ [EvFieldGroup f, EvWatch g f]
    else ret = - 1 \<and>
      (if dcgm_Init vt \<noteq> 0 then tr = [EvInit]
       else if fst (dcgm_Connect vt ''127.0.0.1'') \<noteq> 0 then tr = [EvInit, EvConnect h, EvShutdown]
       else \<exists>evs. tr = [EvInit, EvConnect h] @ evs @ [EvDisconnect h, EvShutdown] \<and>
              EvShutdown \<notin> set evs \<and> EvDisconnect h \<notin> set evs)"
proof (cases "dcgm_Init vt \<noteq> 0 \<or> fst (dcgm_Connect vt ''127.0.0.1'') \<noteq> 0")
  case True
  then show ?thesis using assms by (auto simp: dcgm_setup_def split: if_splits prod.splits)
next
  case False
  then obtain h0 where c: "dcgm_Init vt = 0" "dcgm_Connect vt ''127.0.0.1'' = (0, h0)"
    by (cases "dcgm_Connect vt ''127.0.0.1''") auto
  obtain rg g where g: "GroupCreate vt h0 = (rg, g)" by (cases "GroupCreate vt h0")
  obtain added ok where a: "add_devices vt h0 g gpu_ids = (added, ok)" by (cases "add_devices vt h0 g gpu_ids")
  obtain rf f where f: "FieldGroupCreate vt h0 (map field_id POLL_FIELDS) = (rf, f)"
    by (cases "FieldGroupCreate vt h0 (map field_id POLL_FIELDS)")
  show ?thesis
    using assms add_devices_ok [of vt h0 g gpu_ids added] add_devices_events [OF a]
    by (auto simp: dcgm_setup_def c g a f Let_def split: if_splits)
qed

section \<open>What a poll returns\<close>

text \<open>The value of a field by itself, or the sentinel.\<close>

definition read_u64 :: "dcgm_field_value_t \<Rightarrow> u64" where
  "read_u64 v = (if status v = 0 \<and> i64_valid v then word_of_int (i64 v) else DCGM_FIELD_UNAVAILABLE_U64)"

definition read_u32 :: "dcgm_field_value_t \<Rightarrow> u32" where
  "read_u32 v = (if status v = 0 \<and> 0 \<le> i64 v \<and> i64 v \<le> 4294967295 then word_of_int (i64 v)
                 else DCGM_FIELD_UNAVAILABLE_U32)"

definition read_milli :: "dcgm_field_value_t \<Rightarrow> double" where
  "read_milli v = (if status v = 0 \<and> i64_valid v then ddiv (of_c_int (i64 v)) (Fin 1000) else DCGM_FIELD_UNAVAILABLE_DBL)"

definition read_power :: "dcgm_field_value_t \<Rightarrow> double" where
  "read_power v =
     (if fieldType v = DCGM_FT_INT64 then read_milli v
      else if status v = 0 \<and> dlt (dbl v) DCGM_FP64_BLANK then dbl v else DCGM_FIELD_UNAVAILABLE_DBL)"

definition read_percent :: "dcgm_field_value_t \<Rightarrow> double" where
  "read_percent v = (if status v = 0 \<and> i64_valid v then of_c_int (i64 v) else DCGM_FIELD_UNAVAILABLE_DBL)"

lemmas read_defs = read_u64_def read_u32_def read_milli_def read_power_def read_percent_def

text \<open>While a field still holds its sentinel, storing a value is reading it by itself.\<close>

lemma store_field_reads:
  "d_power_violation_us out = DCGM_FIELD_UNAVAILABLE_U64 \<Longrightarrow>
     store_field DCGM_FI_DEV_POWER_VIOLATION v out = out\<lparr>d_power_violation_us := read_u64 v\<rparr>"
  "d_thermal_violation_us out = DCGM_FIELD_UNAVAILABLE_U64 \<Longrightarrow>
     store_field DCGM_FI_DEV_THERMAL_VIOLATION v out = out\<lparr>d_thermal_violation_us := read_u64 v\<rparr>"
  "d_nvlink_crc out = DCGM_FIELD_UNAVAILABLE_U64 \<Longrightarrow>
     store_field DCGM_FI_DEV_NVLINK_CRC_FLIT_ERROR_COUNT_TOTAL v out = out\<lparr>d_nvlink_crc := read_u64 v\<rparr>"
  "d_nvlink_replay out = DCGM_FIELD_UNAVAILABLE_U64 \<Longrightarrow>
     store_field DCGM_FI_DEV_NVLINK_REPLAY_ERROR_COUNT_TOTAL v out = out\<lparr>d_nvlink_replay := read_u64 v\<rparr>"
  "d_nvlink_recovery out = DCGM_FIELD_UNAVAILABLE_U64 \<Longrightarrow>
     store_field DCGM_FI_DEV_NVLINK_RECOVERY_ERROR_COUNT_TOTAL v out = out\<lparr>d_nvlink_recovery := read_u64 v\<rparr>"
  "d_xid_count out = DCGM_FIELD_UNAVAILABLE_U64 \<Longrightarrow>
     store_field DCGM_FI_DEV_XID_ERRORS v out = out\<lparr>d_xid_count := read_u64 v\<rparr>"
  "d_xid_last_code out = DCGM_FIELD_UNAVAILABLE_U32 \<Longrightarrow>
     store_field DCGM_FI_DEV_LAST_XID v out = out\<lparr>d_xid_last_code := read_u32 v\<rparr>"
  "d_pcie_replay out = DCGM_FIELD_UNAVAILABLE_U64 \<Longrightarrow>
     store_field DCGM_FI_DEV_PCIE_REPLAY_COUNTER v out = out\<lparr>d_pcie_replay := read_u64 v\<rparr>"
  "d_row_remap_failures out = DCGM_FIELD_UNAVAILABLE_U32 \<Longrightarrow>
     store_field DCGM_FI_DEV_ROW_REMAP_FAILURE v out = out\<lparr>d_row_remap_failures := read_u32 v\<rparr>"
  "d_power_w out = DCGM_FIELD_UNAVAILABLE_DBL \<Longrightarrow>
     store_field DCGM_FI_DEV_POWER_USAGE v out = out\<lparr>d_power_w := read_power v\<rparr>"
  "d_energy_j out = DCGM_FIELD_UNAVAILABLE_DBL \<Longrightarrow>
     store_field DCGM_FI_DEV_TOTAL_ENERGY_CONSUMPTION v out = out\<lparr>d_energy_j := read_milli v\<rparr>"
  "d_mem_bw_util_pct out = DCGM_FIELD_UNAVAILABLE_DBL \<Longrightarrow>
     store_field DCGM_FI_DEV_MEM_COPY_UTIL v out = out\<lparr>d_mem_bw_util_pct := read_percent v\<rparr>"
  by (cases out; auto simp: store_field_def read_defs u32_field_def u64_field_def DCGM_INT64_BLANK_def)+

lemma dcgm_poll_fields:
  assumes "GetLatestValues vt (map_option (\<lambda>u. u h) (UpdateAllFields vt)) h gpu (map field_id POLL_FIELDS) =
      (0, [v0, v1, v2, v3, v4, v5, v6, v7, v8, v9, v10, v11])"
  shows "dcgm_poll vt h gpu = Some
    \<lparr>d_power_w = read_power v0, d_energy_j = read_milli v1, d_mem_bw_util_pct = read_percent v2,
     d_power_violation_us = read_u64 v3, d_thermal_violation_us = read_u64 v4, d_nvlink_replay = read_u64 v6,
     d_nvlink_recovery = read_u64 v7, d_nvlink_crc = read_u64 v5, d_xid_count = read_u64 v8,
     d_xid_last_code = read_u32 v9, d_pcie_replay = read_u64 v10, d_row_remap_failures = read_u32 v11\<rparr>"
  using assms by (simp add: dcgm_poll_def POLL_FIELDS_def unavailable_fields_def store_field_reads)

text \<open>Each of the twelve polled metrics is read from its own value alone, by position in the
  subscription list: its value when the status is OK and the content is not a blank marker, with
  milliwatts and millijoules scaled, else the unavailable sentinel. A failed field never disturbs
  another one.\<close>

theorem dcgm_poll_reads_each_field:
  assumes "GetLatestValues vt (map_option (\<lambda>update. update h) (UpdateAllFields vt)) h gpu (map field_id POLL_FIELDS) =
      (0, [v0, v1, v2, v3, v4, v5, v6, v7, v8, v9, v10, v11])"
  shows "dcgm_poll vt h gpu = Some
    \<lparr>d_power_w = read_power v0, d_energy_j = read_milli v1, d_mem_bw_util_pct = read_percent v2,
     d_power_violation_us = read_u64 v3, d_thermal_violation_us = read_u64 v4, d_nvlink_replay = read_u64 v6,
     d_nvlink_recovery = read_u64 v7, d_nvlink_crc = read_u64 v5, d_xid_count = read_u64 v8,
     d_xid_last_code = read_u32 v9, d_pcie_replay = read_u64 v10, d_row_remap_failures = read_u32 v11\<rparr>"
  by (rule dcgm_poll_fields [OF assms])

definition demo_value :: "int \<Rightarrow> int \<Rightarrow> dcgm_field_value_t" where
  "demo_value st n = \<lparr>fieldType = DCGM_FT_INT64, status = st, bits = word_of_int n\<rparr>"

definition demo_values :: "dcgm_field_value_t list" where
  "demo_values = [demo_value 0 250000, demo_value 0 9000, demo_value 0 40, demo_value 0 7, demo_value (- 6) 8,
     demo_value 0 1, demo_value 0 2, demo_value 0 3, demo_value 0 4, demo_value 0 79, demo_value 0 5, demo_value 0 6]"

definition demo_dcgm :: dcgm_vtable_t where
  "demo_dcgm = \<lparr>dcgm_Init = 0, dcgm_Connect = (\<lambda>_. (0, 11)), GroupCreate = (\<lambda>_. (0, 22)),
     GroupAddDevice = (\<lambda>_ _ g. if g < 2 then 0 else - 1), FieldGroupCreate = (\<lambda>_ _. (0, 33)), WatchFields = (\<lambda>_ _ _. 0),
     UpdateAllFields = None, GetLatestValues = (\<lambda>_ _ _ _. (0, demo_values))\<rparr>"

theorem dcgm_poll_reads_each_field_witness:
  "\<exists>out. dcgm_poll demo_dcgm 11 0 = Some out \<and> d_thermal_violation_us out = DCGM_FIELD_UNAVAILABLE_U64 \<and>
     d_nvlink_crc out = 1 \<and> d_xid_last_code out = 79"
proof -
  have "GetLatestValues demo_dcgm (map_option (\<lambda>u. u 11) (UpdateAllFields demo_dcgm)) 11 0 (map field_id POLL_FIELDS) =
      (0, demo_values)"
    by (simp add: demo_dcgm_def)
  from dcgm_poll_reads_each_field [OF this [unfolded demo_values_def]] show ?thesis
    by (simp add: demo_value_def read_u64_def read_u32_def i64_valid_def i64_def DCGM_INT64_BLANK_def)
qed

theorem dcgm_setup_cleans_up_witness:
  "\<exists>tr. dcgm_setup demo_dcgm [0, 5] = (tr, - 1, 11) \<and> dcgm_Init demo_dcgm = 0 \<and>
     (\<exists>evs. tr = [EvInit, EvConnect 11] @ evs @ [EvDisconnect 11, EvShutdown])"
proof -
  have s: "dcgm_setup demo_dcgm [0, 5] = ([EvInit, EvConnect 11, EvGroup 22, EvAdd 22 0, EvAdd 22 5, EvDisconnect 11, EvShutdown], - 1, 11)"
    by (simp add: dcgm_setup_def demo_dcgm_def)
  have "dcgm_Init demo_dcgm = 0" "fst (dcgm_Connect demo_dcgm ''127.0.0.1'') = 0" by (simp_all add: demo_dcgm_def)
  with dcgm_setup_cleans_up [OF s] s show ?thesis by auto
qed

section \<open>Merging into the state\<close>

lemma apply_dcgm_keeps:
  "st_pcie_link_gen_max (apply_dcgm_state t d) = st_pcie_link_gen_max t"
  "st_pcie_link_width_max (apply_dcgm_state t d) = st_pcie_link_width_max t"
  "st_pcie_link_gen (apply_dcgm_state t d) = st_pcie_link_gen t"
  "st_pcie_link_width (apply_dcgm_state t d) = st_pcie_link_width t"
  "st_retired_pages_dbe (apply_dcgm_state t d) = st_retired_pages_dbe t"
  by (simp_all add: apply_dcgm_state_def Let_def)

lemma apply_unavailable: "apply_dcgm_state t unavailable_fields = t"
  by (simp add: apply_dcgm_state_def unavailable_fields_def Let_def)

lemma store_field_failed: "status v \<noteq> 0 \<Longrightarrow> store_field f v out = out"
  by (simp add: store_field_def)

lemma fold_store_failed: "list_all (\<lambda>v. status v \<noteq> 0) vs \<Longrightarrow>
    fold (\<lambda>(f, v) out. store_field f v out) (zip fs vs) out = out"
proof (induction vs arbitrary: fs out)
  case (Cons v vs)
  then show ?case by (cases fs) (simp_all add: store_field_failed)
qed simp

text \<open>A daemon cycle in which every field fails changes nothing: the poll returns the sentinels,
  and merging sentinels leaves every driver-sourced value of the state as it was. The merge never
  touches the link limits or the retired page counts.\<close>

theorem dcgm_failed_cycle_keeps_state:
  assumes "GetLatestValues vt (map_option (\<lambda>update. update h) (UpdateAllFields vt)) h gpu (map field_id POLL_FIELDS) =
      (0, values)" "list_all (\<lambda>v. status v \<noteq> 0) values"
  shows "dcgm_poll vt h gpu = Some unavailable_fields \<and> apply_dcgm_state t unavailable_fields = t \<and>
    st_pcie_link_gen_max (apply_dcgm_state t d) = st_pcie_link_gen_max t \<and>
    st_retired_pages_dbe (apply_dcgm_state t d) = st_retired_pages_dbe t"
  using assms by (simp add: dcgm_poll_def fold_store_failed apply_unavailable apply_dcgm_keeps)

theorem dcgm_failed_cycle_keeps_state_witness:
  "dcgm_poll (demo_dcgm\<lparr>GetLatestValues := (\<lambda>_ _ _ _. (0, replicate 12 (demo_value (- 14) 1)))\<rparr>) 11 0 = Some unavailable_fields"
  using dcgm_failed_cycle_keeps_state [of "demo_dcgm\<lparr>GetLatestValues := (\<lambda>_ _ _ _. (0, replicate 12 (demo_value (- 14) 1)))\<rparr>" 11 0
      "replicate 12 (demo_value (- 14) 1)" zero_state unavailable_fields]
  by (simp add: demo_value_def list_all_iff)

end
