(* ===== verification/Util.thy ===== *)
theory Util
  imports Types
begin

text \<open>
  The helpers of \<^verbatim>\<open>src/util.c\<close> and the parts of the C library they call. A C string is the list of
  its characters without the terminating NUL. The \<open>strto*\<close> functions return the value, the rest
  of the string when a number was read (\<open>None\<close> when \<open>end == s\<close>), and whether \<open>errno\<close> was set. A
  parse function returns \<open>None\<close> for \<open>-1\<close>. Negative zero is not distinguished from zero.
\<close>

section \<open>Characters and strings\<close>

definition ccode :: "char \<Rightarrow> nat" where
  "ccode c = of_char c"

definition isspace :: "char \<Rightarrow> bool" where
  "isspace c \<longleftrightarrow> ccode c = 32 \<or> 9 \<le> ccode c \<and> ccode c \<le> 13"

definition isdigit :: "char \<Rightarrow> bool" where
  "isdigit c \<longleftrightarrow> 48 \<le> ccode c \<and> ccode c \<le> 57"

definition toupper :: "char \<Rightarrow> char" where
  "toupper c = (if 97 \<le> ccode c \<and> ccode c \<le> 122 then char_of (ccode c - 32) else c)"

definition tolower :: "char \<Rightarrow> char" where
  "tolower c = (if 65 \<le> ccode c \<and> ccode c \<le> 90 then char_of (ccode c + 32) else c)"

definition strcasecmp_eq :: "string \<Rightarrow> string \<Rightarrow> bool" where
  "strcasecmp_eq s t \<longleftrightarrow> map tolower s = map tolower t"

text \<open>The string in a buffer ends at the first NUL.\<close>

definition c_str :: "string \<Rightarrow> string" where
  "c_str s = takeWhile (\<lambda>c. ccode c \<noteq> 0) s"

definition safe_strncpy :: "string \<Rightarrow> string \<Rightarrow> nat \<Rightarrow> string" where
  "safe_strncpy dst src sz = (if sz = 0 then dst else take (sz - 1) src)"

definition str_trim :: "string \<Rightarrow> string" where
  "str_trim s =
     (let s1 = dropWhile isspace s
      in if s1 = [] then s1 else rev (dropWhile isspace (rev s1)))"

text \<open>
  \<open>fgets\<close> with a buffer of \<open>sz\<close> bytes: at most \<open>sz - 1\<close> characters, up to and including a
  newline. \<open>fgets_lines\<close> is what a \<open>while (fgets(...))\<close> loop sees of a file.
\<close>

fun fgets :: "nat \<Rightarrow> string \<Rightarrow> string \<times> string" where
  "fgets 0 s = ([], s)"
| "fgets (Suc n) [] = ([], [])"
| "fgets (Suc n) (c # s) =
     (if ccode c = 10 then ([c], s) else let (l, r) = fgets n s in (c # l, r))"

lemma fgets_append: "fgets n s = (l, r) \<Longrightarrow> l @ r = s"
  by (induction n s arbitrary: l r rule: fgets.induct) (auto split: if_splits prod.splits)

lemma fgets_progress: "fgets (Suc n) (c # s) = (l, r) \<Longrightarrow> l \<noteq> []"
  by (auto split: if_splits prod.splits)

function fgets_lines :: "nat \<Rightarrow> string \<Rightarrow> string list" where
  "fgets_lines sz s =
     (if s = [] \<or> sz < 2 then []
      else let (l, r) = fgets (sz - 1) s in l # fgets_lines sz r)"
  by pat_completeness auto
termination
proof (relation "measure (\<lambda>(sz, s). length s)")
  fix sz :: nat and s l r :: string and x
  assume *: "\<not> (s = [] \<or> sz < 2)" "x = fgets (sz - 1) s" "(l, r) = x"
  then obtain c s' n where s: "s = c # s'" "sz - 1 = Suc n" by (cases s; cases "sz - 1") auto
  then have "l @ r = s" "l \<noteq> []" using * fgets_append [of "sz - 1" s l r] fgets_progress [of n c s' l r] by auto
  then show "((sz, r), sz, s) \<in> measure (\<lambda>(sz, s). length s)" by (auto simp: in_measure)
qed simp

declare fgets_lines.simps [simp del]

section \<open>Numbers in text\<close>

definition digit_val :: "char \<Rightarrow> int" where
  "digit_val c = int (ccode c) - 48"

definition digits_val :: "string \<Rightarrow> int" where
  "digits_val ds = foldl (\<lambda>v c. v * 10 + digit_val c) 0 ds"

fun take_sign :: "string \<Rightarrow> bool \<times> string" where
  "take_sign (c # s) = (if c = CHR ''-'' then (True, s) else if c = CHR ''+'' then (False, s) else (False, c # s))"
| "take_sign [] = (False, [])"

definition strtol :: "string \<Rightarrow> int \<times> string option \<times> bool" where
  "strtol s =
     (let (neg, r) = take_sign (dropWhile isspace s);
          ds = takeWhile isdigit r;
          v = (if neg then - digits_val ds else digits_val ds)
      in if ds = [] then (0, None, False)
         else if v < - (2 ^ 63) then (- (2 ^ 63), Some (dropWhile isdigit r), True)
         else if 2 ^ 63 - 1 < v then (2 ^ 63 - 1, Some (dropWhile isdigit r), True)
         else (v, Some (dropWhile isdigit r), False))"

text \<open>\<open>strtoull\<close> negates modulo \<open>2 ^ 64\<close> when the number has a minus sign.\<close>

definition strtoull :: "string \<Rightarrow> u64 \<times> string option \<times> bool" where
  "strtoull s =
     (let (neg, r) = take_sign (dropWhile isspace s);
          ds = takeWhile isdigit r
      in if ds = [] then (0, None, False)
         else if 2 ^ 64 - 1 < digits_val ds then (- 1, Some (dropWhile isdigit r), True)
         else (word_of_int (if neg then - digits_val ds else digits_val ds), Some (dropWhile isdigit r), False))"

definition hex_val :: "char \<Rightarrow> int" where
  "hex_val c = (let n = int (ccode (tolower c)) in if isdigit c then n - 48 else n - 87)"

definition isxdigit :: "char \<Rightarrow> bool" where
  "isxdigit c \<longleftrightarrow> isdigit c \<or> 97 \<le> ccode (tolower c) \<and> ccode (tolower c) \<le> 102"

text \<open>An exponent is read only when digits follow the letter and its sign.\<close>

definition strtod_exp :: "char \<Rightarrow> string \<Rightarrow> int \<times> string" where
  "strtod_exp letter s =
     (case s of
        c # s1 \<Rightarrow>
          if tolower c = letter then
            let (neg, r) = take_sign s1; ds = takeWhile isdigit r
            in if ds = [] then (0, s) else (if neg then - digits_val ds else digits_val ds, dropWhile isdigit r)
          else (0, s)
      | [] \<Rightarrow> (0, s))"

definition split_fraction :: "(char \<Rightarrow> bool) \<Rightarrow> string \<Rightarrow> string \<times> string \<times> string" where
  "split_fraction isd s =
     (let ip = takeWhile isd s; r = dropWhile isd s
      in case r of
           c # r1 \<Rightarrow> if c = CHR ''.'' then (ip, takeWhile isd r1, dropWhile isd r1) else (ip, [], r)
         | [] \<Rightarrow> (ip, [], r))"

definition strtod_decimal :: "string \<Rightarrow> (rat \<times> string) option" where
  "strtod_decimal s =
     (let (ip, fp, r) = split_fraction isdigit s; (e, r1) = strtod_exp CHR ''e'' r
      in if ip @ fp = [] then None
         else Some (of_int (digits_val (ip @ fp)) * 10 powi (e - int (length fp)), r1))"

definition strtod_hex :: "string \<Rightarrow> (rat \<times> string) option" where
  "strtod_hex s =
     (let (ip, fp, r) = split_fraction isxdigit s; (e, r1) = strtod_exp CHR ''p'' r
      in if ip @ fp = [] then None
         else Some (of_int (foldl (\<lambda>v c. v * 16 + hex_val c) 0 (ip @ fp)) * 2 powi (e - 4 * int (length fp)), r1))"

definition starts_nocase :: "string \<Rightarrow> string \<Rightarrow> bool" where
  "starts_nocase p s \<longleftrightarrow> map tolower (take (length p) s) = p"

text \<open>After \<open>nan\<close> an optional parenthesised sequence of letters, digits and underscores.\<close>

definition nan_rest :: "string \<Rightarrow> string" where
  "nan_rest s =
     (case s of
        c # s1 \<Rightarrow>
          let r = dropWhile (\<lambda>c. isdigit c \<or> 97 \<le> ccode (tolower c) \<and> ccode (tolower c) \<le> 122 \<or> c = CHR ''_'') s1
          in if c = CHR ''('' \<and> r \<noteq> [] \<and> hd r = CHR '')'' then tl r else s
      | [] \<Rightarrow> s)"

text \<open>
  The correctly rounded value, with \<open>ERANGE\<close> on overflow and on an inexact result that is tiny
  after rounding.
\<close>

definition tiny :: "rat \<Rightarrow> bool" where
  "tiny q \<longleftrightarrow> q \<noteq> 0 \<and>
     (let e = ilog2 \<bar>q\<bar> - 52 in of_int (round_half_even (\<bar>q\<bar> / 2 powi e)) * 2 powi e < (2 powi (- 1022) :: rat))"

definition strtod_round :: "rat \<Rightarrow> double \<times> bool" where
  "strtod_round q =
     (case fl q of Fin r \<Rightarrow> (Fin r, r \<noteq> q \<and> tiny q) | d \<Rightarrow> (d, True))"

definition strtod :: "string \<Rightarrow> double \<times> string option \<times> bool" where
  "strtod s =
     (let (neg, r) = take_sign (dropWhile isspace s);
          number = (\<lambda>(q, rest). let (d, er) = strtod_round (if neg then - q else q) in (d, Some rest, er))
      in if starts_nocase ''infinity'' r then (Inf neg, Some (drop 8 r), False)
         else if starts_nocase ''inf'' r then (Inf neg, Some (drop 3 r), False)
         else if starts_nocase ''nan'' r then (NaN, Some (nan_rest (drop 3 r)), False)
         else case (if starts_nocase ''0x'' r then strtod_hex (drop 2 r) else None) of
           Some x \<Rightarrow> number x
         | None \<Rightarrow> (case strtod_decimal r of Some x \<Rightarrow> number x | None \<Rightarrow> (Fin 0, None, False)))"

section \<open>The parse functions\<close>

definition parse_uint64 :: "string \<Rightarrow> u64 \<Rightarrow> u64 \<Rightarrow> u64 option" where
  "parse_uint64 s lo hi =
     (if s = [] then None
      else case strtoull s of (v, endp, er) \<Rightarrow>
        if er \<or> endp = None \<or> endp \<noteq> Some [] then None
        else if v < lo \<or> v > hi then None
        else Some v)"

definition parse_int :: "string \<Rightarrow> int \<Rightarrow> int \<Rightarrow> int option" where
  "parse_int s lo hi =
     (if s = [] then None
      else case strtol s of (v, endp, er) \<Rightarrow>
        if er \<or> endp = None \<or> endp \<noteq> Some [] then None
        else if v < lo \<or> v > hi then None
        else Some v)"

definition parse_double :: "string \<Rightarrow> double \<Rightarrow> double \<Rightarrow> double option" where
  "parse_double s lo hi =
     (if s = [] then None
      else case strtod s of (v, endp, er) \<Rightarrow>
        if er \<or> endp = None \<or> endp \<noteq> Some [] then None
        else if dlt v lo \<or> dlt hi v then None
        else Some v)"

section \<open>Logging and time\<close>

datatype log_level_t = LOG_DEBUG | LOG_INFO | LOG_WARN | LOG_ERROR

fun log_level_code :: "log_level_t \<Rightarrow> int" where
  "log_level_code LOG_DEBUG = 0"
| "log_level_code LOG_INFO = 1"
| "log_level_code LOG_WARN = 2"
| "log_level_code LOG_ERROR = 3"

definition log_init :: "string option \<Rightarrow> log_level_t \<Rightarrow> log_level_t" where
  "log_init env g_log_level =
     (case env of
        None \<Rightarrow> g_log_level
      | Some e \<Rightarrow>
          if strcasecmp_eq e ''debug'' then LOG_DEBUG
          else if strcasecmp_eq e ''info'' then LOG_INFO
          else if strcasecmp_eq e ''warn'' then LOG_WARN
          else if strcasecmp_eq e ''error'' then LOG_ERROR
          else g_log_level)"

text \<open>Whether \<open>log_msg\<close> writes a line.\<close>

definition log_emits :: "log_level_t \<Rightarrow> log_level_t \<Rightarrow> bool" where
  "log_emits level g_log_level \<longleftrightarrow> \<not> log_level_code level < log_level_code g_log_level"

text \<open>The clocks are the \<open>timespec\<close> the kernel returns.\<close>

definition time_now_ms :: "int \<Rightarrow> int \<Rightarrow> u64" where
  "time_now_ms tv_sec tv_nsec = word_of_int tv_sec * 1000 + word_of_int (c_div tv_nsec 1000000)"

definition time_now_s :: "int \<Rightarrow> int \<Rightarrow> u64" where
  "time_now_s tv_sec tv_nsec = word_of_int tv_sec"

section \<open>Printing integers\<close>

text \<open>\<open>printf\<close> with \<open>%d\<close> and \<open>%u\<close>.\<close>

fun fmt_u :: "nat \<Rightarrow> string" where
  "fmt_u n = (if n < 10 then [char_of (48 + n)] else fmt_u (n div 10) @ [char_of (48 + n mod 10)])"

declare fmt_u.simps [simp del]

definition fmt_d :: "int \<Rightarrow> string" where
  "fmt_d n = (if n < 0 then CHR ''-'' # fmt_u (nat (- n)) else fmt_u (nat n))"

section \<open>Trimming and copying\<close>

lemma str_trim_ends:
  assumes "str_trim s \<noteq> []"
  shows "\<not> isspace (hd (str_trim s)) \<and> \<not> isspace (last (str_trim s))"
proof -
  let ?t = "dropWhile isspace s"
  have t: "?t \<noteq> []" using assms by (cases "?t = []") (simp_all add: str_trim_def)
  from hd_dropWhile [OF this] t obtain c u where cu: "?t = c # u" "\<not> isspace c" by (cases ?t) auto
  have trim: "str_trim s = rev (dropWhile isspace (rev u @ [c]))" using cu by (simp add: str_trim_def)
  have "dropWhile isspace (rev u @ [c]) = dropWhile isspace (rev u) @ [c]"
    using cu(2) by (simp add: dropWhile_append)
  with trim have "str_trim s = c # rev (dropWhile isspace (rev u))" by simp
  moreover have "\<not> isspace (last (str_trim s))"
    unfolding trim last_rev by (rule hd_dropWhile) (use cu(2) in simp)
  ultimately show ?thesis using cu(2) by simp
qed

lemma length_str_trim: "length (str_trim s) \<le> length s"
  using length_dropWhile_le [of isspace "rev (dropWhile isspace s)"] length_dropWhile_le [of isspace s]
  unfolding str_trim_def Let_def by (auto simp del: length_dropWhile_le)

lemma length_safe_strncpy: "0 < sz \<Longrightarrow> length (safe_strncpy dst src sz) < sz"
  by (simp add: safe_strncpy_def)

lemma safe_strncpy_fits: "length src < sz \<Longrightarrow> safe_strncpy dst src sz = src"
  by (auto simp: safe_strncpy_def)

lemma concat_fgets_lines: "2 \<le> sz \<Longrightarrow> concat (fgets_lines sz s) = s"
proof (induction sz s rule: fgets_lines.induct)
  case (1 sz s)
  then show ?case
    by (subst fgets_lines.simps) (auto split: prod.splits dest: fgets_append)
qed

lemma fgets_length: "fgets n s = (l, r) \<Longrightarrow> length l \<le> n"
  by (induction n s arbitrary: l r rule: fgets.induct) (auto split: if_splits prod.splits)

lemma fgets_lines_length: "l \<in> set (fgets_lines sz s) \<Longrightarrow> length l < sz"
proof (induction sz s rule: fgets_lines.induct)
  case (1 sz s)
  then show ?case
    by (subst (asm) (2) fgets_lines.simps) (fastforce split: if_splits prod.splits dest: fgets_length [OF sym])
qed

section \<open>What the parse functions return\<close>

lemma parse_int_range: "parse_int s lo hi = Some v \<Longrightarrow> lo \<le> v \<and> v \<le> hi"
  by (auto simp: parse_int_def split: if_splits prod.splits)

lemma parse_double_range: "parse_double s lo hi = Some v \<Longrightarrow> \<not> dlt v lo \<and> \<not> dlt hi v"
  by (auto simp: parse_double_def split: if_splits prod.splits)

lemma ccode_char_of [simp]: "n < 256 \<Longrightarrow> ccode (char_of n) = n"
  by (simp add: ccode_def)

lemma fmt_u_digits: "\<forall>c\<in>set (fmt_u n). isdigit c"
  by (induction n rule: fmt_u.induct) (subst fmt_u.simps, auto simp: isdigit_def)

lemma fmt_u_nonempty [simp]: "fmt_u n \<noteq> []"
  by (subst fmt_u.simps) simp

lemma digits_val_fmt_u: "digits_val (fmt_u n) = int n"
proof (induction n rule: fmt_u.induct)
  case (1 n)
  have "int (n div 10) * 10 + int (n mod 10) = int n" by presburger
  with 1 show ?case by (subst fmt_u.simps) (auto simp: digits_val_def digit_val_def)
qed

lemma length_fmt_u: "n < 10 ^ p \<Longrightarrow> 0 < p \<Longrightarrow> length (fmt_u n) \<le> p"
proof (induction n arbitrary: p rule: fmt_u.induct)
  case (1 n)
  show ?case
  proof (cases "n < 10")
    case True
    then show ?thesis using "1.prems" by (subst fmt_u.simps) simp
  next
    case False
    then obtain k where p: "p = Suc (Suc k)" using "1.prems" by (cases p; cases "p - 1") auto
    have "n div 10 < 10 ^ Suc k" using "1.prems"(1) p by (simp add: less_mult_imp_div_less)
    then show ?thesis using "1.IH" [OF False, of "Suc k"] False p by (subst fmt_u.simps) simp
  qed
qed

lemma digit_not_space: "isdigit c \<Longrightarrow> \<not> isspace c"
  by (auto simp: isdigit_def isspace_def)

lemma digit_not_sign: "isdigit c \<Longrightarrow> c \<noteq> CHR ''-'' \<and> c \<noteq> CHR ''+''"
  by (auto simp: isdigit_def ccode_def)

lemma sign_not_space: "\<not> isspace CHR ''-''"
  by (simp add: isspace_def ccode_def)

lemma take_sign_fmt_d: "take_sign (dropWhile isspace (fmt_d n)) = (n < 0, fmt_u (nat \<bar>n\<bar>))"
proof -
  obtain c cs where u: "fmt_u (nat \<bar>n\<bar>) = c # cs" by (cases "fmt_u (nat \<bar>n\<bar>)") auto
  then have "isdigit c" using fmt_u_digits [of "nat \<bar>n\<bar>"] by simp
  then show ?thesis using u digit_not_space [of c] digit_not_sign [of c]
    by (cases "n < 0") (simp_all add: fmt_d_def sign_not_space)
qed

lemma strtol_fmt_d: "\<bar>n\<bar> < 2 ^ 63 \<Longrightarrow> strtol (fmt_d n) = (n, Some [], False)"
  using fmt_u_digits [of "nat \<bar>n\<bar>"]
  by (auto simp: strtol_def take_sign_fmt_d digits_val_fmt_u Let_def takeWhile_eq_all_conv [THEN iffD2]
      dropWhile_eq_Nil_conv [THEN iffD2])

lemma fmt_d_nonempty [simp]: "fmt_d n \<noteq> []"
  by (simp add: fmt_d_def)

text \<open>Round trip: an integer printed by \<open>%d\<close> is read back by \<open>parse_int\<close>.\<close>

lemma parse_int_fmt_d: "\<bar>n\<bar> < 2 ^ 63 \<Longrightarrow> parse_int (fmt_d n) lo hi = (if lo \<le> n \<and> n \<le> hi then Some n else None)"
  by (auto simp: parse_int_def strtol_fmt_d)

lemma parse_uint64_range: "parse_uint64 s lo hi = Some v \<Longrightarrow> lo \<le> v \<and> v \<le> hi"
  by (auto simp: parse_uint64_def split: if_splits prod.splits)

end
