(* ===== verification/Config.thy ===== *)
theory Config
  imports Util
begin

text \<open>
  The configuration, \<^verbatim>\<open>src/config.c\<close>: the table of keys with their ranges, the compiled-in defaults,
  \<open>config_load\<close> (defaults, then the file, then the environment) and \<open>config_validate\<close>. A table
  entry's type tag and offset become the typed selector and update of the record field. The file
  system and the environment are arguments: \<open>fopen\<close> gives the contents of a file that can be
  opened. \<open>None\<close> is the return value \<open>-1\<close>; the log lines are left out.
\<close>

section \<open>The table\<close>

datatype cfg_type_t =
    CFG_INT "gpu_config_t \<Rightarrow> int" "(int \<Rightarrow> int) \<Rightarrow> gpu_config_t \<Rightarrow> gpu_config_t"
  | CFG_DBL "gpu_config_t \<Rightarrow> double" "(double \<Rightarrow> double) \<Rightarrow> gpu_config_t \<Rightarrow> gpu_config_t"
  | CFG_STR "gpu_config_t \<Rightarrow> string" "(string \<Rightarrow> string) \<Rightarrow> gpu_config_t \<Rightarrow> gpu_config_t"

record cfg_entry_t =
  key :: string
  type :: cfg_type_t
  emin :: double
  emax :: double
  maxlen :: nat

definition cfg_entry :: "string \<Rightarrow> cfg_type_t \<Rightarrow> double \<Rightarrow> double \<Rightarrow> nat \<Rightarrow> cfg_entry_t" where
  "cfg_entry k t lo hi n = \<lparr>key = k, type = t, emin = lo, emax = hi, maxlen = n\<rparr>"

definition cfg_table :: "cfg_entry_t list" where
  "cfg_table = [
     cfg_entry ''state_dir'' (CFG_STR state_dir state_dir_update) (Fin 0) (Fin 0) 256,
     cfg_entry ''baseline_dir'' (CFG_STR baseline_dir baseline_dir_update) (Fin 0) (Fin 0) 256,
     cfg_entry ''listen_addr'' (CFG_STR listen_addr listen_addr_update) (Fin 0) (Fin 0) 64,
     cfg_entry ''listen_port'' (CFG_INT listen_port listen_port_update) (Fin 1) (Fin 65535) 0,
     cfg_entry ''poll_interval_s'' (CFG_INT poll_interval_s poll_interval_s_update) (Fin 1) (Fin 60) 0,
     cfg_entry ''window_s'' (CFG_INT window_s window_s_update) (Fin 60) (Fin 3600) 0,
     cfg_entry ''state_write_interval_s'' (CFG_INT state_write_interval_s state_write_interval_s_update) (Fin 1) (Fin 3600) 0,
     cfg_entry ''min_sample_ratio'' (CFG_DBL min_sample_ratio min_sample_ratio_update) (Fin 0) (Fin 1) 0,
     cfg_entry ''max_median_step_s'' (CFG_DBL max_median_step_s max_median_step_s_update) (fl (1/10)) (Fin 30) 0,
     cfg_entry ''min_samples_absolute'' (CFG_INT min_samples_absolute min_samples_absolute_update) (Fin 1) (Fin 1000) 0,
     cfg_entry ''temp_p95_warn_c'' (CFG_DBL temp_p95_warn_c temp_p95_warn_c_update) (Fin 50) (Fin 120) 0,
     cfg_entry ''temp_p95_bad_c'' (CFG_DBL temp_p95_bad_c temp_p95_bad_c_update) (Fin 50) (Fin 120) 0,
     cfg_entry ''hbm_temp_p95_warn_c'' (CFG_DBL hbm_temp_p95_warn_c hbm_temp_p95_warn_c_update) (Fin 50) (Fin 120) 0,
     cfg_entry ''hbm_temp_p95_bad_c'' (CFG_DBL hbm_temp_p95_bad_c hbm_temp_p95_bad_c_update) (Fin 50) (Fin 120) 0,
     cfg_entry ''clk_std_warn_mhz'' (CFG_DBL clk_std_warn_mhz clk_std_warn_mhz_update) (Fin 1) (Fin 1000) 0,
     cfg_entry ''power_high_ratio'' (CFG_DBL power_high_ratio power_high_ratio_update) (fl (1/2)) (Fin 1) 0,
     cfg_entry ''power_penalty_max'' (CFG_DBL power_penalty_max power_penalty_max_update) (Fin 0) (Fin 100) 0,
     cfg_entry ''ecc_sbe_rate_warn_per_hour'' (CFG_DBL ecc_sbe_rate_warn_per_hour ecc_sbe_rate_warn_per_hour_update) (Fin 0) (Fin 1000000000) 0,
     cfg_entry ''ecc_sbe_penalty'' (CFG_DBL ecc_sbe_penalty ecc_sbe_penalty_update) (Fin 0) (Fin 100) 0,
     cfg_entry ''ecc_dbe_penalty'' (CFG_DBL ecc_dbe_penalty ecc_dbe_penalty_update) (Fin 0) (Fin 100) 0,
     cfg_entry ''retired_pages_warn'' (CFG_INT retired_pages_warn retired_pages_warn_update) (Fin 0) (Fin 10000) 0,
     cfg_entry ''retired_pages_bad'' (CFG_INT retired_pages_bad retired_pages_bad_update) (Fin 0) (Fin 10000) 0,
     cfg_entry ''retired_pages_pen_warn'' (CFG_DBL retired_pages_pen_warn retired_pages_pen_warn_update) (Fin 0) (Fin 100) 0,
     cfg_entry ''retired_pages_pen_bad'' (CFG_DBL retired_pages_pen_bad retired_pages_pen_bad_update) (Fin 0) (Fin 100) 0,
     cfg_entry ''row_remap_failure_penalty'' (CFG_DBL row_remap_failure_penalty row_remap_failure_penalty_update) (Fin 0) (Fin 100) 0,
     cfg_entry ''pcie_link_degraded_penalty'' (CFG_DBL pcie_link_degraded_penalty pcie_link_degraded_penalty_update) (Fin 0) (Fin 100) 0,
     cfg_entry ''pcie_width_degraded_penalty'' (CFG_DBL pcie_width_degraded_penalty pcie_width_degraded_penalty_update) (Fin 0) (Fin 100) 0,
     cfg_entry ''perf_drop_warn'' (CFG_DBL perf_drop_warn perf_drop_warn_update) (Fin 0) (Fin 1) 0,
     cfg_entry ''perf_drop_bad'' (CFG_DBL perf_drop_bad perf_drop_bad_update) (Fin 0) (Fin 1) 0,
     cfg_entry ''perf_drop_severe'' (CFG_DBL perf_drop_severe perf_drop_severe_update) (Fin 0) (Fin 1) 0,
     cfg_entry ''perf_drop_pen_warn'' (CFG_DBL perf_drop_pen_warn perf_drop_pen_warn_update) (Fin 0) (Fin 100) 0,
     cfg_entry ''perf_drop_pen_bad'' (CFG_DBL perf_drop_pen_bad perf_drop_pen_bad_update) (Fin 0) (Fin 100) 0,
     cfg_entry ''perf_drop_pen_severe'' (CFG_DBL perf_drop_pen_severe perf_drop_pen_severe_update) (Fin 0) (Fin 100) 0,
     cfg_entry ''probe_interval_s'' (CFG_INT probe_interval_s probe_interval_s_update) (Fin 60) (Fin 604800) 0,
     cfg_entry ''probe_ttl_s'' (CFG_INT probe_ttl_s probe_ttl_s_update) (Fin 60) (Fin 604800) 0,
     cfg_entry ''nvml_timeout_ms'' (CFG_INT nvml_timeout_ms nvml_timeout_ms_update) (Fin 100) (Fin 60000) 0,
     cfg_entry ''nvml_error_threshold'' (CFG_INT nvml_error_threshold nvml_error_threshold_update) (Fin 1) (Fin 1000) 0,
     cfg_entry ''nvml_hard_error_threshold'' (CFG_INT nvml_hard_error_threshold nvml_hard_error_threshold_update) (Fin 1) (Fin 100) 0,
     cfg_entry ''nvml_retry_interval_s'' (CFG_INT nvml_retry_interval_s nvml_retry_interval_s_update) (Fin 1) (Fin 3600) 0,
     cfg_entry ''dcgm_timeout_ms'' (CFG_INT dcgm_timeout_ms dcgm_timeout_ms_update) (Fin 100) (Fin 60000) 0,
     cfg_entry ''dcgm_error_threshold'' (CFG_INT dcgm_error_threshold dcgm_error_threshold_update) (Fin 1) (Fin 1000) 0,
     cfg_entry ''dcgm_retry_interval_s'' (CFG_INT dcgm_retry_interval_s dcgm_retry_interval_s_update) (Fin 1) (Fin 3600) 0,
     cfg_entry ''file_sd_path'' (CFG_STR file_sd_path file_sd_path_update) (Fin 0) (Fin 0) 256,
     cfg_entry ''tls_cert_path'' (CFG_STR tls_cert_path tls_cert_path_update) (Fin 0) (Fin 0) 256,
     cfg_entry ''tls_key_path'' (CFG_STR tls_key_path tls_key_path_update) (Fin 0) (Fin 0) 256]"

definition cfg_defaults :: gpu_config_t where
  "cfg_defaults = \<lparr>
     state_dir = CFG_DEFAULT_STATE_DIR,
     baseline_dir = CFG_DEFAULT_BASELINE_DIR,
     listen_addr = CFG_DEFAULT_LISTEN_ADDR,
     listen_port = CFG_DEFAULT_LISTEN_PORT,
     poll_interval_s = CFG_DEFAULT_POLL_INTERVAL_S,
     window_s = CFG_DEFAULT_WINDOW_S,
     state_write_interval_s = CFG_DEFAULT_STATE_WRITE_INTERVAL_S,
     min_sample_ratio = CFG_DEFAULT_MIN_SAMPLE_RATIO,
     max_median_step_s = CFG_DEFAULT_MAX_MEDIAN_STEP_S,
     min_samples_absolute = CFG_DEFAULT_MIN_SAMPLES_ABSOLUTE,
     temp_p95_warn_c = CFG_DEFAULT_TEMP_P95_WARN_C,
     temp_p95_bad_c = CFG_DEFAULT_TEMP_P95_BAD_C,
     hbm_temp_p95_warn_c = CFG_DEFAULT_HBM_TEMP_P95_WARN_C,
     hbm_temp_p95_bad_c = CFG_DEFAULT_HBM_TEMP_P95_BAD_C,
     clk_std_warn_mhz = CFG_DEFAULT_CLK_STD_WARN_MHZ,
     power_high_ratio = CFG_DEFAULT_POWER_HIGH_RATIO,
     power_penalty_max = CFG_DEFAULT_POWER_PENALTY_MAX,
     ecc_sbe_rate_warn_per_hour = CFG_DEFAULT_ECC_SBE_RATE_WARN,
     ecc_sbe_penalty = CFG_DEFAULT_ECC_SBE_PENALTY,
     ecc_dbe_penalty = CFG_DEFAULT_ECC_DBE_PENALTY,
     retired_pages_warn = CFG_DEFAULT_RETIRED_PAGES_WARN,
     retired_pages_bad = CFG_DEFAULT_RETIRED_PAGES_BAD,
     retired_pages_pen_warn = CFG_DEFAULT_RETIRED_PEN_WARN,
     retired_pages_pen_bad = CFG_DEFAULT_RETIRED_PEN_BAD,
     row_remap_failure_penalty = CFG_DEFAULT_ROW_REMAP_PENALTY,
     pcie_link_degraded_penalty = CFG_DEFAULT_PCIE_GEN_PENALTY,
     pcie_width_degraded_penalty = CFG_DEFAULT_PCIE_WIDTH_PENALTY,
     perf_drop_warn = CFG_DEFAULT_PERF_DROP_WARN,
     perf_drop_bad = CFG_DEFAULT_PERF_DROP_BAD,
     perf_drop_severe = CFG_DEFAULT_PERF_DROP_SEVERE,
     perf_drop_pen_warn = CFG_DEFAULT_PERF_DROP_PEN_WARN,
     perf_drop_pen_bad = CFG_DEFAULT_PERF_DROP_PEN_BAD,
     perf_drop_pen_severe = CFG_DEFAULT_PERF_DROP_PEN_SEVERE,
     probe_interval_s = CFG_DEFAULT_PROBE_INTERVAL_S,
     probe_ttl_s = CFG_DEFAULT_PROBE_TTL_S,
     nvml_timeout_ms = CFG_DEFAULT_NVML_TIMEOUT_MS,
     nvml_error_threshold = CFG_DEFAULT_NVML_ERROR_THRESHOLD,
     nvml_hard_error_threshold = CFG_DEFAULT_NVML_HARD_THRESHOLD,
     nvml_retry_interval_s = CFG_DEFAULT_NVML_RETRY_INTERVAL_S,
     dcgm_timeout_ms = CFG_DEFAULT_DCGM_TIMEOUT_MS,
     dcgm_error_threshold = CFG_DEFAULT_DCGM_ERROR_THRESHOLD,
     dcgm_retry_interval_s = CFG_DEFAULT_DCGM_RETRY_INTERVAL_S,
     file_sd_path = [],
     tls_cert_path = [],
     tls_key_path = []\<rparr>"

section \<open>Lookup and assignment\<close>

definition find_entry :: "string \<Rightarrow> cfg_entry_t option" where
  "find_entry k = find (\<lambda>e. key e = k) cfg_table"

text \<open>The cast \<open>(int)\<close> of a double truncates towards zero.\<close>

fun c_int_of :: "double \<Rightarrow> int" where
  "c_int_of (Fin q) = (if 0 \<le> q then \<lfloor>q\<rfloor> else \<lceil>q\<rceil>)"
| "c_int_of _ = - 2147483648"

definition apply_entry :: "gpu_config_t \<Rightarrow> cfg_entry_t \<Rightarrow> string \<Rightarrow> gpu_config_t option" where
  "apply_entry cfg e val =
     (case type e of
        CFG_INT field field_update \<Rightarrow>
          (case parse_int val (c_int_of (emin e)) (c_int_of (emax e)) of
             None \<Rightarrow> None
           | Some v \<Rightarrow> Some (field_update (\<lambda>_. v) cfg))
      | CFG_DBL field field_update \<Rightarrow>
          (case parse_double val (emin e) (emax e) of
             None \<Rightarrow> None
           | Some v \<Rightarrow> Some (field_update (\<lambda>_. v) cfg))
      | CFG_STR field field_update \<Rightarrow>
          Some (field_update (\<lambda>old. safe_strncpy old val (maxlen e)) cfg))"

definition key_to_envvar :: "string \<Rightarrow> nat \<Rightarrow> string" where
  "key_to_envvar k buflen =
     (let prefix = ''GPU_HEALTH_''; plen = length prefix
      in if buflen \<le> plen then []
         else prefix @ map toupper (take (buflen - 1 - plen) k))"

section \<open>config\_load\<close>

definition is_comment :: "string \<Rightarrow> bool" where
  "is_comment p \<longleftrightarrow> p = [] \<or> hd p = CHR ''#''"

text \<open>The text before and after the first \<open>=\<close>, when there is one.\<close>

definition split_eq :: "string \<Rightarrow> (string \<times> string) option" where
  "split_eq p =
     (let r = dropWhile (\<lambda>c. c \<noteq> CHR ''='') p
      in if r = [] then None else Some (takeWhile (\<lambda>c. c \<noteq> CHR ''='') p, tl r))"

definition config_line :: "gpu_config_t \<Rightarrow> string \<Rightarrow> gpu_config_t option" where
  "config_line cfg line =
     (let p = str_trim (c_str line)
      in if is_comment p then Some cfg
         else case split_eq p of
           None \<Rightarrow> Some cfg
         | Some (k, v) \<Rightarrow>
             (case find_entry (str_trim k) of
                None \<Rightarrow> Some cfg
              | Some e \<Rightarrow> apply_entry cfg e (str_trim v)))"

fun config_file :: "gpu_config_t \<Rightarrow> string list \<Rightarrow> gpu_config_t option" where
  "config_file cfg [] = Some cfg"
| "config_file cfg (line # lines) =
     (case config_line cfg line of None \<Rightarrow> None | Some cfg' \<Rightarrow> config_file cfg' lines)"

fun config_env :: "(string \<Rightarrow> string option) \<Rightarrow> cfg_entry_t list \<Rightarrow> gpu_config_t \<Rightarrow> gpu_config_t option" where
  "config_env getenv [] cfg = Some cfg"
| "config_env getenv (e # es) cfg =
     (case getenv (key_to_envvar (key e) 128) of
        None \<Rightarrow> config_env getenv es cfg
      | Some val \<Rightarrow>
          (case apply_entry cfg e val of None \<Rightarrow> None | Some cfg' \<Rightarrow> config_env getenv es cfg'))"

definition config_load ::
    "(string \<Rightarrow> string option) \<Rightarrow> (string \<Rightarrow> string option) \<Rightarrow> string option \<Rightarrow> gpu_config_t option" where
  "config_load fopen getenv path =
     (let cfg = cfg_defaults;
          after_file =
            (case path of
               None \<Rightarrow> Some cfg
             | Some name \<Rightarrow>
                 (case fopen name of
                    None \<Rightarrow> None
                  | Some content \<Rightarrow> config_file cfg (fgets_lines 1024 content)))
      in case after_file of
           None \<Rightarrow> None
         | Some cfg' \<Rightarrow> config_env getenv cfg_table cfg')"

definition config_validate :: "gpu_config_t \<Rightarrow> bool" where
  "config_validate cfg =
     (if dle (temp_p95_bad_c cfg) (temp_p95_warn_c cfg) then False
      else if dle (hbm_temp_p95_bad_c cfg) (hbm_temp_p95_warn_c cfg) then False
      else if dle (perf_drop_bad cfg) (perf_drop_warn cfg) then False
      else if dle (perf_drop_severe cfg) (perf_drop_bad cfg) then False
      else if retired_pages_warn cfg > retired_pages_bad cfg then False
      else if probe_ttl_s cfg < probe_interval_s cfg then False
      else True)"

section \<open>Fields as slots\<close>

text \<open>
  Every key names one field and every field is named by one key: the values of all entries
  determine the record, and an assignment changes exactly its own entry.
\<close>

datatype cfg_val = VInt int | VDbl double | VStr string

definition cfg_get :: "cfg_entry_t \<Rightarrow> gpu_config_t \<Rightarrow> cfg_val" where
  "cfg_get e cfg = (case type e of
     CFG_INT field _ \<Rightarrow> VInt (field cfg) | CFG_DBL field _ \<Rightarrow> VDbl (field cfg) | CFG_STR field _ \<Rightarrow> VStr (field cfg))"

text \<open>The value an entry reads from a text, if the text is acceptable.\<close>

definition cfg_parse :: "cfg_entry_t \<Rightarrow> string \<Rightarrow> cfg_val option" where
  "cfg_parse e val = (case type e of
     CFG_INT _ _ \<Rightarrow> map_option VInt (parse_int val (c_int_of (emin e)) (c_int_of (emax e)))
   | CFG_DBL _ _ \<Rightarrow> map_option VDbl (parse_double val (emin e) (emax e))
   | CFG_STR _ _ \<Rightarrow> Some (VStr (take (maxlen e - 1) val)))"

definition val_ok :: "cfg_entry_t \<Rightarrow> cfg_val \<Rightarrow> bool" where
  "val_ok e v = (case v of
     VInt i \<Rightarrow> c_int_of (emin e) \<le> i \<and> i \<le> c_int_of (emax e)
   | VDbl d \<Rightarrow> \<not> dlt d (emin e) \<and> \<not> dlt (emax e) d
   | VStr s \<Rightarrow> length s < maxlen e)"

definition cfg_vals :: "gpu_config_t \<Rightarrow> cfg_val list" where
  "cfg_vals cfg = map (\<lambda>e. cfg_get e cfg) cfg_table"

lemmas cfg_vals_unfold = cfg_vals_def [unfolded cfg_table_def cfg_entry_def cfg_get_def, simplified]

definition writes_slot :: "nat \<Rightarrow> cfg_entry_t \<Rightarrow> bool" where
  "writes_slot i e = (case type e of
     CFG_INT field field_update \<Rightarrow> (\<forall>f c. cfg_vals (field_update f c) = (cfg_vals c)[i := VInt (f (field c))])
   | CFG_DBL field field_update \<Rightarrow> (\<forall>f c. cfg_vals (field_update f c) = (cfg_vals c)[i := VDbl (f (field c))])
   | CFG_STR field field_update \<Rightarrow> 0 < maxlen e \<and>
       (\<forall>f c. cfg_vals (field_update f c) = (cfg_vals c)[i := VStr (f (field c))]))"

fun writes_from :: "nat \<Rightarrow> cfg_entry_t list \<Rightarrow> bool" where
  "writes_from i [] = True"
| "writes_from i (e # es) = (writes_slot i e \<and> writes_from (Suc i) es)"

lemma table_slots: "writes_from 0 cfg_table"
  unfolding cfg_table_def by (simp add: writes_slot_def cfg_entry_def cfg_vals_unfold)

lemma writes_from_nth: "writes_from i es \<Longrightarrow> k < length es \<Longrightarrow> writes_slot (i + k) (es ! k)"
proof (induction es arbitrary: i k)
  case (Cons e es)
  then show ?case by (cases k) (auto dest: Cons.IH [of "Suc i" "k - 1"])
qed simp

lemma table_slot: "i < length cfg_table \<Longrightarrow> writes_slot i (cfg_table ! i)"
  using writes_from_nth [OF table_slots, of i] by simp

lemma table_keys_distinct: "distinct (map key cfg_table)"
  by (simp add: cfg_table_def cfg_entry_def)

lemma apply_entry_refuses: "apply_entry cfg e s = None \<longleftrightarrow> cfg_parse e s = None"
  by (auto simp: apply_entry_def cfg_parse_def split: cfg_type_t.splits option.splits)

lemma apply_entry_slot:
  assumes "i < length cfg_table" "apply_entry c (cfg_table ! i) s = Some c'"
  shows "\<exists>v. cfg_parse (cfg_table ! i) s = Some v \<and> cfg_vals c' = (cfg_vals c)[i := v]"
  using assms(2) table_slot [OF assms(1)]
  by (auto simp: apply_entry_def cfg_parse_def writes_slot_def safe_strncpy_def
      split: cfg_type_t.splits option.splits)

lemma length_cfg_vals [simp]: "length (cfg_vals c) = length cfg_table"
  by (simp add: cfg_vals_def)

lemma cfg_get_nth: "i < length cfg_table \<Longrightarrow> cfg_get (cfg_table ! i) c = cfg_vals c ! i"
  by (simp add: cfg_vals_def)

interpretation slots: slot_store "\<lambda>e. e \<in> set cfg_table" apply_entry cfg_get cfg_parse
proof unfold_locales
  fix e c s c' assume e: "e \<in> set cfg_table" and a: "apply_entry c e s = Some c'"
  from e obtain i where i: "i < length cfg_table" "e = cfg_table ! i" by (auto simp: in_set_conv_nth)
  from apply_entry_slot [OF i(1), of c s c'] a i(2)
  obtain v where v: "cfg_parse e s = Some v" "cfg_vals c' = (cfg_vals c)[i := v]" by auto
  then show "cfg_parse e s = Some (cfg_get e c')" using i by (simp add: cfg_get_nth)
  fix e' assume e': "e' \<in> set cfg_table" "e \<noteq> e'"
  then obtain j where j: "j < length cfg_table" "e' = cfg_table ! j" by (auto simp: in_set_conv_nth)
  then have "i \<noteq> j" using e'(2) i(2) by auto
  then show "cfg_get e' c' = cfg_get e' c" using v(2) j by (simp add: cfg_get_nth)
next
  fix e :: cfg_entry_t and c s
  show "apply_entry c e s = None \<longleftrightarrow> cfg_parse e s = None" by (rule apply_entry_refuses)
qed

section \<open>config\_load as a sequence of assignments\<close>

definition line_assign :: "string \<Rightarrow> (cfg_entry_t \<times> string) option" where
  "line_assign line =
     (let p = str_trim (c_str line)
      in if is_comment p then None
         else case split_eq p of
           None \<Rightarrow> None
         | Some (k, v) \<Rightarrow> map_option (\<lambda>e. (e, str_trim v)) (find_entry (str_trim k)))"

definition file_assigns :: "string \<Rightarrow> (cfg_entry_t \<times> string) list" where
  "file_assigns content = List.map_filter line_assign (fgets_lines 1024 content)"

definition env_assigns :: "(string \<Rightarrow> string option) \<Rightarrow> (cfg_entry_t \<times> string) list" where
  "env_assigns getenv =
     List.map_filter (\<lambda>e. map_option (Pair e) (getenv (key_to_envvar (key e) 128))) cfg_table"

lemma config_file_assigns: "config_file cfg lines = assigns apply_entry (List.map_filter line_assign lines) cfg"
proof (induction lines arbitrary: cfg)
  case (Cons l ls)
  then show ?case
    by (auto simp: config_line_def line_assign_def Let_def List.map_filter_simps split: option.splits prod.splits)
qed (simp add: List.map_filter_simps)

lemma config_env_assigns:
  "config_env getenv es cfg =
     assigns apply_entry (List.map_filter (\<lambda>e. map_option (Pair e) (getenv (key_to_envvar (key e) 128))) es) cfg"
  by (induction es arbitrary: cfg) (auto simp: List.map_filter_simps split: option.splits)

lemma config_load_assigns:
  "config_load fopen getenv path =
     (case path of
        None \<Rightarrow> assigns apply_entry (env_assigns getenv) cfg_defaults
      | Some name \<Rightarrow> (case fopen name of None \<Rightarrow> None
          | Some content \<Rightarrow> assigns apply_entry (file_assigns content @ env_assigns getenv) cfg_defaults))"
  by (auto simp: config_load_def config_file_assigns config_env_assigns file_assigns_def env_assigns_def
      assigns_append Let_def split: option.splits)

lemma find_entry_in: "find_entry k = Some e \<Longrightarrow> e \<in> set cfg_table \<and> key e = k"
  by (auto simp: find_entry_def find_Some_iff)

lemma file_assigns_slots: "\<forall>(e, s)\<in>set (file_assigns content). e \<in> set cfg_table"
  by (auto simp: file_assigns_def line_assign_def Let_def map_filter_def dest: find_entry_in split: if_splits option.splits)

lemma env_assigns_slots: "\<forall>(e, s)\<in>set (env_assigns getenv). e \<in> set cfg_table"
  by (auto simp: env_assigns_def map_filter_def)

text \<open>The texts a key is given: its environment variable, and its last line in the file.\<close>

definition env_text :: "(string \<Rightarrow> string option) \<Rightarrow> cfg_entry_t \<Rightarrow> string option" where
  "env_text getenv e = getenv (''GPU_HEALTH_'' @ map toupper (key e))"

definition file_text :: "string \<Rightarrow> cfg_entry_t \<Rightarrow> string option" where
  "file_text content e = map_of (rev (file_assigns content)) e"

text \<open>Every variable name fits the 128-byte buffer.\<close>

lemma table_envnames: "\<forall>e\<in>set cfg_table. key_to_envvar (key e) 128 = ''GPU_HEALTH_'' @ map toupper (key e) \<and>
    length (key_to_envvar (key e) 128) < 128"
  by (simp add: cfg_table_def cfg_entry_def key_to_envvar_def)

lemma map_of_map_filter:
  "distinct es \<Longrightarrow> map_of (rev (List.map_filter (\<lambda>e. map_option (Pair e) (f e)) es)) e = (if e \<in> set es then f e else None)"
proof (induction es)
  case (Cons a es)
  then show ?case by (cases "f a") (auto simp: List.map_filter_simps map_add_def split: option.splits)
qed (simp add: List.map_filter_simps)

lemma env_assigns_text: "e \<in> set cfg_table \<Longrightarrow> map_of (rev (env_assigns getenv)) e = env_text getenv e"
  using table_keys_distinct table_envnames
  by (simp add: env_assigns_def env_text_def map_of_map_filter distinct_map)

section \<open>What a loaded configuration satisfies\<close>

text \<open>
  The texts that count: the environment variable of the key, else its last line in the file. The
  value of the entry is what it reads from that text, else the compiled-in default.
\<close>

definition effective_text :: "(string \<Rightarrow> string option) \<Rightarrow> string option \<Rightarrow> cfg_entry_t \<Rightarrow> string option" where
  "effective_text getenv content e =
     (case env_text getenv e of
        Some s \<Rightarrow> Some s
      | None \<Rightarrow> (case content of None \<Rightarrow> None | Some c \<Rightarrow> file_text c e))"

lemma config_load_value:
  assumes load: "config_load fopen getenv path = Some cfg" and e: "e \<in> set cfg_table"
    and content: "content = (case path of None \<Rightarrow> None | Some name \<Rightarrow> fopen name)"
  shows "Some (cfg_get e cfg) =
    (case effective_text getenv content e of None \<Rightarrow> Some (cfg_get e cfg_defaults) | Some s \<Rightarrow> cfg_parse e s)"
proof -
  define as where "as = (case content of None \<Rightarrow> [] | Some c \<Rightarrow> file_assigns c) @ env_assigns getenv"
  have "assigns apply_entry as cfg_defaults = Some cfg"
    using load content by (auto simp: config_load_assigns as_def split: option.splits)
  moreover have "\<forall>(e', s)\<in>set as. e' \<in> set cfg_table"
    using file_assigns_slots [of "the content"] env_assigns_slots [of getenv]
    by (cases content) (auto simp: as_def)
  ultimately have "Some (cfg_get e cfg) =
    (case map_of (rev as) e of None \<Rightarrow> Some (cfg_get e cfg_defaults) | Some s \<Rightarrow> cfg_parse e s)"
    using slots.get_assigns [OF _ e] by blast
  moreover have "map_of (rev as) e = effective_text getenv content e"
    using env_assigns_text [OF e, of getenv]
    by (auto simp: as_def effective_text_def file_text_def map_add_def split: option.splits)
  ultimately show ?thesis by simp
qed

lemma cfg_parse_ok: "e \<in> set cfg_table \<Longrightarrow> cfg_parse e s = Some v \<Longrightarrow> val_ok e v"
proof -
  assume e: "e \<in> set cfg_table" and v: "cfg_parse e s = Some v"
  from e obtain i where "i < length cfg_table" "e = cfg_table ! i" by (auto simp: in_set_conv_nth)
  from table_slot [OF this(1)] this(2) v show "val_ok e v"
    by (auto simp: cfg_parse_def val_ok_def writes_slot_def dest: parse_int_range parse_double_range
        split: cfg_type_t.splits)
qed

lemma default_doubles:
  "fl (1/10) = Fin (3602879701896397 / 36028797018963968)" "fl (1/2) = Fin (1/2)"
  "fl (4/5) = Fin (3602879701896397 / 4503599627370496)" "fl (5/2) = Fin (5/2)"
  "fl (49/50) = Fin (8827055269646172 / 9007199254740992)"
  "fl (3/100) = Fin (8646911284551352 / 288230376151711744)"
  "fl (7/100) = Fin (5044031582654956 / 72057594037927936)"
  "fl (3/25) = Fin (8646911284551352 / 72057594037927936)"
  by code_simp+

lemma defaults_ok: "\<forall>e\<in>set cfg_table. val_ok e (cfg_get e cfg_defaults)"
  by (simp add: cfg_table_def cfg_entry_def val_ok_def cfg_get_def cfg_defaults_def default_doubles)

lemma config_load_val_ok:
  assumes "config_load fopen getenv path = Some cfg" "e \<in> set cfg_table"
  shows "val_ok e (cfg_get e cfg)"
  using config_load_value [OF assms refl] defaults_ok assms(2) cfg_parse_ok [OF assms(2)]
  by (auto split: option.splits)

definition cfg_in_range :: "gpu_config_t \<Rightarrow> bool" where
  "cfg_in_range cfg \<longleftrightarrow> list_all (\<lambda>e. val_ok e (cfg_get e cfg)) cfg_table"

lemma config_load_in_range: "config_load fopen getenv path = Some cfg \<Longrightarrow> cfg_in_range cfg"
  by (simp add: cfg_in_range_def list_all_iff config_load_val_ok)

lemma cfg_in_range_ints:
  assumes "cfg_in_range cfg"
  shows "1 \<le> poll_interval_s cfg \<and> poll_interval_s cfg \<le> 60" "60 \<le> window_s cfg \<and> window_s cfg \<le> 3600"
    "1 \<le> min_samples_absolute cfg" "1 \<le> listen_port cfg \<and> listen_port cfg \<le> 65535"
    "1 \<le> nvml_error_threshold cfg" "1 \<le> nvml_hard_error_threshold cfg" "1 \<le> dcgm_error_threshold cfg"
    "1 \<le> nvml_retry_interval_s cfg" "1 \<le> dcgm_retry_interval_s cfg"
    "0 \<le> retired_pages_warn cfg \<and> retired_pages_warn cfg \<le> 10000" "0 \<le> retired_pages_bad cfg \<and> retired_pages_bad cfg \<le> 10000"
    "60 \<le> probe_ttl_s cfg \<and> probe_ttl_s cfg \<le> 604800"
    "length (state_dir cfg) < 256" "length (baseline_dir cfg) < 256" "length (listen_addr cfg) < 64"
    "length (file_sd_path cfg) < 256"
  using assms by (simp_all add: cfg_in_range_def cfg_table_def cfg_entry_def val_ok_def cfg_get_def)

text \<open>The ring holds between one and 3600 samples.\<close>

lemma ring_capacity_range:
  assumes "cfg_in_range cfg"
  shows "1 \<le> c_div (window_s cfg) (poll_interval_s cfg) \<and> c_div (window_s cfg) (poll_interval_s cfg) \<le> 3600"
proof -
  note b = cfg_in_range_ints [OF assms]
  have "1 \<le> window_s cfg div poll_interval_s cfg"
    using zdiv_mono1 [of "poll_interval_s cfg" "window_s cfg" "poll_interval_s cfg"] b(1,2) by simp
  moreover have "window_s cfg div poll_interval_s cfg \<le> window_s cfg div 1"
    using b(1,2) by (intro zdiv_mono2) auto
  ultimately show ?thesis using b(1,2) by simp
qed

section \<open>The names of the environment variables, written out\<close>

lemma toupper_keys:
  "toupper CHR ''a'' = CHR ''A''"
  "toupper CHR ''b'' = CHR ''B''"
  "toupper CHR ''c'' = CHR ''C''"
  "toupper CHR ''d'' = CHR ''D''"
  "toupper CHR ''e'' = CHR ''E''"
  "toupper CHR ''f'' = CHR ''F''"
  "toupper CHR ''g'' = CHR ''G''"
  "toupper CHR ''h'' = CHR ''H''"
  "toupper CHR ''i'' = CHR ''I''"
  "toupper CHR ''j'' = CHR ''J''"
  "toupper CHR ''k'' = CHR ''K''"
  "toupper CHR ''l'' = CHR ''L''"
  "toupper CHR ''m'' = CHR ''M''"
  "toupper CHR ''n'' = CHR ''N''"
  "toupper CHR ''o'' = CHR ''O''"
  "toupper CHR ''p'' = CHR ''P''"
  "toupper CHR ''q'' = CHR ''Q''"
  "toupper CHR ''r'' = CHR ''R''"
  "toupper CHR ''s'' = CHR ''S''"
  "toupper CHR ''t'' = CHR ''T''"
  "toupper CHR ''u'' = CHR ''U''"
  "toupper CHR ''v'' = CHR ''V''"
  "toupper CHR ''w'' = CHR ''W''"
  "toupper CHR ''x'' = CHR ''X''"
  "toupper CHR ''y'' = CHR ''Y''"
  "toupper CHR ''z'' = CHR ''Z''"
  "toupper CHR ''_'' = CHR ''_''"
  "toupper CHR ''0'' = CHR ''0''"
  "toupper CHR ''1'' = CHR ''1''"
  "toupper CHR ''2'' = CHR ''2''"
  "toupper CHR ''3'' = CHR ''3''"
  "toupper CHR ''4'' = CHR ''4''"
  "toupper CHR ''5'' = CHR ''5''"
  "toupper CHR ''6'' = CHR ''6''"
  "toupper CHR ''7'' = CHR ''7''"
  "toupper CHR ''8'' = CHR ''8''"
  "toupper CHR ''9'' = CHR ''9''"
  by code_simp+

lemma env_names: "map (\<lambda>e. key_to_envvar (key e) 128) cfg_table =
    [''GPU_HEALTH_STATE_DIR'',
     ''GPU_HEALTH_BASELINE_DIR'',
     ''GPU_HEALTH_LISTEN_ADDR'',
     ''GPU_HEALTH_LISTEN_PORT'',
     ''GPU_HEALTH_POLL_INTERVAL_S'',
     ''GPU_HEALTH_WINDOW_S'',
     ''GPU_HEALTH_STATE_WRITE_INTERVAL_S'',
     ''GPU_HEALTH_MIN_SAMPLE_RATIO'',
     ''GPU_HEALTH_MAX_MEDIAN_STEP_S'',
     ''GPU_HEALTH_MIN_SAMPLES_ABSOLUTE'',
     ''GPU_HEALTH_TEMP_P95_WARN_C'',
     ''GPU_HEALTH_TEMP_P95_BAD_C'',
     ''GPU_HEALTH_HBM_TEMP_P95_WARN_C'',
     ''GPU_HEALTH_HBM_TEMP_P95_BAD_C'',
     ''GPU_HEALTH_CLK_STD_WARN_MHZ'',
     ''GPU_HEALTH_POWER_HIGH_RATIO'',
     ''GPU_HEALTH_POWER_PENALTY_MAX'',
     ''GPU_HEALTH_ECC_SBE_RATE_WARN_PER_HOUR'',
     ''GPU_HEALTH_ECC_SBE_PENALTY'',
     ''GPU_HEALTH_ECC_DBE_PENALTY'',
     ''GPU_HEALTH_RETIRED_PAGES_WARN'',
     ''GPU_HEALTH_RETIRED_PAGES_BAD'',
     ''GPU_HEALTH_RETIRED_PAGES_PEN_WARN'',
     ''GPU_HEALTH_RETIRED_PAGES_PEN_BAD'',
     ''GPU_HEALTH_ROW_REMAP_FAILURE_PENALTY'',
     ''GPU_HEALTH_PCIE_LINK_DEGRADED_PENALTY'',
     ''GPU_HEALTH_PCIE_WIDTH_DEGRADED_PENALTY'',
     ''GPU_HEALTH_PERF_DROP_WARN'',
     ''GPU_HEALTH_PERF_DROP_BAD'',
     ''GPU_HEALTH_PERF_DROP_SEVERE'',
     ''GPU_HEALTH_PERF_DROP_PEN_WARN'',
     ''GPU_HEALTH_PERF_DROP_PEN_BAD'',
     ''GPU_HEALTH_PERF_DROP_PEN_SEVERE'',
     ''GPU_HEALTH_PROBE_INTERVAL_S'',
     ''GPU_HEALTH_PROBE_TTL_S'',
     ''GPU_HEALTH_NVML_TIMEOUT_MS'',
     ''GPU_HEALTH_NVML_ERROR_THRESHOLD'',
     ''GPU_HEALTH_NVML_HARD_ERROR_THRESHOLD'',
     ''GPU_HEALTH_NVML_RETRY_INTERVAL_S'',
     ''GPU_HEALTH_DCGM_TIMEOUT_MS'',
     ''GPU_HEALTH_DCGM_ERROR_THRESHOLD'',
     ''GPU_HEALTH_DCGM_RETRY_INTERVAL_S'',
     ''GPU_HEALTH_FILE_SD_PATH'',
     ''GPU_HEALTH_TLS_CERT_PATH'',
     ''GPU_HEALTH_TLS_KEY_PATH'']"
  by (simp add: cfg_table_def cfg_entry_def key_to_envvar_def toupper_keys)

lemma env_names_distinct: "distinct (map (\<lambda>e. key_to_envvar (key e) 128) cfg_table)"
  unfolding env_names by simp

lemma env_assigns_zip:
  "env_assigns getenv = List.map_filter (\<lambda>(e, name). map_option (Pair e) (getenv name))
     (zip cfg_table (map (\<lambda>e. key_to_envvar (key e) 128) cfg_table))"
  by (simp add: env_assigns_def zip_map2 map_filter_def comp_def zip_same_conv_map filter_map)

lemma parse_double_nan: "parse_double ''nan'' lo hi = Some NaN"
proof -
  have "strtod ''nan'' = (NaN, Some [], False)" by code_simp
  then show ?thesis by (simp add: parse_double_def)
qed

end
