(* ===== verification/StateFiles.thy ===== *)
theory StateFiles
  imports Config
begin

text \<open>
  The baseline and probe files, \<^verbatim>\<open>src/state.c\<close>: the ISO 8601 parser with the parts of \<open>strptime\<close> and
  \<open>timegm\<close> it uses, the key/value loops of \<open>baseline_load\<close> and \<open>probe_load\<close> with their validation,
  and the draining of the inotify descriptor. As in the configuration, the file system is the
  argument \<open>fopen\<close> and log lines are left out; the wall clock is an argument.
\<close>

section \<open>Time stamps\<close>

text \<open>A number of at most \<open>n\<close> digits, as \<open>strptime\<close> reads it: leading blanks are skipped, and reading
  stops when another digit would exceed the upper bound.\<close>

fun sp_digits :: "nat \<Rightarrow> int \<Rightarrow> int \<Rightarrow> string \<Rightarrow> int \<times> string" where
  "sp_digits n hi v [] = (v, [])"
| "sp_digits n hi v (c # r) =
     (let v' = v * 10 + digit_val c
      in if 1 < n \<and> v' * 10 \<le> hi \<and> r \<noteq> [] \<and> isdigit (hd r) then sp_digits (n - 1) hi v' r else (v', r))"

definition sp_number :: "int \<Rightarrow> int \<Rightarrow> nat \<Rightarrow> string \<Rightarrow> (int \<times> string) option" where
  "sp_number lo hi n s =
     (let s1 = dropWhile (\<lambda>c. c = CHR '' '') s
      in if s1 = [] \<or> \<not> isdigit (hd s1) then None
         else let (v, r) = sp_digits n hi 0 s1 in if v < lo \<or> hi < v then None else Some (v, r))"

definition sp_char :: "char \<Rightarrow> string \<Rightarrow> string option" where
  "sp_char c s = (case s of x # r \<Rightarrow> if x = c then Some r else None | [] \<Rightarrow> None)"

record tm =
  tm_year :: int
  tm_mon :: int
  tm_mday :: int
  tm_hour :: int
  tm_min :: int
  tm_sec :: int

text \<open>The format \<open>%Y-%m-%dT%H:%M:%SZ\<close>: six numbers, each followed by its separator.\<close>

definition sp_field :: "int \<Rightarrow> int \<Rightarrow> nat \<Rightarrow> char \<Rightarrow> string \<Rightarrow> (int \<times> string) option" where
  "sp_field lo hi n c s =
     (case sp_number lo hi n s of
        None \<Rightarrow> None
      | Some (v, r) \<Rightarrow> (case sp_char c r of None \<Rightarrow> None | Some r' \<Rightarrow> Some (v, r')))"

definition strptime_iso :: "string \<Rightarrow> (tm \<times> string) option" where
  "strptime_iso s =
     (case sp_field 0 9999 4 (CHR ''-'') s of None \<Rightarrow> None | Some (y, s) \<Rightarrow>
     (case sp_field 1 12 2 (CHR ''-'') s of None \<Rightarrow> None | Some (mo, s) \<Rightarrow>
     (case sp_field 1 31 2 (CHR ''T'') s of None \<Rightarrow> None | Some (d, s) \<Rightarrow>
     (case sp_field 0 23 2 (CHR '':'') s of None \<Rightarrow> None | Some (h, s) \<Rightarrow>
     (case sp_field 0 59 2 (CHR '':'') s of None \<Rightarrow> None | Some (mi, s) \<Rightarrow>
     (case sp_field 0 61 2 (CHR ''Z'') s of None \<Rightarrow> None | Some (se, s) \<Rightarrow>
        Some (\<lparr>tm_year = y - 1900, tm_mon = mo - 1, tm_mday = d, tm_hour = h, tm_min = mi, tm_sec = se\<rparr>, s)))))))"

definition is_leap :: "int \<Rightarrow> bool" where
  "is_leap y \<longleftrightarrow> y mod 4 = 0 \<and> (y mod 100 \<noteq> 0 \<or> y mod 400 = 0)"

definition days_before_year :: "int \<Rightarrow> int" where
  "days_before_year y = 365 * (y - 1) + (y - 1) div 4 - (y - 1) div 100 + (y - 1) div 400"

definition days_before_month :: "bool \<Rightarrow> int \<Rightarrow> int" where
  "days_before_month leap mon =
     [0, 31, 59, 90, 120, 151, 181, 212, 243, 273, 304, 334] ! nat mon + (if leap \<and> 1 < mon then 1 else 0)"

definition timegm :: "tm \<Rightarrow> int" where
  "timegm t =
     (let y = tm_year t + 1900;
          days = days_before_year y - days_before_year 1970 + days_before_month (is_leap y) (tm_mon t) + tm_mday t - 1
      in ((days * 24 + tm_hour t) * 60 + tm_min t) * 60 + tm_sec t)"

definition parse_iso8601 :: "string \<Rightarrow> u64" where
  "parse_iso8601 s =
     (case strptime_iso s of
        None \<Rightarrow> 0
      | Some (t, rest) \<Rightarrow>
          if rest \<noteq> [] then 0 else if timegm t = - 1 then 0 else word_of_int (timegm t))"

section \<open>Key and value lines\<close>

definition split_kv :: "string \<Rightarrow> (string \<times> string) option" where
  "split_kv line =
     (let p = str_trim (c_str line)
      in if is_comment p then None
         else case split_eq p of None \<Rightarrow> None | Some (k, v) \<Rightarrow> Some (str_trim k, str_trim v))"

section \<open>baseline\_load\<close>

record bl_parse =
  bp_out :: gpu_baseline_t
  bp_has_serial :: bool
  bp_has_perf_w :: bool
  bp_has_established :: bool
  bp_has_workload :: bool
  bp_has_sample_count :: bool
  bp_error :: bool

definition baseline_key :: "bl_parse \<Rightarrow> string \<Rightarrow> string \<Rightarrow> bl_parse" where
  "baseline_key p k val =
     (let out = bp_out p in
      if k = ''serial'' then p\<lparr>bp_out := out\<lparr>bl_serial := safe_strncpy (bl_serial out) val 32\<rparr>, bp_has_serial := True\<rparr>
      else if k = ''uuid'' then p\<lparr>bp_out := out\<lparr>bl_uuid := safe_strncpy (bl_uuid out) val 48\<rparr>\<rparr>
      else if k = ''driver_version''
      then p\<lparr>bp_out := out\<lparr>bl_driver_version := safe_strncpy (bl_driver_version out) val 64\<rparr>\<rparr>
      else if k = ''perf_w_mean'' then
        (case parse_double val (Fin 0) (Fin 1000000000) of
           None \<Rightarrow> p\<lparr>bp_error := True\<rparr>
         | Some d \<Rightarrow> p\<lparr>bp_out := out\<lparr>bl_perf_w_mean := d\<rparr>, bp_has_perf_w := True\<rparr>)
      else if k = ''established_at'' then
        (let t = parse_iso8601 val; p1 = p\<lparr>bp_out := out\<lparr>bl_established_at_s := t\<rparr>\<rparr>
         in if t = 0 then p1\<lparr>bp_error := True\<rparr> else p1\<lparr>bp_has_established := True\<rparr>)
      else if k = ''workload''
      then p\<lparr>bp_out := out\<lparr>bl_workload := safe_strncpy (bl_workload out) val 128\<rparr>, bp_has_workload := True\<rparr>
      else if k = ''sample_count'' then
        (case parse_int val 1 1000000 of
           None \<Rightarrow> p\<lparr>bp_error := True\<rparr>
         | Some n \<Rightarrow> p\<lparr>bp_out := out\<lparr>bl_sample_count := n\<rparr>, bp_has_sample_count := True\<rparr>)
      else p)"

fun baseline_lines :: "bl_parse \<Rightarrow> string list \<Rightarrow> bl_parse" where
  "baseline_lines p [] = p"
| "baseline_lines p (line # lines) =
     (if bp_error p then p
      else case split_kv line of
        None \<Rightarrow> baseline_lines p lines
      | Some (k, val) \<Rightarrow> baseline_lines (baseline_key p k val) lines)"

definition bl_start :: bl_parse where
  "bl_start = \<lparr>bp_out = zero_baseline\<lparr>bl_available := True\<rparr>, bp_has_serial = False, bp_has_perf_w = False,
     bp_has_established = False, bp_has_workload = False, bp_has_sample_count = False, bp_error = False\<rparr>"

definition baseline_finish :: "string \<Rightarrow> bl_parse \<Rightarrow> gpu_baseline_t" where
  "baseline_finish serial p =
     (let out = bp_out p in
      if bp_error p then out\<lparr>bl_valid := False\<rparr>
      else if \<not> bp_has_serial p \<or> \<not> bp_has_perf_w p \<or> \<not> bp_has_established p \<or> \<not> bp_has_workload p
              \<or> \<not> bp_has_sample_count p
      then out\<lparr>bl_valid := False\<rparr>
      else if bl_serial out \<noteq> serial then out\<lparr>bl_serial_mismatch := True, bl_valid := False\<rparr>
      else if dle (bl_perf_w_mean out) (Fin 0) then out\<lparr>bl_valid := False\<rparr>
      else out\<lparr>bl_valid := True\<rparr>)"

text \<open>The path is built in a 512-byte buffer.\<close>

definition baseline_path :: "string \<Rightarrow> string \<Rightarrow> string" where
  "baseline_path dir serial = take 511 (dir @ ''/'' @ serial)"

definition baseline_load :: "(string \<Rightarrow> string option) \<Rightarrow> string \<Rightarrow> string \<Rightarrow> gpu_baseline_t" where
  "baseline_load fopen dir serial =
     (case fopen (baseline_path dir serial) of
        None \<Rightarrow> zero_baseline
      | Some content \<Rightarrow> baseline_finish serial (baseline_lines bl_start (fgets_lines 512 content)))"

section \<open>probe\_load\<close>

record pr_parse =
  pp_out :: gpu_probe_result_t
  pp_has_serial :: bool
  pp_has_perf_w :: bool
  pp_has_timestamp :: bool
  pp_has_exit_code :: bool
  pp_error :: bool

definition probe_key :: "pr_parse \<Rightarrow> string \<Rightarrow> string \<Rightarrow> pr_parse" where
  "probe_key p k val =
     (let out = pp_out p in
      if k = ''serial'' then p\<lparr>pp_out := out\<lparr>pr_serial := safe_strncpy (pr_serial out) val 32\<rparr>, pp_has_serial := True\<rparr>
      else if k = ''perf_w_mean'' then
        (case parse_double val (Fin 0) (Fin 1000000000) of
           None \<Rightarrow> p\<lparr>pp_error := True\<rparr>
         | Some d \<Rightarrow> p\<lparr>pp_out := out\<lparr>pr_perf_w_mean := d\<rparr>, pp_has_perf_w := True\<rparr>)
      else if k = ''probe_timestamp'' then
        (let t = parse_iso8601 val; p1 = p\<lparr>pp_out := out\<lparr>pr_probe_timestamp_s := t\<rparr>\<rparr>
         in if t = 0 then p1\<lparr>pp_error := True\<rparr> else p1\<lparr>pp_has_timestamp := True\<rparr>)
      else if k = ''probe_exit_code'' then
        (case parse_int val (- 1000) 1000 of
           None \<Rightarrow> p\<lparr>pp_error := True\<rparr>
         | Some n \<Rightarrow> p\<lparr>pp_out := out\<lparr>pr_probe_exit_code := n\<rparr>, pp_has_exit_code := True\<rparr>)
      else if k = ''workload'' then p\<lparr>pp_out := out\<lparr>pr_workload := safe_strncpy (pr_workload out) val 128\<rparr>\<rparr>
      else if k = ''sample_count'' then
        (case parse_int val 0 1000000 of
           None \<Rightarrow> p
         | Some n \<Rightarrow> p\<lparr>pp_out := out\<lparr>pr_sample_count := n\<rparr>\<rparr>)
      else if k = ''probe_duration_s'' then
        (case parse_double val (Fin 0) (Fin 86400) of
           None \<Rightarrow> p
         | Some d \<Rightarrow> p\<lparr>pp_out := out\<lparr>pr_probe_duration_s := d\<rparr>\<rparr>)
      else p)"

fun probe_lines :: "pr_parse \<Rightarrow> string list \<Rightarrow> pr_parse" where
  "probe_lines p [] = p"
| "probe_lines p (line # lines) =
     (if pp_error p then p
      else case split_kv line of
        None \<Rightarrow> probe_lines p lines
      | Some (k, val) \<Rightarrow> probe_lines (probe_key p k val) lines)"

definition pr_start :: pr_parse where
  "pr_start = \<lparr>pp_out = zero_probe\<lparr>pr_available := True\<rparr>, pp_has_serial = False, pp_has_perf_w = False,
     pp_has_timestamp = False, pp_has_exit_code = False, pp_error = False\<rparr>"

definition probe_finish :: "u64 \<Rightarrow> int \<Rightarrow> pr_parse \<Rightarrow> gpu_probe_result_t" where
  "probe_finish now ttl p =
     (let out = pp_out p in
      if pp_error p then out\<lparr>pr_available := False\<rparr>
      else if \<not> pp_has_serial p \<or> \<not> pp_has_perf_w p \<or> \<not> pp_has_timestamp p \<or> \<not> pp_has_exit_code p
      then out\<lparr>pr_available := False\<rparr>
      else if now > pr_probe_timestamp_s out \<and> now - pr_probe_timestamp_s out > word_of_int ttl
      then out\<lparr>pr_stale := True\<rparr>
      else out)"

definition probe_path :: "string \<Rightarrow> string \<Rightarrow> string" where
  "probe_path dir serial = take 511 (dir @ ''/'' @ serial @ ''.probe'')"

definition probe_load :: "(string \<Rightarrow> string option) \<Rightarrow> u64 \<Rightarrow> string \<Rightarrow> string \<Rightarrow> int \<Rightarrow> gpu_probe_result_t" where
  "probe_load fopen now dir serial ttl =
     (case fopen (probe_path dir serial) of
        None \<Rightarrow> zero_probe
      | Some content \<Rightarrow> probe_finish now ttl (probe_lines pr_start (fgets_lines 512 content)))"

section \<open>inotify\<close>

text \<open>
  One \<open>read\<close> of the non-blocking descriptor: a positive number of bytes, end of file, no more
  events, or another error. The argument is what the successive reads return; the loop ends at the
  first that is not positive.
\<close>

datatype read_result = ReadBytes nat | ReadEOF | ReadAgain | ReadError

fun inotify_drain :: "int \<Rightarrow> read_result list \<Rightarrow> int" where
  "inotify_drain any (ReadBytes n # rs) = inotify_drain 1 rs"
| "inotify_drain any (ReadAgain # rs) = any"
| "inotify_drain any (ReadError # rs) = - 1"
| "inotify_drain any (ReadEOF # rs) = any"
| "inotify_drain any [] = any"

definition baseline_inotify_check :: "read_result list \<Rightarrow> int" where
  "baseline_inotify_check rs = inotify_drain 0 rs"

text \<open>\<open>inotify_init1\<close> and \<open>inotify_add_watch\<close> return a negative number on failure; the result is the
  descriptor and the descriptors that were closed.\<close>

definition baseline_inotify_init :: "int \<Rightarrow> int \<Rightarrow> int \<times> int list" where
  "baseline_inotify_init fd watch =
     (if fd < 0 then (- 1, []) else if watch < 0 then (- 1, [fd]) else (fd, []))"

section \<open>The loop over key and value lines\<close>

lemma if_key_keeps: "P a \<Longrightarrow> P b \<Longrightarrow> P (if (k :: string) = s then a else b)"
  by simp

text \<open>
  Both files are read by the same loop: every recognised line updates the parser state, and the
  loop stops at the first error. An invariant of the update is an invariant of the whole file.
\<close>

fun kv_lines :: "('p \<Rightarrow> string \<Rightarrow> string \<Rightarrow> 'p) \<Rightarrow> ('p \<Rightarrow> bool) \<Rightarrow> 'p \<Rightarrow> string list \<Rightarrow> 'p" where
  "kv_lines upd err p [] = p"
| "kv_lines upd err p (line # lines) =
     (if err p then p
      else case split_kv line of
        None \<Rightarrow> kv_lines upd err p lines
      | Some (k, val) \<Rightarrow> kv_lines upd err (upd p k val) lines)"

locale kv_file =
  fixes step :: "'p \<Rightarrow> string \<Rightarrow> string \<Rightarrow> 'p"
    and err :: "'p \<Rightarrow> bool"
    and inv :: "'p \<Rightarrow> bool"
    and start :: 'p
  assumes inv_start: "inv start"
    and inv_step: "inv p \<Longrightarrow> \<not> err p \<Longrightarrow> inv (step p k val)"
begin

lemma inv_lines: "inv p \<Longrightarrow> inv (kv_lines step err p lines)"
  by (induction lines arbitrary: p) (auto simp: inv_step split: option.splits)

lemma inv_file: "inv (kv_lines step err start lines)"
  by (rule inv_lines [OF inv_start])

end

lemma baseline_lines_kv: "baseline_lines p lines = kv_lines baseline_key bp_error p lines"
  by (induction p lines rule: baseline_lines.induct) (auto split: option.splits)

lemma probe_lines_kv: "probe_lines p lines = kv_lines probe_key pp_error p lines"
  by (induction p lines rule: probe_lines.induct) (auto split: option.splits)

text \<open>What the flags of the baseline parser mean.\<close>

definition bl_inv :: "bl_parse \<Rightarrow> bool" where
  "bl_inv p \<longleftrightarrow>
     (let out = bp_out p in
      bl_available out \<and> \<not> bl_serial_mismatch out \<and> \<not> bl_driver_mismatch out \<and> \<not> bl_valid out \<and>
      length (bl_serial out) < 32 \<and> length (bl_uuid out) < 48 \<and> length (bl_driver_version out) < 64 \<and>
      length (bl_workload out) < 128 \<and>
      (bp_has_perf_w p \<longrightarrow> \<not> dlt (Fin 1000000000) (bl_perf_w_mean out) \<and> \<not> dlt (bl_perf_w_mean out) (Fin 0)) \<and>
      (bp_has_established p \<and> \<not> bp_error p \<longrightarrow> bl_established_at_s out \<noteq> 0) \<and>
      (bp_has_sample_count p \<longrightarrow> 1 \<le> bl_sample_count out \<and> bl_sample_count out \<le> 1000000))"

interpretation basef: kv_file baseline_key bp_error bl_inv bl_start
proof unfold_locales
  show "bl_inv bl_start" by (simp add: bl_inv_def bl_start_def zero_baseline_def)
next
  fix p k val assume "bl_inv p" "\<not> bp_error p"
  then show "bl_inv (baseline_key p k val)"
    unfolding baseline_key_def Let_def
    by (intro if_key_keeps [where P = bl_inv])
      (auto simp: bl_inv_def Let_def safe_strncpy_def dest: parse_double_range parse_int_range split: option.splits)
qed

definition pr_inv :: "pr_parse \<Rightarrow> bool" where
  "pr_inv p \<longleftrightarrow>
     (let out = pp_out p in
      pr_available out \<and> \<not> pr_stale out \<and> length (pr_serial out) < 32 \<and> length (pr_workload out) < 128 \<and>
      (pp_has_perf_w p \<longrightarrow> \<not> dlt (Fin 1000000000) (pr_perf_w_mean out) \<and> \<not> dlt (pr_perf_w_mean out) (Fin 0)) \<and>
      (pp_has_timestamp p \<and> \<not> pp_error p \<longrightarrow> pr_probe_timestamp_s out \<noteq> 0) \<and>
      (pp_has_exit_code p \<longrightarrow> - 1000 \<le> pr_probe_exit_code out \<and> pr_probe_exit_code out \<le> 1000))"

interpretation probef: kv_file probe_key pp_error pr_inv pr_start
proof unfold_locales
  show "pr_inv pr_start" by (simp add: pr_inv_def pr_start_def zero_probe_def)
next
  fix p k val assume "pr_inv p" "\<not> pp_error p"
  then show "pr_inv (probe_key p k val)"
    unfolding probe_key_def Let_def
    by (intro if_key_keeps [where P = pr_inv])
      (auto simp: pr_inv_def Let_def safe_strncpy_def dest: parse_double_range parse_int_range split: option.splits)
qed

section \<open>Valid baselines\<close>

lemma baseline_finish_valid:
  assumes "bl_inv p"
  shows "bl_valid (baseline_finish serial p) \<longleftrightarrow>
    \<not> bp_error p \<and> bp_has_serial p \<and> bp_has_perf_w p \<and> bp_has_established p \<and> bp_has_workload p \<and>
    bp_has_sample_count p \<and> bl_serial (bp_out p) = serial \<and> \<not> dle (bl_perf_w_mean (bp_out p)) (Fin 0)"
  using assms by (auto simp: baseline_finish_def Let_def bl_inv_def)

text \<open>C39. A baseline that is accepted as valid names the GPU it is used for, carries every required
  field inside its range with a non-zero time stamp, and its reference performance is not a number
  at or below zero. Its strings fit their buffers.\<close>

theorem baseline_valid_sound:
  assumes "b = baseline_load fopen dir serial" "bl_valid b"
  shows "bl_available b \<and> bl_serial b = serial \<and> \<not> bl_serial_mismatch b \<and> length serial < 32 \<and>
    bl_established_at_s b \<noteq> 0 \<and> 1 \<le> bl_sample_count b \<and> bl_sample_count b \<le> 1000000 \<and>
    \<not> dle (bl_perf_w_mean b) (Fin 0) \<and> \<not> dlt (Fin 1000000000) (bl_perf_w_mean b) \<and>
    length (bl_workload b) < 128 \<and> length (bl_driver_version b) < 64"
proof -
  obtain content where c: "fopen (baseline_path dir serial) = Some content"
    using assms by (cases "fopen (baseline_path dir serial)") (auto simp: baseline_load_def zero_baseline_def)
  let ?p = "baseline_lines bl_start (fgets_lines 512 content)"
  have b: "b = baseline_finish serial ?p" using assms(1) c by (simp add: baseline_load_def)
  have inv: "bl_inv ?p" unfolding baseline_lines_kv by (rule basef.inv_file)
  note v = assms(2) [unfolded b baseline_finish_valid [OF inv]]
  then have "b = (bp_out ?p)\<lparr>bl_valid := True\<rparr>" by (simp add: b baseline_finish_def Let_def)
  then show ?thesis using inv v by (auto simp: bl_inv_def Let_def)
qed

definition demo_baseline_file :: string where
  "demo_baseline_file = ''serial=S1'' @ [CHR 10] @ ''perf_w_mean = 2.5'' @ [CHR 10] @
     ''established_at=2026-03-15T14:22:00Z'' @ [CHR 10] @ ''workload=gemm'' @ [CHR 10] @ ''sample_count=30'' @ [CHR 10]"

definition demo_baseline :: gpu_baseline_t where
  "demo_baseline = zero_baseline\<lparr>bl_available := True, bl_valid := True, bl_serial := ''S1'', bl_perf_w_mean := Fin (5/2),
     bl_established_at_s := 1773584520, bl_workload := ''gemm'', bl_sample_count := 30\<rparr>"

lemma demo_baseline_load: "baseline_load (\<lambda>_. Some demo_baseline_file) ''d'' ''S1'' = demo_baseline"
  by code_simp

theorem baseline_valid_sound_witness:
  "bl_valid demo_baseline \<and> bl_serial demo_baseline = ''S1'' \<and> bl_established_at_s demo_baseline \<noteq> 0"
  using baseline_valid_sound [OF demo_baseline_load [symmetric]] by (simp add: demo_baseline_def)

section \<open>Probe results\<close>

text \<open>Staleness of a probe result is exact: a result is available only when its required fields were
  read, and an available result is stale exactly when its age in seconds, computed without wrapping,
  exceeds the configured time to live. A result from the future is never stale.\<close>

theorem probe_staleness_exact:
  assumes "p = probe_load fopen now dir serial ttl" "0 \<le> ttl" "ttl < 2 ^ 31"
  shows "(pr_stale p \<longleftrightarrow> pr_available p \<and> ttl < uint now - uint (pr_probe_timestamp_s p)) \<and>
    (if pr_available p then pr_probe_timestamp_s p \<noteq> 0 \<and> \<not> dlt (pr_perf_w_mean p) (Fin 0) \<and>
       - 1000 \<le> pr_probe_exit_code p \<and> pr_probe_exit_code p \<le> 1000 else \<not> pr_stale p)"
proof (cases "fopen (probe_path dir serial)")
  case None
  then show ?thesis using assms(1) by (simp add: probe_load_def zero_probe_def)
next
  case (Some content)
  let ?p = "probe_lines pr_start (fgets_lines 512 content)"
  have p: "p = probe_finish now ttl ?p" using assms(1) Some by (simp add: probe_load_def)
  have inv: "pr_inv ?p" unfolding probe_lines_kv by (rule probef.inv_file)
  have ttl: "uint (word_of_int ttl :: u64) = ttl" using assms(2,3) by (simp add: uint_word_of_int_eq take_bit_int_eq_self)
  have age: "t < now \<and> word_of_int ttl < now - t \<longleftrightarrow> ttl < uint now - uint t" for t :: u64
  proof (cases "t < now")
    case True
    then have "uint (now - t) = uint now - uint t" by (metis less_imp_le uint_sub_lem word_less_def)
    then show ?thesis using True ttl by (simp add: word_less_def)
  next
    case False
    then show ?thesis using assms(2) by (simp add: word_less_def)
  qed
  show ?thesis using inv age [of "pr_probe_timestamp_s (pp_out ?p)"]
    by (auto simp: p probe_finish_def pr_inv_def Let_def)
qed

definition demo_probe_file :: string where
  "demo_probe_file = ''serial=S1'' @ [CHR 10] @ ''perf_w_mean = 2'' @ [CHR 10] @
     ''probe_timestamp=2026-03-15T14:22:00Z'' @ [CHR 10] @ ''probe_exit_code=0'' @ [CHR 10]"

definition demo_probe :: gpu_probe_result_t where
  "demo_probe = zero_probe\<lparr>pr_available := True, pr_stale := True, pr_serial := ''S1'', pr_perf_w_mean := Fin 2,
     pr_probe_timestamp_s := 1773584520\<rparr>"

lemma demo_probe_load: "probe_load (\<lambda>_. Some demo_probe_file) 1773600000 ''d'' ''S1'' 3600 = demo_probe"
  by code_simp

theorem probe_staleness_exact_witness:
  "pr_stale demo_probe \<and> 3600 < uint (1773600000 :: u64) - uint (pr_probe_timestamp_s demo_probe)"
  using probe_staleness_exact [OF demo_probe_load [symmetric]] by (simp add: demo_probe_def)

text \<open>The serial number in a probe file is required, but it is not compared with that of the GPU: the result
  depends on the GPU only through the name of the file, unlike \<open>baseline_valid_sound\<close>. Nor is the
  exit code of the probe looked at.\<close>

theorem probe_serial_not_compared:
  assumes "fopen (probe_path dir serial) = fopen' (probe_path dir' serial')"
  shows "probe_load fopen now dir serial ttl = probe_load fopen' now dir' serial' ttl"
  using assms by (simp add: probe_load_def)

theorem probe_serial_not_compared_witness:
  "probe_load (\<lambda>_. Some demo_probe_file) 1773600000 ''d'' ''S2'' 3600 = demo_probe \<and> pr_serial demo_probe = ''S1''"
  using probe_serial_not_compared [of "\<lambda>_. Some demo_probe_file" "''d''" "''S2''" "\<lambda>_. Some demo_probe_file" "''d''" "''S1''"] demo_probe_load
  by (simp add: demo_probe_def)

section \<open>inotify\<close>

lemma inotify_drain_cases: "inotify_drain a rs =
    (case dropWhile (\<lambda>r. \<exists>n. r = ReadBytes n) rs of
       ReadError # _ \<Rightarrow> - 1
     | _ \<Rightarrow> if \<exists>n rs'. rs = ReadBytes n # rs' then 1 else a)"
proof (induction a rs rule: inotify_drain.induct)
  case (1 any n rs)
  then show ?case by (cases rs) (auto split: list.splits read_result.splits)
qed auto

end
