(* ===== verification/Snapshot.thy ===== *)
theory Snapshot
  imports Ring
begin

text \<open>
  The per-GPU context of \<^verbatim>\<open>src/collector.h\<close> and the snapshot with its transfer to the HTTP child,
  \<^verbatim>\<open>src/snapshot.c\<close>. The mutexes are left out of the context: the poll thread is the only writer of
  its fields. A message crosses the socket as the bytes of its struct; the outcomes of the
  successive \<open>write\<close> and \<open>read\<close> calls are arguments, so that every split of a message into short
  transfers is covered.
\<close>

section \<open>The context\<close>

record gpu_ctx_t =
  c_serial :: string
  c_uuid :: string
  c_gpu_model :: string
  c_driver_version :: string
  c_gpu_index :: int
  c_identity_source :: gpu_identity_src_t
  c_pcie_link_gen_max :: int
  c_pcie_link_width_max :: int
  c_ring :: gpu_ring_t
  c_state :: gpu_state_t
  c_snapshot :: gpu_snapshot_t
  c_baseline :: gpu_baseline_t
  c_probe :: gpu_probe_result_t
  c_ready :: bool
  c_stop :: bool
  c_gpu_present :: bool
  c_gpu_available :: bool
  c_consecutive_errors :: int
  c_consecutive_hard_errors :: int
  c_last_retry_ms :: u64
  c_collector_errors_total :: u64

section \<open>Assembly\<close>

text \<open>A field of the newest sample, or the given value when the ring is empty.\<close>

definition newest :: "(gpu_sample_t \<Rightarrow> 'a) \<Rightarrow> 'a \<Rightarrow> gpu_ring_t \<Rightarrow> 'a" where
  "newest field none ring =
     (if 0 < rcount ring
      then field (samples ring ! nat (c_mod (head ring - 1 + capacity ring) (capacity ring))) else none)"

definition baseline_age :: "u64 \<Rightarrow> gpu_baseline_t \<Rightarrow> u64" where
  "baseline_age now_s b =
     (if bl_available b \<and> bl_established_at_s b > 0
      then (if now_s > bl_established_at_s b then now_s - bl_established_at_s b else 0) else 0)"

definition assemble :: "gpu_ctx_t \<Rightarrow> gpu_score_result_t \<Rightarrow> int \<Rightarrow> u64 \<Rightarrow> u64 \<Rightarrow> gpu_snapshot_t" where
  "assemble ctx score dcgm_available now_s now_ms =
     (let st = c_state ctx in
      zero_snapshot\<lparr>
           sn_serial := c_serial ctx,
           sn_uuid := c_uuid ctx,
           sn_gpu_model := c_gpu_model ctx,
           sn_driver_version := c_driver_version ctx,
           sn_gpu_index := c_gpu_index ctx,
           sn_identity_source := c_identity_source ctx,
           sn_pcie_link_gen_max := c_pcie_link_gen_max ctx,
           sn_pcie_link_width_max := c_pcie_link_width_max ctx,
           sn_score := sc_score score,
           sn_classification := sc_classification score,
           sn_reason_mask := sc_reason_mask score,
           sn_telemetry_ok := sc_telemetry_ok score,
           sn_temp_p95_c := sc_temp_p95_c score,
           sn_hbm_temp_p95_c := sc_hbm_temp_p95_c score,
           sn_clk_std_mhz := sc_clk_std_mhz score,
           sn_power_saturation_frac := sc_power_saturation_frac score,
           sn_ecc_sbe_rate_per_hour := sc_ecc_sbe_rate_per_hour score,
           sn_ecc_dbe_in_window := sc_ecc_dbe_in_window score,
           sn_perf_drop_frac := sc_perf_drop_frac score,
           sn_probe_available := pr_available (c_probe ctx),
           sn_probe_stale := pr_stale (c_probe ctx),
           sn_baseline_available := bl_available (c_baseline ctx),
           sn_baseline_valid := bl_valid (c_baseline ctx),
           sn_baseline_serial_mismatch := bl_serial_mismatch (c_baseline ctx),
           sn_baseline_driver_mismatch := bl_driver_mismatch (c_baseline ctx),
           sn_ecc_sbe_volatile := newest ecc_sbe_volatile 0 (c_ring ctx),
           sn_ecc_dbe_volatile := newest ecc_dbe_volatile 0 (c_ring ctx),
           sn_ecc_sbe_aggregate := st_ecc_sbe_aggregate st,
           sn_ecc_dbe_aggregate := st_ecc_dbe_aggregate st,
           sn_retired_pages_sbe := st_retired_pages_sbe st,
           sn_retired_pages_dbe := st_retired_pages_dbe st,
           sn_row_remap_failures := st_row_remap_failures st,
           sn_pending_row_remap := st_pending_row_remap st,
           sn_mem_used_bytes := st_mem_used_bytes st,
           sn_mem_free_bytes := st_mem_free_bytes st,
           sn_mem_total_bytes := st_mem_total_bytes st,
           sn_mem_bw_util_pct := st_mem_bw_util_pct st,
           sn_pcie_link_gen := st_pcie_link_gen st,
           sn_pcie_link_width := st_pcie_link_width st,
           sn_pcie_replay_count := st_pcie_replay_count st,
           sn_nvlink_replay_count := st_nvlink_replay_count st,
           sn_nvlink_recovery_count := st_nvlink_recovery_count st,
           sn_nvlink_crc_count := st_nvlink_crc_count st,
           sn_xid_count := st_xid_count st,
           sn_xid_last_code := st_xid_last_code st,
           sn_board_power_w := st_board_power_w st,
           sn_power_w := newest power_w (Fin 0) (c_ring ctx),
           sn_power_limit_w := newest power_limit_w (Fin 0) (c_ring ctx),
           sn_energy_j := st_energy_j st,
           sn_power_violation_us := st_power_violation_us st,
           sn_thermal_violation_us := st_thermal_violation_us st,
           sn_throttle_sw_power_cap := st_throttle_sw_power_cap st,
           sn_throttle_hw_slowdown := st_throttle_hw_slowdown st,
           sn_throttle_hw_power_brake := st_throttle_hw_power_brake st,
           sn_throttle_sw_thermal := st_throttle_sw_thermal st,
           sn_throttle_hw_thermal := st_throttle_hw_thermal st,
           sn_sm_clock_mhz := newest sm_clock_mhz (Fin 0) (c_ring ctx),
           sn_mem_clock_mhz := st_mem_clock_mhz st,
           sn_util_gpu_pct := st_util_gpu_pct st,
           sn_util_mem_pct := st_util_mem_pct st,
           sn_pstate := st_pstate st,
           sn_temp_c := newest temp_c (Fin 0) (c_ring ctx),
           sn_hbm_temp_c := newest hbm_temp_c (Fin 0) (c_ring ctx),
           sn_fan_speed_pct := st_fan_speed_pct st,
           sn_last_poll_ms := now_ms,
           sn_gpu_present := c_gpu_present ctx,
           sn_gpu_available := c_gpu_available ctx,
           sn_dcgm_available := dcgm_available,
           sn_collector_errors_total := c_collector_errors_total ctx,
           sn_baseline_age_s := baseline_age now_s (c_baseline ctx)\<rparr>)"

definition snapshot_update :: "gpu_ctx_t \<Rightarrow> gpu_score_result_t \<Rightarrow> int \<Rightarrow> u64 \<Rightarrow> u64 \<Rightarrow> gpu_ctx_t" where
  "snapshot_update ctx score dcgm_available now_s now_ms =
     ctx\<lparr>c_snapshot := assemble ctx score dcgm_available now_s now_ms\<rparr>"

definition ipc_msg :: "gpu_ctx_t \<Rightarrow> gpu_ipc_msg_t" where
  "ipc_msg ctx = \<lparr>msg_gpu_index = c_gpu_index ctx, msg_snapshot = c_snapshot ctx\<rparr>"

section \<open>Transfer\<close>

datatype io_result = IoBytes nat | IoIntr | IoErr

text \<open>
  The \<open>write\<close> loop: what reaches the socket and the return value, \<open>None\<close> while the loop still waits
  for a call to return. The kernel never accepts more than it was offered.
\<close>

fun send_loop :: "'b list \<Rightarrow> io_result list \<Rightarrow> 'b list \<times> int option" where
  "send_loop [] rs = ([], Some 0)"
| "send_loop (b # bs) [] = ([], None)"
| "send_loop (b # bs) (IoBytes n # rs) =
     (let (out, ret) = send_loop (drop n (b # bs)) rs in (take n (b # bs) @ out, ret))"
| "send_loop (b # bs) (IoIntr # rs) = send_loop (b # bs) rs"
| "send_loop (b # bs) (IoErr # rs) = ([], Some (- 1))"

text \<open>
  The \<open>read\<close> loop on the bytes waiting in the socket: what was stored, the return value and what is
  left. A read of 0 bytes is the end of the stream.
\<close>

fun recv_loop :: "nat \<Rightarrow> io_result list \<Rightarrow> 'b list \<Rightarrow> 'b list \<times> int option \<times> 'b list" where
  "recv_loop 0 rs st = ([], Some 0, st)"
| "recv_loop (Suc r) [] st = ([], None, st)"
| "recv_loop (Suc r) (IoBytes n # rs) st =
     (if n = 0 then ([], Some (- 1), st)
      else let got = take (min n (Suc r)) st;
               (rest, ret, left) = recv_loop (Suc r - length got) rs (drop (min n (Suc r)) st)
           in (got @ rest, ret, left))"
| "recv_loop (Suc r) (IoIntr # rs) st = recv_loop (Suc r) rs st"
| "recv_loop (Suc r) (IoErr # rs) st = ([], Some (- 1), st)"

text \<open>\<open>encode\<close> is the memory image of a message, \<open>sizeof(msg)\<close> bytes.\<close>

definition snapshot_send :: "(gpu_ipc_msg_t \<Rightarrow> 'b list) \<Rightarrow> gpu_ctx_t \<Rightarrow> io_result list \<Rightarrow> 'b list \<times> int option" where
  "snapshot_send encode ctx rs = send_loop (encode (ipc_msg ctx)) rs"

definition snapshot_recv ::
    "nat \<Rightarrow> ('b list \<Rightarrow> gpu_ipc_msg_t) \<Rightarrow> io_result list \<Rightarrow> 'b list \<Rightarrow> gpu_ipc_msg_t option \<times> 'b list" where
  "snapshot_recv sz decode rs st =
     (case recv_loop sz rs st of (got, ret, left) \<Rightarrow>
        if ret = Some 0 then (Some (decode got), left) else (None, left))"

section \<open>Framing\<close>

lemma send_loop_complete: "send_loop bs rs = (out, Some 0) \<Longrightarrow> out = bs"
proof (induction bs rs arbitrary: out rule: send_loop.induct)
  case (3 b bs n rs)
  then obtain out' where "send_loop (drop n (b # bs)) rs = (out', Some 0)" "out = take n (b # bs) @ out'"
    by (auto split: prod.splits)
  with 3 show ?case by (metis append_take_drop_id)
qed auto

lemma send_loop_prefix: "send_loop bs rs = (out, ret) \<Longrightarrow> \<exists>n. out = take n bs"
proof (induction bs rs arbitrary: out rule: send_loop.induct)
  case (3 b bs n rs)
  then obtain out' where o: "send_loop (drop n (b # bs)) rs = (out', ret)" "out = take n (b # bs) @ out'"
    by (auto split: prod.splits)
  from "3.IH" [OF o(1)] obtain k where "out' = take k (drop n (b # bs))" by blast
  then have "out = take (n + k) (b # bs)" using o(2) by (simp add: take_add)
  then show ?case by blast
qed (auto intro: exI [of _ 0])

lemma send_loop_returns:
  assumes "IoErr \<notin> set rs" "length bs \<le> sum_list (map (\<lambda>r. case r of IoBytes n \<Rightarrow> n | _ \<Rightarrow> 0) rs)"
  shows "snd (send_loop bs rs) = Some 0"
  using assms
proof (induction bs rs rule: send_loop.induct)
  case (3 b bs n rs)
  then show ?case by (auto split: prod.splits simp: Let_def)
qed auto

lemma recv_loop_complete:
  "recv_loop r rs st = (got, Some 0, left) \<Longrightarrow> got @ left = st \<and> length got = r"
proof (induction r rs st arbitrary: got rule: recv_loop.induct)
  case (3 r n rs st)
  let ?m = "min n (Suc r)"
  obtain rest where n: "n \<noteq> 0" and rest: "recv_loop (Suc r - length (take ?m st)) rs (drop ?m st) = (rest, Some 0, left)"
    "got = take ?m st @ rest"
    using "3.prems" by (auto split: if_splits prod.splits)
  have "rest @ left = drop ?m st \<and> length rest = Suc r - length (take ?m st)"
    using "3.IH" [OF n refl] rest(1) by blast
  moreover have "length (take ?m st) \<le> Suc r" by simp
  ultimately show ?case using rest(2) by (metis append.assoc append_take_drop_id le_add_diff_inverse length_append)
qed auto

section \<open>A concrete transfer\<close>

text \<open>A three-byte wire format whose bytes name their message and position.\<close>

definition demo_encode :: "gpu_ipc_msg_t \<Rightarrow> (gpu_ipc_msg_t \<times> nat) list" where
  "demo_encode m = [(m, 0), (m, 1), (m, 2)]"

definition demo_decode :: "(gpu_ipc_msg_t \<times> nat) list \<Rightarrow> gpu_ipc_msg_t" where
  "demo_decode bs = fst (hd bs)"

lemma demo_encode_length: "length (demo_encode m) = 3"
  by (simp add: demo_encode_def)

lemma demo_decode_encode: "demo_decode (demo_encode m) = m"
  by (simp add: demo_encode_def demo_decode_def)

definition zero_ctx :: gpu_ctx_t where
  "zero_ctx = \<lparr>c_serial = ''S1'', c_uuid = ''U1'', c_gpu_model = ''H100'', c_driver_version = ''550'', c_gpu_index = 0,
     c_identity_source = GPU_IDENTITY_SERIAL, c_pcie_link_gen_max = 5, c_pcie_link_width_max = 16,
     c_ring = ring_alloc 1, c_state = zero_state, c_snapshot = zero_snapshot, c_baseline = zero_baseline,
     c_probe = zero_probe, c_ready = False, c_stop = False, c_gpu_present = True, c_gpu_available = True,
     c_consecutive_errors = 0, c_consecutive_hard_errors = 0, c_last_retry_ms = 0, c_collector_errors_total = 0\<rparr>"

section \<open>Properties of the transfer\<close>

text \<open>C40. Round trip over the socket: whenever the sender's loop reports success and the receiver's loop
  reports success on the bytes sent, followed by anything else, the receiver has exactly the message
  sent and the following bytes are untouched, however the transfer was cut into short reads and
  writes or interrupted. A failed send has written only a prefix of the message.\<close>

theorem snapshot_transfer_round_trip:
  assumes "snapshot_send encode ctx ws = (bytes, Some 0)"
    and "snapshot_recv (length (encode (ipc_msg ctx))) decode rs (bytes @ rest) = (Some m, left)"
    and "decode (encode (ipc_msg ctx)) = ipc_msg ctx"
  shows "m = ipc_msg ctx \<and> left = rest"
proof -
  have b: "bytes = encode (ipc_msg ctx)" using assms(1) by (simp add: snapshot_send_def send_loop_complete)
  obtain got where got: "recv_loop (length bytes) rs (bytes @ rest) = (got, Some 0, left)" "m = decode got"
    using assms(2) b by (auto simp: snapshot_recv_def split: prod.splits if_splits)
  from recv_loop_complete [OF got(1)] have "got = bytes" "left = rest" by (auto simp: append_eq_append_conv)
  then show ?thesis using got(2) b assms(3) by simp
qed

theorem snapshot_transfer_round_trip_witness:
  "snapshot_recv 3 demo_decode [IoBytes 1, IoIntr, IoBytes 9] (demo_encode (ipc_msg zero_ctx) @ [(ipc_msg zero_ctx, 7)]) =
     (Some (ipc_msg zero_ctx), [(ipc_msg zero_ctx, 7)])"
proof -
  let ?bs = "demo_encode (ipc_msg zero_ctx)" and ?r = "[(ipc_msg zero_ctx, 7 :: nat)]"
  have "snapshot_send demo_encode zero_ctx [IoBytes 2, IoIntr, IoBytes 1] = (?bs, Some 0)"
    by (simp add: snapshot_send_def demo_encode_def)
  moreover obtain m left where
    "snapshot_recv (length ?bs) demo_decode [IoBytes 1, IoIntr, IoBytes 9] (?bs @ ?r) = (Some m, left)"
    by (simp add: snapshot_recv_def demo_encode_def numeral_3_eq_3)
  ultimately show ?thesis
    using snapshot_transfer_round_trip [where encode = demo_encode and decode = demo_decode and ctx = zero_ctx]
      demo_decode_encode demo_encode_length by metis
qed

text \<open>A send never hangs on a socket that keeps accepting bytes: when no call fails and the calls
  together accept the size of the message, interrupted calls included, the loop ends with success.\<close>

theorem snapshot_send_terminates:
  assumes "IoErr \<notin> set rs"
    and "length (encode (ipc_msg ctx)) \<le> sum_list (map (\<lambda>r. case r of IoBytes n \<Rightarrow> n | _ \<Rightarrow> 0) rs)"
  shows "snapshot_send encode ctx rs = (encode (ipc_msg ctx), Some 0)"
  using send_loop_returns [OF assms] send_loop_complete
  by (metis prod.collapse snapshot_send_def)

theorem snapshot_send_terminates_witness:
  "snapshot_send demo_encode zero_ctx [IoBytes 1, IoIntr, IoBytes 2] = (demo_encode (ipc_msg zero_ctx), Some 0)"
  by (rule snapshot_send_terminates) (simp_all add: demo_encode_length)

text \<open>A short write is not protected against another sender: when the message of a second poll
  thread lands between the two parts of a message that was written in two calls, the receiver
  reports success with the first part followed by the start of the other message.\<close>

theorem short_write_interleaving_corrupts:
  assumes "length (encode m1) = sz" "length (encode m2) = sz" "0 < n" "n < sz"
    and "send_loop (encode m1) [IoBytes n] = (part1, None)"
    and "send_loop (drop n (encode m1)) [IoBytes (sz - n)] = (part2, Some 0)"
  shows "snapshot_recv sz decode [IoBytes sz] (part1 @ encode m2 @ part2) =
    (Some (decode (take n (encode m1) @ take (sz - n) (encode m2))), drop (sz - n) (encode m2) @ drop n (encode m1))"
proof -
  obtain k where sz: "sz = Suc k" using assms(3,4) by (cases sz) auto
  have p1: "part1 = take n (encode m1)"
    using assms(1,3,4,5) by (cases "encode m1") (auto split: prod.splits elim: send_loop.elims)
  have p2: "part2 = drop n (encode m1)" using assms(6) by (simp add: send_loop_complete)
  have "recv_loop sz [IoBytes sz] (part1 @ encode m2 @ part2) =
      (take sz (part1 @ encode m2 @ part2), Some 0, drop sz (part1 @ encode m2 @ part2))"
    using assms(1-4) by (simp add: sz p1 p2)
  then show ?thesis using assms(1-4) by (simp add: snapshot_recv_def p1 p2)
qed

theorem short_write_interleaving_corrupts_witness:
  "\<exists>m1 m2. snapshot_recv 3 demo_decode [IoBytes 3] ([(m1, 0)] @ demo_encode m2 @ [(m1, 1), (m1, 2)]) =
     (Some (demo_decode [(m1, 0), (m2, 0), (m2, 1)]), [(m2, 2), (m1, 1), (m1, 2)]) \<and> m1 \<noteq> m2"
proof -
  let ?m1 = "ipc_msg zero_ctx" and ?m2 = "ipc_msg (zero_ctx\<lparr>c_gpu_index := 1\<rparr>)"
  have "?m1 \<noteq> ?m2" by (simp add: ipc_msg_def zero_ctx_def)
  moreover have "snapshot_recv 3 demo_decode [IoBytes 3] ([(?m1, 0)] @ demo_encode ?m2 @ [(?m1, 1), (?m1, 2)]) =
     (Some (demo_decode [(?m1, 0), (?m2, 0), (?m2, 1)]), [(?m2, 2), (?m1, 1), (?m1, 2)])"
    using short_write_interleaving_corrupts [of demo_encode ?m1 3 ?m2 1 "[(?m1, 0)]" "[(?m1, 1), (?m1, 2)]" demo_decode]
    by (simp add: demo_encode_def)
  ultimately show ?thesis by blast
qed

end
