(* ===== verification/Collector.thy ===== *)
theory Collector
  imports Scorer Dcgm StateFiles Snapshot
begin

text \<open>
  The poll thread of one GPU, \<^verbatim>\<open>src/collector.c\<close>. One pass of the loop of \<open>poll_thread\<close> is the
  function \<open>poll_iter\<close>; everything the outside world contributes to a pass (clocks, driver and daemon
  answers, file contents, allocations) is the record \<open>poll_env\<close>. The thread is the step relation
  \<open>poll_step\<close>, whose steps are passes with arbitrary environments and the stop request of another
  thread, and whose state remembers the messages handed to \<open>snapshot_send\<close>.
\<close>

section \<open>State and environment\<close>

text \<open>The fields of \<open>exporter_t\<close> that a poll thread reads.\<close>

record exporter_t =
  e_cfg :: gpu_config_t
  e_dcgm_available :: int
  e_dcgm_handle :: int
  e_baseline_inotify_fd :: int

record poll_env =
  pe_now_retry :: u64
  pe_now_sample :: u64
  pe_nvml :: nvml_vtable_t
  pe_dcgm :: dcgm_vtable_t
  pe_inotify :: "read_result list"
  pe_fopen :: "string \<Rightarrow> string option"
  pe_malloc :: "bool \<times> bool"
  pe_now_s :: u64
  pe_now_ms :: u64

text \<open>How a pass ends: it sleeps and goes on, the thread ends, or a snapshot is sent first.\<close>

datatype poll_action = PollSleep | PollExit | PollSend gpu_ipc_msg_t

section \<open>collector\_start and collector\_stop\<close>

text \<open>The three flags say whether the ring allocation, the argument allocation and the creation of the
  thread succeed. On failure the ring's array has been freed.\<close>

definition collector_start :: "bool \<Rightarrow> bool \<Rightarrow> bool \<Rightarrow> gpu_config_t \<Rightarrow> gpu_ctx_t \<Rightarrow> gpu_ctx_t \<times> int" where
  "collector_start ring_ok args_ok thread_ok cfg ctx =
     (if \<not> ring_ok then (ctx, - 1)
      else
        let ctx1 = ctx\<lparr>c_ring := ring_alloc (c_div (window_s cfg) (poll_interval_s cfg)),
              c_ready := False, c_stop := False, c_gpu_present := True, c_gpu_available := True,
              c_consecutive_errors := 0, c_consecutive_hard_errors := 0, c_last_retry_ms := 0,
              c_collector_errors_total := 0, c_snapshot := zero_snapshot,
              c_state := zero_state\<lparr>st_pcie_link_gen_max := c_pcie_link_gen_max ctx,
                st_pcie_link_width_max := c_pcie_link_width_max ctx, st_fan_speed_pct := - 1\<rparr>\<rparr>
        in if \<not> args_ok \<or> \<not> thread_ok then (ctx1\<lparr>c_ring := (c_ring ctx1)\<lparr>samples := []\<rparr>\<rparr>, - 1)
           else (ctx1, 0))"

definition collector_stop :: "gpu_ctx_t \<Rightarrow> gpu_ctx_t" where
  "collector_stop ctx = ctx\<lparr>c_stop := True\<rparr>"

section \<open>One pass of the loop\<close>

definition poll_start_state :: "gpu_ctx_t \<Rightarrow> gpu_state_t" where
  "poll_start_state ctx =
     zero_state\<lparr>st_pcie_link_gen_max := c_pcie_link_gen_max ctx, st_pcie_link_width_max := c_pcie_link_width_max ctx,
       st_board_power_w := Fin 0, st_energy_j := Fin 0, st_mem_bw_util_pct := Fin 0\<rparr>"

definition poll_failed :: "gpu_config_t \<Rightarrow> int \<Rightarrow> gpu_ctx_t \<Rightarrow> gpu_ctx_t \<times> poll_action" where
  "poll_failed cfg nvml_ret ctx =
     (let ctx = ctx\<lparr>c_consecutive_errors := c_consecutive_errors ctx + 1,
                    c_collector_errors_total := c_collector_errors_total ctx + 1\<rparr>;
          ctx = (if NVML_IS_HARD_ERROR nvml_ret
                 then ctx\<lparr>c_consecutive_hard_errors := c_consecutive_hard_errors ctx + 1\<rparr> else ctx)
      in if NVML_IS_HARD_ERROR nvml_ret \<and> c_consecutive_hard_errors ctx \<ge> nvml_hard_error_threshold cfg
         then (ctx\<lparr>c_gpu_present := False, c_ready := True\<rparr>, PollExit)
         else
           let ctx = (if c_consecutive_errors ctx \<ge> nvml_error_threshold cfg
                      then ctx\<lparr>c_gpu_available := False\<rparr> else ctx)
           in (ctx\<lparr>c_ready := True\<rparr>, PollSleep))"

definition merge_dcgm :: "exporter_t \<Rightarrow> poll_env \<Rightarrow> gpu_ctx_t \<Rightarrow> gpu_state_t \<Rightarrow> gpu_state_t" where
  "merge_dcgm ex env ctx state =
     (if e_dcgm_available ex \<noteq> 0
      then (case dcgm_poll (pe_dcgm env) (e_dcgm_handle ex) (c_gpu_index ctx) of
              Some out \<Rightarrow> apply_dcgm_state state out
            | None \<Rightarrow> state)
      else state)"

text \<open>\<open>strncmp\<close> over the 64 bytes of the buffers compares the strings they hold.\<close>

definition reload_baseline :: "exporter_t \<Rightarrow> poll_env \<Rightarrow> gpu_ctx_t \<Rightarrow> gpu_ctx_t" where
  "reload_baseline ex env ctx =
     (if e_baseline_inotify_fd ex \<ge> 0 \<and> baseline_inotify_check (pe_inotify env) = 1
      then let new_baseline = baseline_load (pe_fopen env) (baseline_dir (e_cfg ex)) (c_serial ctx);
               new_baseline = new_baseline\<lparr>bl_driver_mismatch :=
                 take 64 (bl_driver_version new_baseline) \<noteq> take 64 (c_driver_version ctx)\<rparr>
           in ctx\<lparr>c_baseline := new_baseline\<rparr>
      else ctx)"

definition poll_succeeded ::
    "exporter_t \<Rightarrow> poll_env \<Rightarrow> gpu_sample_t \<Rightarrow> gpu_state_t \<Rightarrow> gpu_ctx_t \<Rightarrow> gpu_ctx_t \<times> poll_action" where
  "poll_succeeded ex env sample state ctx =
     (let ctx = ctx\<lparr>c_consecutive_errors := 0, c_consecutive_hard_errors := 0, c_gpu_available := True\<rparr>;
          state = merge_dcgm ex env ctx state;
          ctx = reload_baseline ex env ctx;
          ctx = ctx\<lparr>c_ring := ring_push (c_ring ctx) sample\<rparr>;
          ctx = ctx\<lparr>c_state := state\<rparr>;
          score = score_gpu (pe_malloc env) (c_ring ctx) (c_state ctx) (Some (c_baseline ctx)) (Some (c_probe ctx)) (e_cfg ex);
          ctx = snapshot_update ctx score (e_dcgm_available ex) (pe_now_s env) (pe_now_ms env);
          msg = ipc_msg ctx
      in (ctx\<lparr>c_ready := True\<rparr>, PollSend msg))"

definition poll_device :: "exporter_t \<Rightarrow> poll_env \<Rightarrow> gpu_ctx_t \<Rightarrow> gpu_ctx_t \<times> poll_action" where
  "poll_device ex env ctx =
     (case do_nvml_poll (pe_nvml env) (pe_now_sample env) zero_sample (poll_start_state ctx) of
        Inl (nvml_ret, failed_call) \<Rightarrow> poll_failed (e_cfg ex) nvml_ret ctx
      | Inr (sample, state) \<Rightarrow> poll_succeeded ex env sample state ctx)"

definition poll_iter :: "exporter_t \<Rightarrow> poll_env \<Rightarrow> gpu_ctx_t \<Rightarrow> gpu_ctx_t \<times> poll_action" where
  "poll_iter ex env ctx =
     (if \<not> c_gpu_present ctx then (ctx, PollSleep)
      else if \<not> c_gpu_available ctx then
        let now = pe_now_retry env;
            retry_ms = word_of_int (nvml_retry_interval_s (e_cfg ex)) * 1000
        in if now - c_last_retry_ms ctx < retry_ms then (ctx, PollSleep)
           else poll_device ex env (ctx\<lparr>c_last_retry_ms := now\<rparr>)
      else poll_device ex env ctx)"

text \<open>The sleep between passes: naps of 100 ms, with the stop flag read before each. The result is the
  number of naps, \<open>None\<close> while it still sleeps.\<close>

fun poll_naps :: "nat \<Rightarrow> bool list \<Rightarrow> nat option" where
  "poll_naps 0 stops = Some 0"
| "poll_naps (Suc ticks) [] = None"
| "poll_naps (Suc ticks) (stop # stops) = (if stop then Some 0 else map_option Suc (poll_naps ticks stops))"

definition poll_sleep :: "int \<Rightarrow> bool list \<Rightarrow> nat option" where
  "poll_sleep seconds stops = poll_naps (nat (seconds * 10)) stops"

section \<open>The thread\<close>

record poll_thread_t =
  t_ctx :: gpu_ctx_t
  t_running :: bool
  t_sent :: "gpu_ipc_msg_t list"

definition poll_thread_pass :: "exporter_t \<Rightarrow> poll_env \<Rightarrow> poll_thread_t \<Rightarrow> poll_thread_t" where
  "poll_thread_pass ex env t =
     (if c_stop (t_ctx t) then t\<lparr>t_running := False\<rparr>
      else case poll_iter ex env (t_ctx t) of
        (ctx, PollSleep) \<Rightarrow> t\<lparr>t_ctx := ctx\<rparr>
      | (ctx, PollExit) \<Rightarrow> t\<lparr>t_ctx := ctx, t_running := False\<rparr>
      | (ctx, PollSend msg) \<Rightarrow> t\<lparr>t_ctx := ctx, t_sent := t_sent t @ [msg]\<rparr>)"

inductive poll_step :: "exporter_t \<Rightarrow> poll_thread_t \<Rightarrow> poll_thread_t \<Rightarrow> bool" for ex where
  pass: "t_running t \<Longrightarrow> poll_step ex t (poll_thread_pass ex env t)"
| stop: "poll_step ex t (t\<lparr>t_ctx := collector_stop (t_ctx t)\<rparr>)"

definition poll_init :: "exporter_t \<Rightarrow> poll_thread_t \<Rightarrow> bool" where
  "poll_init ex t \<longleftrightarrow>
     (\<exists>ctx0. collector_start True True True (e_cfg ex) ctx0 = (t_ctx t, 0)) \<and> t_running t \<and> t_sent t = []"

inductive_cases poll_stepE: "poll_step ex t u"

end
