(* ===== verification/ConfigProps.thy ===== *)
theory ConfigProps
  imports Config
begin

text \<open>
  The properties of the configuration loader: which of the three sources wins, that every value is
  inside its documented range, when loading fails, what \<open>config_validate\<close> guarantees, and that a
  textual \<open>nan\<close> slips through both.
\<close>

section \<open>Sources and their precedence\<close>

text \<open>C37. Precedence: after a successful load every configuration field holds what its key reads
  from its environment variable if that is set, otherwise from its last line in the file, otherwise
  the compiled-in default. No other field's text can influence it.\<close>

theorem config_load_precedence:
  assumes "config_load fopen getenv path = Some cfg" "e \<in> set cfg_table"
    and "content = (case path of None \<Rightarrow> None | Some name \<Rightarrow> fopen name)"
  shows "Some (cfg_get e cfg) =
    (case env_text getenv e of
       Some s \<Rightarrow> cfg_parse e s
     | None \<Rightarrow> (case content of
         Some c \<Rightarrow> (case file_text c e of Some s \<Rightarrow> cfg_parse e s | None \<Rightarrow> Some (cfg_get e cfg_defaults))
       | None \<Rightarrow> Some (cfg_get e cfg_defaults)))"
  using config_load_value [OF assms] by (auto simp: effective_text_def split: option.splits)

definition demo_file :: string where
  "demo_file = ''# window'' @ [CHR 10] @ ''window_s = 120'' @ [CHR 10] @ ''bogus'' @ [CHR 10] @
     ''listen_port=80'' @ [CHR 10] @ '' window_s=600 '' @ [CHR 10]"

definition demo_env :: "string \<Rightarrow> string option" where
  "demo_env name = (if name = ''GPU_HEALTH_LISTEN_PORT'' then Some ''9000'' else None)"

lemma demo_env_assigns: "env_assigns demo_env = [(cfg_table ! 3, ''9000'')]"
  unfolding env_assigns_zip env_names by (simp add: cfg_table_def List.map_filter_simps demo_env_def)

lemma demo_lines:
  "fgets_lines 1024 demo_file = [''# window'' @ [CHR 10], ''window_s = 120'' @ [CHR 10], ''bogus'' @ [CHR 10],
     ''listen_port=80'' @ [CHR 10], '' window_s=600 '' @ [CHR 10]]"
  by code_simp

lemma demo_file_assigns:
  "file_assigns demo_file = [(cfg_table ! 5, ''120''), (cfg_table ! 3, ''80''), (cfg_table ! 5, ''600'')]"
proof -
  have f: "find_entry ''window_s'' = Some (cfg_table ! 5)" "find_entry ''listen_port'' = Some (cfg_table ! 3)"
    by (simp_all add: find_entry_def cfg_table_def cfg_entry_def)
  have split: "split_eq (str_trim (c_str (''window_s = 120'' @ [CHR 10]))) = Some (''window_s '', '' 120'')"
    "split_eq (str_trim (c_str (''listen_port=80'' @ [CHR 10]))) = Some (''listen_port'', ''80'')"
    "split_eq (str_trim (c_str ('' window_s=600 '' @ [CHR 10]))) = Some (''window_s'', ''600'')"
    "split_eq (str_trim (c_str (''bogus'' @ [CHR 10]))) = None"
    "is_comment (str_trim (c_str (''# window'' @ [CHR 10])))" "\<not> is_comment (str_trim (c_str (''bogus'' @ [CHR 10])))"
    "\<not> is_comment (str_trim (c_str (''window_s = 120'' @ [CHR 10])))"
    "\<not> is_comment (str_trim (c_str (''listen_port=80'' @ [CHR 10])))"
    "\<not> is_comment (str_trim (c_str ('' window_s=600 '' @ [CHR 10])))"
    "str_trim ''window_s '' = ''window_s''" "str_trim '' 120'' = ''120''" "str_trim ''listen_port'' = ''listen_port''"
    "str_trim ''80'' = ''80''" "str_trim ''window_s'' = ''window_s''" "str_trim ''600'' = ''600''"
    by code_simp+
  show ?thesis unfolding file_assigns_def demo_lines List.map_filter_simps line_assign_def Let_def
    by (simp only: split f if_True if_False option.case prod.case option.map)
qed

lemma demo_numbers: "parse_int ''120'' 60 3600 = Some 120" "parse_int ''600'' 60 3600 = Some 600"
  "parse_int ''80'' 1 65535 = Some 80" "parse_int ''9000'' 1 65535 = Some 9000"
  by code_simp+

lemma demo_load: "config_load (\<lambda>name. Some demo_file) demo_env (Some ''f'') =
    Some (cfg_defaults\<lparr>listen_port := 9000, window_s := 600\<rparr>)"
proof -
  have "config_file cfg_defaults (fgets_lines 1024 demo_file) = Some (cfg_defaults\<lparr>listen_port := 80, window_s := 600\<rparr>)"
    unfolding config_file_assigns file_assigns_def [symmetric] demo_file_assigns
    using demo_numbers by (simp add: apply_entry_def cfg_table_def cfg_entry_def)
  moreover have "apply_entry (cfg_defaults\<lparr>listen_port := 80, window_s := 600\<rparr>) (cfg_table ! 3) ''9000'' =
      Some (cfg_defaults\<lparr>listen_port := 9000, window_s := 600\<rparr>)"
    using demo_numbers by (simp add: apply_entry_def cfg_table_def cfg_entry_def)
  ultimately show ?thesis
    using demo_env_assigns by (simp add: config_load_assigns file_assigns_def config_file_assigns assigns_append)
qed

theorem config_load_precedence_witness:
  "Some (cfg_get (cfg_table ! 3) (cfg_defaults\<lparr>listen_port := 9000, window_s := 600\<rparr>)) = Some (VInt 9000)"
proof -
  have e: "cfg_table ! 3 \<in> set cfg_table" by (rule nth_mem) (simp add: cfg_table_def)
  have "env_text demo_env (cfg_table ! 3) = Some ''9000''" "cfg_parse (cfg_table ! 3) ''9000'' = Some (VInt 9000)"
    using demo_numbers
    by (simp_all add: env_text_def demo_env_def cfg_parse_def cfg_table_def cfg_entry_def toupper_keys)
  then show ?thesis using config_load_precedence [OF demo_load e refl] by simp
qed

text \<open>Ranges: after a successful load every integer field lies in the range of its table row,
  every string fits its buffer with the terminating NUL, and no double lies outside its range. In
  particular the divisor \<open>poll_interval_s\<close> is positive and the ring capacity is from 1 to 3600.\<close>

theorem config_load_ranges:
  assumes "config_load fopen getenv path = Some cfg"
  shows "list_all (\<lambda>e. val_ok e (cfg_get e cfg)) cfg_table \<and>
    1 \<le> poll_interval_s cfg \<and> poll_interval_s cfg \<le> 60 \<and>
    1 \<le> c_div (window_s cfg) (poll_interval_s cfg) \<and> c_div (window_s cfg) (poll_interval_s cfg) \<le> 3600"
  using config_load_in_range [OF assms] cfg_in_range_ints(1) [OF config_load_in_range [OF assms]]
    ring_capacity_range [OF config_load_in_range [OF assms]]
  by (simp add: cfg_in_range_def)

theorem config_load_ranges_witness:
  "1 \<le> c_div (window_s (cfg_defaults\<lparr>listen_port := 9000, window_s := 600\<rparr>))
          (poll_interval_s (cfg_defaults\<lparr>listen_port := 9000, window_s := 600\<rparr>))"
  using config_load_ranges [OF demo_load] by blast

text \<open>C38. Failure: loading fails exactly when the configuration file cannot be opened or some text
  assigned to a key, by the file or by the environment, is refused by that key. Comments, blank
  lines, lines without an equals sign and unknown keys never make it fail.\<close>

theorem config_load_fails_iff:
  "config_load fopen getenv path = None \<longleftrightarrow>
     (\<exists>name. path = Some name \<and> fopen name = None) \<or>
     (\<exists>name content. path = Some name \<and> fopen name = Some content \<and>
        (\<exists>(e, s)\<in>set (file_assigns content). cfg_parse e s = None)) \<or>
     (\<exists>(e, s)\<in>set (env_assigns getenv). cfg_parse e s = None)"
proof -
  have "\<forall>(e', s)\<in>set (file_assigns c @ env_assigns getenv). e' \<in> set cfg_table" for c
    using file_assigns_slots [of c] env_assigns_slots [of getenv] by auto
  then show ?thesis
    unfolding config_load_assigns
    by (auto simp: slots.assigns_refuses env_assigns_slots split: option.splits)
qed

section \<open>Names of the environment variables\<close>

text \<open>Every environment variable name fits the 128-byte buffer without truncation, is the
  upper-case key behind the prefix, and no two keys share a variable.\<close>

theorem envvar_names:
  "distinct (map (\<lambda>e. key_to_envvar (key e) 128) cfg_table) \<and>
   list_all (\<lambda>e. key_to_envvar (key e) 128 = ''GPU_HEALTH_'' @ map toupper (key e) \<and>
     length (key_to_envvar (key e) 128) + 1 \<le> 128) cfg_table"
  using env_names_distinct table_envnames unfolding list_all_iff by (simp only: Suc_eq_plus1 [symmetric] Suc_le_eq)

section \<open>Validation\<close>

text \<open>A configuration that passes validation and has no NaN among the compared thresholds has
  every pair of thresholds in strict order, so each graded rule of the scorer can report its milder
  grade, and a probe result outlives the probe interval.\<close>

theorem config_validate_sound:
  assumes "config_validate cfg"
    and "list_all (\<lambda>d. \<not> isnan d) [temp_p95_warn_c cfg, temp_p95_bad_c cfg, hbm_temp_p95_warn_c cfg,
          hbm_temp_p95_bad_c cfg, perf_drop_warn cfg, perf_drop_bad cfg, perf_drop_severe cfg]"
  shows "dlt (temp_p95_warn_c cfg) (temp_p95_bad_c cfg) \<and> dlt (hbm_temp_p95_warn_c cfg) (hbm_temp_p95_bad_c cfg) \<and>
    dlt (perf_drop_warn cfg) (perf_drop_bad cfg) \<and> dlt (perf_drop_bad cfg) (perf_drop_severe cfg) \<and>
    retired_pages_warn cfg \<le> retired_pages_bad cfg \<and> probe_interval_s cfg \<le> probe_ttl_s cfg"
  using assms by (auto simp: config_validate_def dlt_iff_not_dle split: if_splits)

theorem config_validate_sound_witness: "dlt (perf_drop_warn cfg_defaults) (perf_drop_bad cfg_defaults)"
proof -
  have "config_validate cfg_defaults"
    "list_all (\<lambda>d. \<not> isnan d) [temp_p95_warn_c cfg_defaults, temp_p95_bad_c cfg_defaults,
       hbm_temp_p95_warn_c cfg_defaults, hbm_temp_p95_bad_c cfg_defaults, perf_drop_warn cfg_defaults,
       perf_drop_bad cfg_defaults, perf_drop_severe cfg_defaults]"
    by (simp_all add: config_validate_def cfg_defaults_def default_doubles)
  then show ?thesis using config_validate_sound [of cfg_defaults] by blast
qed

definition nan_env :: "string \<Rightarrow> string option" where
  "nan_env name = (if name = ''GPU_HEALTH_POWER_PENALTY_MAX'' \<or> name = ''GPU_HEALTH_TEMP_P95_BAD_C''
                   then Some ''nan'' else None)"

lemma nan_env_assigns: "env_assigns nan_env = [(cfg_table ! 11, ''nan''), (cfg_table ! 16, ''nan'')]"
  unfolding env_assigns_zip env_names by (simp add: cfg_table_def List.map_filter_simps nan_env_def)

text \<open>The text \<open>nan\<close> is accepted for a numeric key: it compares false with both range bounds
  and in validation, so a configuration with a NaN penalty and a NaN threshold loads and validates.\<close>

theorem config_accepts_nan:
  "config_load (\<lambda>_. None) nan_env None = Some (cfg_defaults\<lparr>temp_p95_bad_c := NaN, power_penalty_max := NaN\<rparr>) \<and>
   config_validate (cfg_defaults\<lparr>temp_p95_bad_c := NaN, power_penalty_max := NaN\<rparr>)"
proof
  show "config_load (\<lambda>_. None) nan_env None = Some (cfg_defaults\<lparr>temp_p95_bad_c := NaN, power_penalty_max := NaN\<rparr>)"
    using nan_env_assigns
    by (simp add: config_load_assigns apply_entry_def parse_double_nan cfg_table_def cfg_entry_def)
  show "config_validate (cfg_defaults\<lparr>temp_p95_bad_c := NaN, power_penalty_max := NaN\<rparr>)"
    by (simp add: config_validate_def cfg_defaults_def default_doubles)
qed

section \<open>Numbers\<close>

text \<open>Round trip: an integer printed with \<open>%d\<close> is read back by \<open>parse_int\<close> as the same
  integer when it lies in the range, and refused when it does not.\<close>

theorem parse_int_round_trip:
  assumes "\<bar>n\<bar> < 2 ^ 63"
  shows "parse_int (fmt_d n) lo hi = (if lo \<le> n \<and> n \<le> hi then Some n else None)"
  by (rule parse_int_fmt_d [OF assms])

theorem parse_int_round_trip_witness: "parse_int (fmt_d (- 42)) (- 100) 100 = Some (- 42)"
  using parse_int_round_trip [of "- 42" "- 100" 100] by simp

end
