(* ===== verification/ScoreProps.thy ===== *)
theory ScoreProps
  imports Scorer ConfigProps
begin

text \<open>
  What the scoring engine promises: the score is a number between 0 and 100 and the class follows
  from it, every reason bit is set exactly when its condition holds, a failed telemetry gate is
  never scored, and the result depends on the samples in the window only, not on where the ring
  buffer keeps them. The last sections treat the two statistics with a meaning of their own: the
  95th percentile and the median sampling step.
\<close>

section \<open>A concrete GPU\<close>

text \<open>
  The inputs of the witnesses: a four-slot ring filled by five pushes, so that it has wrapped, a
  sampling gate for it, and a hot GPU with a double-bit error and a degraded link.
\<close>

definition gpu_env :: "string \<Rightarrow> string option" where
  "gpu_env name =
     (if name = ''GPU_HEALTH_POLL_INTERVAL_S'' then Some ''20''
      else if name = ''GPU_HEALTH_WINDOW_S'' then Some ''80''
      else if name = ''GPU_HEALTH_MIN_SAMPLE_RATIO'' then Some ''0.75''
      else if name = ''GPU_HEALTH_MAX_MEDIAN_STEP_S'' then Some ''30''
      else if name = ''GPU_HEALTH_MIN_SAMPLES_ABSOLUTE'' then Some ''2''
      else None)"

definition demo_cfg :: gpu_config_t where
  "demo_cfg = cfg_defaults\<lparr>poll_interval_s := 20, window_s := 80, min_sample_ratio := Fin (3/4),
     max_median_step_s := Fin 30, min_samples_absolute := 2\<rparr>"

lemma gpu_env_assigns: "env_assigns gpu_env = [(cfg_table ! 4, ''20''), (cfg_table ! 5, ''80''),
    (cfg_table ! 7, ''0.75''), (cfg_table ! 8, ''30''), (cfg_table ! 9, ''2'')]"
  unfolding env_assigns_zip env_names by (simp add: cfg_table_def List.map_filter_simps gpu_env_def)

lemma gpu_env_numbers: "parse_int ''20'' 1 60 = Some 20" "parse_int ''80'' 60 3600 = Some 80"
  "parse_double ''0.75'' (Fin 0) (Fin 1) = Some (Fin (3/4))"
  "parse_double ''30'' (fl (1/10)) (Fin 30) = Some (Fin 30)" "parse_int ''2'' 1 1000 = Some 2"
  by code_simp+

lemma demo_cfg_load: "config_load (\<lambda>_. None) gpu_env None = Some demo_cfg"
  using gpu_env_numbers
  by (simp add: config_load_assigns gpu_env_assigns apply_entry_def cfg_table_def cfg_entry_def demo_cfg_def)

definition demo_sample :: "rat \<Rightarrow> u64 \<Rightarrow> u64 \<Rightarrow> gpu_sample_t" where
  "demo_sample t dbe ts = \<lparr>power_w = Fin 300, power_limit_w = Fin 700, temp_c = Fin t, hbm_temp_c = NaN,
     sm_clock_mhz = Fin 1500, ecc_sbe_volatile = 0, ecc_dbe_volatile = dbe, timestamp_ms = ts\<rparr>"

definition demo_samples :: "rat \<Rightarrow> u64 \<Rightarrow> gpu_sample_t list" where
  "demo_samples t dbe =
     [demo_sample t 0 1000, demo_sample t 0 21000, demo_sample t 0 41000, demo_sample t 0 61000, demo_sample t dbe 81000]"

definition demo_ring :: "rat \<Rightarrow> u64 \<Rightarrow> gpu_ring_t" where
  "demo_ring t dbe = foldl ring_push (ring_alloc 4) (demo_samples t dbe)"

definition demo_state :: gpu_state_t where
  "demo_state = zero_state\<lparr>st_pcie_link_gen := 3, st_pcie_link_gen_max := 5,
     st_pcie_link_width := 16, st_pcie_link_width_max := 16\<rparr>"

lemma demo_ring_eq: "demo_ring t dbe = \<lparr>samples = [demo_sample t dbe 81000, demo_sample t 0 21000,
    demo_sample t 0 41000, demo_sample t 0 61000], head = 1, rcount = 4, capacity = 4\<rparr>"
  by (simp add: demo_ring_def demo_samples_def ring_alloc_def ring_push_def Let_def numeral_eq_Suc)

lemma demo_window: "window (demo_ring t dbe) =
    [demo_sample t 0 21000, demo_sample t 0 41000, demo_sample t 0 61000, demo_sample t dbe 81000]"
  by (simp add: window_def ring_at_def ring_idx_def demo_ring_eq upt_rec numeral_eq_Suc)

lemma demo_median: "gate_median (demo_ring t dbe) = Fin 20"
proof -
  have "ddiv (of_u64 20000) (Fin 1000) = Fin 20" by code_simp
  moreover have "c_range 3 = [0, 1, 2]" by code_simp
  ultimately have "gate_deltas (demo_ring t dbe) = [Fin 20, Fin 20, Fin 20]"
    by (simp add: gate_deltas_def demo_ring_eq ring_at_def ring_idx_def demo_sample_def)
  then show ?thesis by (simp add: gate_median_def demo_ring_eq cmp_double_def)
qed

lemma demo_facts:
  "rcount (demo_ring t dbe) = 4" "dmul (Fin (3/4)) (of_c_int 4) = Fin 3" "dbe_active (demo_ring 95 1)"
proof -
  show "dmul (Fin (3/4)) (of_c_int 4) = Fin 3" by code_simp
qed (simp_all add: demo_ring_eq dbe_active_def ring_first_def ring_last_def demo_sample_def)

lemma demo_gate: "completeness_gate (demo_ring t dbe) demo_cfg"
  using demo_facts demo_median by (simp add: completeness_gate_def demo_cfg_def)

section \<open>Score and class\<close>

lemma gate_count: "completeness_gate ring cfg \<Longrightarrow> 2 \<le> rcount ring \<and> min_samples_absolute cfg \<le> rcount ring"
  by (auto simp: completeness_gate_def Let_def split: if_splits)

lemma score_gpu_gate_fail:
  "\<not> completeness_gate ring cfg \<Longrightarrow> score_gpu mo ring st b p cfg =
     zero_score\<lparr>sc_perf_drop_frac := NaN, sc_reason_mask := GPU_REASON_TELEMETRY_INCOMPLETE\<rparr>"
  by (simp add: score_gpu_def Let_def zero_score_def)

lemma score_gpu_gate_pass_score:
  assumes "completeness_gate ring cfg" "scoring_cfg_ok cfg" "rcount ring \<le> 2 ^ 30"
  shows "\<exists>q. sc_score (score_gpu mo ring st b p cfg) = Fin q \<and> 0 \<le> q \<and> q \<le> 100 \<and>
             sc_classification (score_gpu mo ring st b p cfg) = classify (Fin q)"
proof -
  have "0 < rcount ring" using gate_count [OF assms(1)] by simp
  with raw_score_range [OF assms(2) _ assms(3), of mo st b p] obtain q
    where "fst (apply_rules (score_rules mo ring st b p cfg) (Fin 100, 0)) = Fin q" "q \<le> 100" by blast
  with clamp_score_range [of q] show ?thesis
    by (auto simp: score_gpu_rules [OF assms(1) refl])
qed

lemma score_gpu_range_class:
  assumes "scoring_cfg_ok cfg" "rcount ring \<le> 2 ^ 30"
  shows "\<exists>q. sc_score (score_gpu mo ring st b p cfg) = Fin q \<and> 0 \<le> q \<and> q \<le> 100 \<and>
    sc_classification (score_gpu mo ring st b p cfg) =
      (if \<not> completeness_gate ring cfg then GPU_CLASS_NA
       else if 85 \<le> q then GPU_CLASS_HEALTHY else if 70 \<le> q then GPU_CLASS_MONITOR
       else if 50 \<le> q then GPU_CLASS_DEGRADING else GPU_CLASS_DECOMMISSION)"
proof (cases "completeness_gate ring cfg")
  case True
  then show ?thesis using score_gpu_gate_pass_score [OF True assms, of mo st b p] by (auto simp: classify_def)
next
  case False
  then show ?thesis by (simp add: score_gpu_gate_fail zero_score_def)
qed

text \<open>The ring the collector allocates for a configuration, after any samples.\<close>

definition ring_for :: "gpu_config_t \<Rightarrow> gpu_ring_t" where
  "ring_for cfg = ring_alloc (c_div (window_s cfg) (poll_interval_s cfg))"

lemma ring_for_pushes:
  assumes "cfg_in_range cfg" and r: "r = foldl ring_push (ring_for cfg) xs"
  shows "ring_wf r" "capacity r = c_div (window_s cfg) (poll_interval_s cfg)" "rcount r \<le> 3600"
proof -
  let ?c = "c_div (window_s cfg) (poll_interval_s cfg)"
  have "ring_wf_cap ?c r" unfolding r ring_for_def by (rule ring.wf_pushes [OF ring.wf_empty])
  then show "ring_wf r" "capacity r = ?c" "rcount r \<le> 3600"
    using ring_capacity_range [OF assms(1)] by (auto simp: ring_wf_cap_def ring_wf_def)
qed

text \<open>No double of the configuration is NaN.\<close>

definition cfg_no_nan :: "gpu_config_t \<Rightarrow> bool" where
  "cfg_no_nan cfg \<longleftrightarrow> list_all (\<lambda>e. cfg_get e cfg \<noteq> VDbl NaN) cfg_table"

lemma in_rangeI: "\<not> dlt d (Fin lo) \<Longrightarrow> \<not> dlt (Fin hi) d \<Longrightarrow> d \<noteq> NaN \<Longrightarrow> in_range lo hi d"
  by (cases d) (auto simp: in_range_def)

lemma loaded_scoring_cfg_ok: "cfg_in_range cfg \<Longrightarrow> cfg_no_nan cfg \<Longrightarrow> scoring_cfg_ok cfg"
  unfolding scoring_cfg_ok_def
  by (intro conjI in_rangeI)
    (simp_all add: cfg_in_range_def cfg_no_nan_def cfg_table_def cfg_entry_def val_ok_def cfg_get_def)

text \<open>C6. For every configuration that loads and whose numbers are not NaN, and for any history of
  samples, the health score is a finite number from 0 to 100 and the class is the documented
  function of it: not available when the telemetry gate fails, otherwise healthy from 85, monitor
  from 70, degrading from 50, decommission below 50.\<close>

theorem score_gpu_range_and_class:
  assumes "config_load fopen getenv path = Some cfg" "cfg_no_nan cfg"
    and "r = foldl ring_push (ring_for cfg) xs"
  shows "\<exists>q. sc_score (score_gpu mo r st b p cfg) = Fin q \<and> 0 \<le> q \<and> q \<le> 100 \<and>
    sc_classification (score_gpu mo r st b p cfg) =
      (if \<not> completeness_gate r cfg then GPU_CLASS_NA
       else if 85 \<le> q then GPU_CLASS_HEALTHY else if 70 \<le> q then GPU_CLASS_MONITOR
       else if 50 \<le> q then GPU_CLASS_DEGRADING else GPU_CLASS_DECOMMISSION)"
  using score_gpu_range_class [OF loaded_scoring_cfg_ok [OF config_load_in_range [OF assms(1)] assms(2)]]
    ring_for_pushes(3) [OF config_load_in_range [OF assms(1)] assms(3)] by simp

lemma demo_cfg_no_nan: "cfg_no_nan demo_cfg"
  by (simp add: cfg_no_nan_def cfg_table_def cfg_entry_def cfg_get_def demo_cfg_def cfg_defaults_def default_doubles)

lemma demo_ring_for: "demo_ring t dbe = foldl ring_push (ring_for demo_cfg) (demo_samples t dbe)"
  by (simp add: demo_ring_def ring_for_def demo_cfg_def)

theorem score_gpu_range_and_class_witness:
  "\<exists>q. sc_score (score_gpu (True, True) (demo_ring 95 1) demo_state None None demo_cfg) = Fin q \<and> 0 \<le> q \<and> q \<le> 100"
  using score_gpu_range_and_class [OF demo_cfg_load demo_cfg_no_nan demo_ring_for, of "(True, True)" 95 1 demo_state None None]
  by blast

section \<open>Refinement of the rule table\<close>

text \<open>C7. Refinement: when the window passes the completeness gate, the nine stages of the scorer are sixteen rules
  applied in order to the score 100 and the empty mask; the result is clamped at 0 and classified, the
  stale-probe bit is added without a penalty, and every statistic is reported. The rules are those of the penalty
  tables in README.md and in section 4 of DESIGN.md. Two other descriptions are not what the code does:
  gpu-health.conf.example gives a GPU above its bad temperature the score 0 and one below it a proportional
  penalty, where the rules take fixed 25 and 10 points; and scorer.h, like the list of inputs in DESIGN.md, names
  pending remaps, XID errors, throttle reasons and pages retired for single-bit errors, which no rule reads.\<close>

theorem score_gpu_refines_table:
  assumes "completeness_gate ring cfg"
  shows "score_gpu mo ring st b p cfg =
     (let v = apply_rules (score_rules mo ring st b p cfg) (Fin 100, 0) in
      (with_drop (perf_drop b p) (stats_out mo ring cfg (zero_score\<lparr>sc_perf_drop_frac := NaN, sc_telemetry_ok := True\<rparr>)))
       \<lparr>sc_score := clamp_score (fst v),
        sc_reason_mask := (if probe_is_stale p then snd v OR GPU_REASON_PROBE_STALE else snd v),
        sc_classification := classify (clamp_score (fst v))\<rparr>)"
  unfolding Let_def by (rule score_gpu_rules [OF assms refl])

theorem score_gpu_refines_table_witness:
  "sc_score (score_gpu (True, True) (demo_ring 95 1) demo_state None None demo_cfg) =
     clamp_score (fst (apply_rules (score_rules (True, True) (demo_ring 95 1) demo_state None None demo_cfg) (Fin 100, 0)))"
  by (simp add: score_gpu_refines_table [OF demo_gate] Let_def)

text \<open>The fields of the state that documents name as inputs of the score, and that it does not depend on.\<close>

lemma score_gpu_unread_state:
  "score_gpu mo ring (st\<lparr>st_pending_row_remap := a, st_retired_pages_sbe := r, st_xid_count := x, st_xid_last_code := l,
     st_throttle_sw_power_cap := t1, st_throttle_hw_slowdown := t2, st_throttle_hw_power_brake := t3,
     st_throttle_sw_thermal := t4, st_throttle_hw_thermal := t5\<rparr>) b p cfg = score_gpu mo ring st b p cfg"
proof -
  let ?st = "st\<lparr>st_pending_row_remap := a, st_retired_pages_sbe := r, st_xid_count := x, st_xid_last_code := l,
     st_throttle_sw_power_cap := t1, st_throttle_hw_slowdown := t2, st_throttle_hw_power_brake := t3,
     st_throttle_sw_thermal := t4, st_throttle_hw_thermal := t5\<rparr>"
  have "score_retired ?st cfg v = score_retired st cfg v" "score_remap ?st cfg v = score_remap st cfg v"
    "score_pcie ?st cfg v = score_pcie st cfg v" for v
    by (cases v; simp add: score_retired_def score_remap_def score_pcie_def Let_def)+
  then show ?thesis by (simp only: score_gpu_def)
qed

section \<open>The reason mask\<close>

lemma has_reason_score_gpu:
  assumes "completeness_gate ring cfg" "n < 18"
  shows "has_reason (sc_reason_mask (score_gpu mo ring st b p cfg)) (reason_bit n) \<longleftrightarrow>
    (\<exists>(c, q, r)\<in>set (score_rules mo ring st b p cfg). c \<and> bit r n) \<or> (n = 17 \<and> probe_is_stale p)"
  using assms by (simp add: has_reason_bit score_gpu_mask)

lemma has_reason_gate_fail:
  assumes "\<not> completeness_gate ring cfg" "n < 32"
  shows "has_reason (sc_reason_mask (score_gpu mo ring st b p cfg)) (reason_bit n) \<longleftrightarrow> n = 16"
  using assms by (simp add: score_gpu_gate_fail has_reason_bit GPU_REASON_TELEMETRY_INCOMPLETE_def bit_reason_bit)

text \<open>The statistics of the concrete ring.\<close>

lemma demo_p95: "ring_p95 mo (demo_ring t dbe) temp_c = Fin t" "ring_p95 mo (demo_ring t dbe) hbm_temp_c = NaN"
proof -
  have "p95_rank 4 = 4" by code_simp
  then show "ring_p95 mo (demo_ring t dbe) temp_c = Fin t" "ring_p95 mo (demo_ring t dbe) hbm_temp_c = NaN"
    unfolding ring_p95_def map_sample_field demo_window
    by (simp_all add: demo_facts demo_sample_def cmp_double_def)
qed

lemma demo_stddev: "ring_stddev (demo_ring t dbe) sm_clock_mhz = Fin 0"
proof -
  have r: "c_range 4 = [0, 1, 2, 3]" "fl 3000 = Fin 3000" "fl 4500 = Fin 4500" "fl 6000 = Fin 6000" "fl 1500 = Fin 1500"
    "fl 0 = Fin 0" by code_simp+
  have f: "sample_field (demo_ring t dbe) i sm_clock_mhz = Fin 1500" if "i \<in> {0, 1, 2, 3}" for i
    using that by (auto simp: sample_field_def ring_at_def ring_idx_def demo_ring_eq demo_sample_def)
  show ?thesis
    by (simp add: ring_stddev_def ring_mean_def Let_def demo_facts r f dsub_Fin)
qed

lemma demo_power: "power_sat_frac (demo_ring t dbe) demo_cfg = Fin 0"
proof -
  have *: "fl 0 = Fin 0" "\<not> dle (dmul (fl (49/50)) (Fin 700)) (Fin 300)" by code_simp+
  show ?thesis
    by (simp add: power_sat_frac_eq demo_window saturated_def demo_sample_def demo_cfg_def cfg_defaults_def demo_facts * )
qed

lemma demo_sbe: "sbe_rate (demo_ring t dbe) = Fin 0"
proof -
  have "ddiv (Fin 0) d = Fin 0" if "dlt (Fin 0) d" for d using that by (cases d) (auto simp: fl_exact)
  moreover have "of_u64 0 = Fin 0" by (simp add: of_u64_def)
  ultimately show ?thesis
    by (simp add: sbe_rate_def Let_def demo_ring_eq ring_first_def ring_last_def demo_sample_def)
qed

lemma demo_dbe: "dbe_active (demo_ring t dbe) \<longleftrightarrow> 0 < dbe"
  by (simp add: demo_ring_eq dbe_active_def ring_first_def ring_last_def demo_sample_def)

lemmas demo_stats = demo_p95 demo_stddev demo_power demo_sbe demo_dbe

text \<open>C18. Thermal, clock, power and ECC reasons mean what they say: when the window passes the completeness
  gate, each of these bits of the mask is set exactly when the statistic crosses its threshold, and the two
  temperature bits exclude each other.\<close>

theorem score_gpu_telemetry_reasons:
  assumes "completeness_gate ring cfg"
    and "r = sc_reason_mask (score_gpu mo ring st b p cfg)"
    and "t = ring_p95 (fst mo) ring temp_c" "h = ring_p95 (snd mo) ring hbm_temp_c"
  shows "(has_reason r GPU_REASON_TEMP_BAD \<longleftrightarrow> dlt (temp_p95_bad_c cfg) t) \<and>
    (has_reason r GPU_REASON_TEMP_WARN \<longleftrightarrow> dlt (temp_p95_warn_c cfg) t \<and> \<not> dlt (temp_p95_bad_c cfg) t) \<and>
    (has_reason r GPU_REASON_HBM_TEMP_BAD \<longleftrightarrow> dlt (hbm_temp_p95_bad_c cfg) h) \<and>
    (has_reason r GPU_REASON_HBM_TEMP_WARN \<longleftrightarrow> dlt (hbm_temp_p95_warn_c cfg) h \<and> \<not> dlt (hbm_temp_p95_bad_c cfg) h) \<and>
    (has_reason r GPU_REASON_CLK_STD_HIGH \<longleftrightarrow> dlt (clk_std_warn_mhz cfg) (ring_stddev ring sm_clock_mhz)) \<and>
    (has_reason r GPU_REASON_POWER_SATURATION \<longleftrightarrow> dlt (Fin 0) (power_sat_frac ring cfg)) \<and>
    (has_reason r GPU_REASON_ECC_SBE_HIGH \<longleftrightarrow> dlt (ecc_sbe_rate_warn_per_hour cfg) (sbe_rate ring)) \<and>
    (has_reason r GPU_REASON_ECC_DBE_ACTIVE \<longleftrightarrow> dbe_active ring)"
  unfolding assms(2-4) reason_mask_defs
  by (intro conjI; auto simp: has_reason_score_gpu [OF assms(1)] rule_table_defs Let_def reason_mask_defs bit_reason_bit)

theorem score_gpu_telemetry_reasons_witness:
  "has_reason (sc_reason_mask (score_gpu (True, True) (demo_ring 95 1) demo_state None None demo_cfg)) GPU_REASON_TEMP_BAD \<and>
   \<not> has_reason (sc_reason_mask (score_gpu (True, True) (demo_ring 95 1) demo_state None None demo_cfg)) GPU_REASON_TEMP_WARN \<and>
   has_reason (sc_reason_mask (score_gpu (True, True) (demo_ring 95 1) demo_state None None demo_cfg)) GPU_REASON_ECC_DBE_ACTIVE"
  using score_gpu_telemetry_reasons [OF demo_gate [of 95 1] refl refl refl, of "(True, True)" demo_state None None]
  by (simp add: demo_stats demo_cfg_def cfg_defaults_def)

text \<open>C19. Hardware-state and drift reasons: when the window passes the completeness gate, the retired
  page, row remap, PCIe, performance drop and stale probe bits are set exactly on the conditions stated here,
  and at most one bit of a graded pair or triple is set. The telemetry-incomplete bit is not set. Both bits of
  retired pages look at the pages retired for double-bit errors alone, as README.md and types.h say;
  gpu-health.conf.example calls their thresholds counts of the single-bit cause, and DESIGN.md lists a threshold on
  that count, which the scorer does not read.\<close>

theorem score_gpu_state_reasons:
  assumes "completeness_gate ring cfg"
    and "r = sc_reason_mask (score_gpu mo ring st b p cfg)"
  shows "(has_reason r GPU_REASON_RETIRED_PAGES_BAD \<longleftrightarrow> word_of_int (retired_pages_bad cfg) \<le> st_retired_pages_dbe st) \<and>
    (has_reason r GPU_REASON_RETIRED_PAGES_WARN \<longleftrightarrow>
           word_of_int (retired_pages_warn cfg) \<le> st_retired_pages_dbe st \<and>
           \<not> word_of_int (retired_pages_bad cfg) \<le> st_retired_pages_dbe st) \<and>
    (has_reason r GPU_REASON_ROW_REMAP \<longleftrightarrow> 0 < st_row_remap_failures st) \<and>
    (has_reason r GPU_REASON_PCIE_GEN \<longleftrightarrow> 0 < st_pcie_link_gen st \<and> st_pcie_link_gen st < st_pcie_link_gen_max st) \<and>
    (has_reason r GPU_REASON_PCIE_WIDTH \<longleftrightarrow> 0 < st_pcie_link_width st \<and> st_pcie_link_width st < st_pcie_link_width_max st) \<and>
    (has_reason r GPU_REASON_PERF_DROP_SEVERE \<longleftrightarrow> perf_above b p (perf_drop_severe cfg)) \<and>
    (has_reason r GPU_REASON_PERF_DROP_BAD \<longleftrightarrow> perf_above b p (perf_drop_bad cfg) \<and> \<not> perf_above b p (perf_drop_severe cfg)) \<and>
    (has_reason r GPU_REASON_PERF_DROP_WARN \<longleftrightarrow> perf_above b p (perf_drop_warn cfg) \<and>
           \<not> perf_above b p (perf_drop_bad cfg) \<and> \<not> perf_above b p (perf_drop_severe cfg)) \<and>
    (has_reason r GPU_REASON_PROBE_STALE \<longleftrightarrow> probe_is_stale p) \<and>
    (\<not> has_reason r GPU_REASON_TELEMETRY_INCOMPLETE)"
  unfolding assms(2) reason_mask_defs
  by (intro conjI; auto simp: has_reason_score_gpu [OF assms(1)] rule_table_defs Let_def reason_mask_defs bit_reason_bit)

theorem score_gpu_state_reasons_witness:
  "has_reason (sc_reason_mask (score_gpu (True, True) (demo_ring 95 1) demo_state None None demo_cfg)) GPU_REASON_PCIE_GEN \<and>
   \<not> has_reason (sc_reason_mask (score_gpu (True, True) (demo_ring 95 1) demo_state None None demo_cfg)) GPU_REASON_PCIE_WIDTH"
  using score_gpu_state_reasons [OF demo_gate [of 95 1] refl, of "(True, True)" demo_state None None]
  by (simp add: demo_state_def zero_state_def)

lemma no_rule_active:
  assumes "completeness_gate ring cfg"
    and "sc_reason_mask (score_gpu mo ring st b p cfg) AND NOT GPU_REASON_PROBE_STALE = 0"
  shows "\<forall>(c, q, r)\<in>set (score_rules mo ring st b p cfg). \<not> c"
proof -
  have no: False if rule: "(True, q, r) \<in> set (score_rules mo ring st b p cfg)" for q r
  proof -
    from active_reason_bit [OF rule] obtain n where n: "n < 16" "r = reason_bit n" by blast
    with rule have "bit (sc_reason_mask (score_gpu mo ring st b p cfg)) n"
      using score_gpu_mask [OF assms(1), of n mo st b p] by (force simp: bit_reason_bit)
    then have "bit (sc_reason_mask (score_gpu mo ring st b p cfg) AND NOT GPU_REASON_PROBE_STALE) n"
      using n(1) by (simp add: bit_and_iff bit_not_iff GPU_REASON_PROBE_STALE_def bit_reason_bit)
    then show False by (simp add: assms(2))
  qed
  show ?thesis by (auto dest: no)
qed

text \<open>No penalty without a reason: when the gate has passed and no reason bit other than the
  advisory stale-probe bit is set, the score is exactly 100 and the class is healthy. A GPU is never
  marked down silently.\<close>

theorem no_reason_full_score:
  assumes "completeness_gate ring cfg"
    and "sc_reason_mask (score_gpu mo ring st b p cfg) AND NOT GPU_REASON_PROBE_STALE = 0"
  shows "sc_score (score_gpu mo ring st b p cfg) = Fin 100 \<and>
    sc_classification (score_gpu mo ring st b p cfg) = GPU_CLASS_HEALTHY"
  using apply_rules_none [OF no_rule_active [OF assms]]
  by (simp add: score_gpu_rules [OF assms(1) refl] clamp_score_def classify_def)

lemma demo_cfg_fields:
  "temp_p95_bad_c demo_cfg = Fin 90" "temp_p95_warn_c demo_cfg = Fin 80" "clk_std_warn_mhz demo_cfg = Fin 120"
  "ecc_sbe_rate_warn_per_hour demo_cfg = Fin 100" "retired_pages_bad demo_cfg = 10" "retired_pages_warn demo_cfg = 1"
  by (simp_all add: demo_cfg_def cfg_defaults_def)

lemma zero_state_fields: "st_retired_pages_dbe zero_state = 0" "st_row_remap_failures zero_state = 0"
  "st_pcie_link_gen zero_state = 0" "st_pcie_link_width zero_state = 0"
  by (simp_all add: zero_state_def)

lemma demo_no_rule: "\<forall>(c, q, r)\<in>set (score_rules (True, True) (demo_ring 60 0) zero_state None None demo_cfg). \<not> c"
  by (simp add: rule_table_defs demo_stats demo_cfg_fields zero_state_fields perf_above_def perf_drop_def)

lemma demo_mask: "sc_reason_mask (score_gpu (True, True) (demo_ring 60 0) zero_state None None demo_cfg) = 0"
  unfolding score_gpu_rules [OF demo_gate refl] apply_rules_none [OF demo_no_rule]
  by (simp add: probe_is_stale_def)

theorem no_reason_full_score_witness:
  "sc_score (score_gpu (True, True) (demo_ring 60 0) zero_state None None demo_cfg) = Fin 100"
  using no_reason_full_score [OF demo_gate [of 60 0], of "(True, True)" zero_state None None] demo_mask by simp

lemma score_gpu_ok: "completeness_gate ring cfg \<Longrightarrow> sc_telemetry_ok (score_gpu mo ring st b p cfg)"
  by (simp add: score_gpu_rules with_drop_def stats_out_def split: option.split)

lemma classify_not_NA: "classify s \<noteq> GPU_CLASS_NA"
  by (simp add: classify_def)

text \<open>Insufficient telemetry is never scored: the class NA, the telemetry-incomplete reason (then
  the only reason) and the cleared telemetry flag all mean exactly that the gate failed.\<close>

theorem score_gpu_gate_iff:
  "(sc_classification (score_gpu mo ring st b p cfg) = GPU_CLASS_NA \<longleftrightarrow> \<not> completeness_gate ring cfg) \<and>
   (has_reason (sc_reason_mask (score_gpu mo ring st b p cfg)) GPU_REASON_TELEMETRY_INCOMPLETE \<longleftrightarrow>
     \<not> completeness_gate ring cfg) \<and>
   (sc_telemetry_ok (score_gpu mo ring st b p cfg) \<longleftrightarrow> completeness_gate ring cfg) \<and>
   (sc_reason_mask (score_gpu mo ring st b p cfg) = GPU_REASON_TELEMETRY_INCOMPLETE \<longleftrightarrow> \<not> completeness_gate ring cfg)"
  (is "?cls \<and> ?incomplete \<and> ?ok \<and> ?only")
proof -
  have incomplete: ?incomplete
    unfolding GPU_REASON_TELEMETRY_INCOMPLETE_def
    by (cases "completeness_gate ring cfg")
      (auto simp: has_reason_gate_fail has_reason_score_gpu rule_table_defs Let_def reason_mask_defs bit_reason_bit)
  moreover have ?only
    using incomplete by (auto simp: score_gpu_gate_fail GPU_REASON_TELEMETRY_INCOMPLETE_def has_reason_bit bit_reason_bit)
  moreover have ?cls
    by (cases "completeness_gate ring cfg") (simp_all add: score_gpu_gate_fail score_gpu_rules classify_not_NA zero_score_def)
  moreover have ?ok
    by (cases "completeness_gate ring cfg") (simp_all add: score_gpu_gate_fail score_gpu_ok zero_score_def)
  ultimately show ?thesis by blast
qed

section \<open>Layout independence\<close>

lemma rcount_window: "ring_wf ring \<Longrightarrow> rcount ring = int (length (window ring))"
  by (simp add: ring_wf_def)

lemma ring_p95_window: "ring_p95 mo ring f =
    (if rcount ring = 0 then NaN else if \<not> rcount ring \<le> 300 \<and> \<not> mo then NaN
     else qsort cmp_double (map f (window ring)) ! nat (p95_rank (rcount ring) - 1))"
  by (simp add: ring_p95_def map_sample_field)

lemma ring_mean_window: "ring_mean ring f =
    (if rcount ring = 0 then NaN
     else ddiv (foldl (\<lambda>a s. dadd a (f s)) (Fin 0) (window ring)) (of_c_int (rcount ring)))"
  by (simp add: ring_mean_def foldl_sample_field)

lemma ring_stddev_window: "ring_stddev ring f =
    (if rcount ring < 2 then NaN
     else dsqrt (ddiv (foldl (\<lambda>a s. dadd a (dmul (dsub (f s) (ring_mean ring f)) (dsub (f s) (ring_mean ring f))))
                         (Fin 0) (window ring)) (of_c_int (rcount ring - 1))))"
  unfolding ring_stddev_def Let_def
  by (simp add: foldl_sample_field [where g = "\<lambda>a d. dadd a (dmul (dsub d (ring_mean ring f)) (dsub d (ring_mean ring f)))"])

lemma gate_deltas_window: "gate_deltas ring =
    map (\<lambda>i. let dt = ddiv (of_u64 (timestamp_ms (window ring ! (i + 1)) - timestamp_ms (window ring ! i))) (Fin 1000)
             in if dlt dt (Fin 0) then dneg dt else dt) [0..<nat (rcount ring) - 1]"
proof -
  have n: "nat (rcount ring - 1) = nat (rcount ring) - 1" by simp
  show ?thesis unfolding gate_deltas_def c_range_def map_map n
    by (rule map_cong) (simp_all add: window_nth add.commute)
qed

lemma window_statistics:
  assumes "ring_wf r1" "ring_wf r2" and w: "window r1 = window r2"
  shows "rcount r1 = rcount r2" "ring_p95 mo r1 f = ring_p95 mo r2 f" "ring_stddev r1 f = ring_stddev r2 f"
    "power_sat_frac r1 cfg = power_sat_frac r2 cfg" "gate_median r1 = gate_median r2"
proof -
  show c: "rcount r1 = rcount r2" using rcount_window assms by metis
  have m: "ring_mean r1 f = ring_mean r2 f" by (simp add: ring_mean_window c w)
  show "ring_p95 mo r1 f = ring_p95 mo r2 f" by (simp add: ring_p95_window c w)
  show "ring_stddev r1 f = ring_stddev r2 f" by (simp add: ring_stddev_window c w m)
  show "power_sat_frac r1 cfg = power_sat_frac r2 cfg" by (simp add: power_sat_frac_eq c w)
  show "gate_median r1 = gate_median r2" by (simp add: gate_median_def gate_deltas_window c w)
qed

lemma window_ecc:
  assumes "ring_wf r1" "ring_wf r2" "window r1 = window r2" "0 < rcount r1"
  shows "sbe_rate r1 = sbe_rate r2" "dbe_active r1 = dbe_active r2"
  using assms window_statistics(1) [OF assms(1-3)]
  by (simp_all add: sbe_rate_def dbe_active_def ring_first_window ring_last_window)

text \<open>C35. Layout independence: two well-formed rings that hold the same samples in the same order
  get the same score result, wherever their heads stand and whatever their capacities. The index
  arithmetic of the scorer never leaks the physical layout.\<close>

theorem score_gpu_window_only:
  assumes "ring_wf r1" "ring_wf r2" "window r1 = window r2"
  shows "score_gpu mo r1 st b p cfg = score_gpu mo r2 st b p cfg"
proof -
  note w = window_statistics [OF assms]
  have g: "completeness_gate r1 cfg = completeness_gate r2 cfg"
    by (simp add: completeness_gate_def w Let_def)
  show ?thesis
  proof (cases "completeness_gate r1 cfg")
    case True
    then have "0 < rcount r1" using gate_count by fastforce
    note e = window_ecc [OF assms this]
    have "score_rules mo r1 st b p cfg = score_rules mo r2 st b p cfg"
      by (simp add: rule_table_defs w e)
    moreover have "stats_out mo r1 cfg = stats_out mo r2 cfg"
      by (simp add: stats_out_def [abs_def] w e)
    ultimately show ?thesis using True g by (simp add: score_gpu_rules [OF _ refl])
  next
    case False
    then show ?thesis using g by (simp add: score_gpu_gate_fail)
  qed
qed

definition flat_ring :: gpu_ring_t where
  "flat_ring = \<lparr>samples = [demo_sample 95 0 21000, demo_sample 95 0 41000, demo_sample 95 0 61000,
     demo_sample 95 1 81000, zero_sample, zero_sample], head = 4, rcount = 4, capacity = 6\<rparr>"

theorem score_gpu_window_only_witness:
  "score_gpu (True, True) (demo_ring 95 1) demo_state None None demo_cfg = score_gpu (True, True) flat_ring demo_state None None demo_cfg"
proof -
  have "ring_wf (demo_ring 95 1)" "ring_wf flat_ring" by (simp_all add: ring_wf_def demo_ring_eq flat_ring_def)
  moreover have "window (demo_ring 95 1) = window flat_ring"
    unfolding demo_window by (simp add: window_def ring_at_def ring_idx_def flat_ring_def upt_rec numeral_eq_Suc)
  ultimately show ?thesis by (rule score_gpu_window_only)
qed

section \<open>The 95th percentile\<close>

text \<open>C36. The 95th percentile is the nearest-rank percentile in spite of the inexact literal 0.95:
  for a window without NaN it is one of the values of the window, at least 95 percent of the values
  do not exceed it, and fewer than 95 percent lie strictly below it.\<close>

theorem ring_p95_is_nearest_rank:
  assumes "0 < rcount ring" "rcount ring \<le> 2 ^ 30" "rcount ring \<le> 300 \<or> mo"
    and "\<forall>s\<in>set (window ring). \<not> isnan (field s)"
    and "v = ring_p95 mo ring field"
  shows "v \<in> field ` set (window ring) \<and>
    19 * length (window ring) \<le> 20 * length (filter (\<lambda>s. dle (field s) v) (window ring)) \<and>
    20 * length (filter (\<lambda>s. dlt (field s) v) (window ring)) < 19 * length (window ring)"
  using ring_p95_nearest_rank [OF assms(1-4)] unfolding assms(5) by blast

theorem ring_p95_is_nearest_rank_witness: "Fin 95 \<in> temp_c ` set (window (demo_ring 95 1))"
proof -
  have "0 < rcount (demo_ring 95 1)" "rcount (demo_ring 95 1) \<le> 2 ^ 30" "rcount (demo_ring 95 1) \<le> 300 \<or> True"
    by (simp_all add: demo_facts(1))
  moreover have "\<forall>s\<in>set (window (demo_ring 95 1)). \<not> isnan (temp_c s)"
    unfolding demo_window by (simp add: demo_sample_def)
  ultimately show ?thesis using ring_p95_is_nearest_rank [OF _ _ _ _ demo_p95(1) [symmetric]] by blast
qed

section \<open>The sampling step\<close>

lemma f64_double: "f64 a \<Longrightarrow> f64 (2 * a)"
proof -
  assume "f64 a"
  then obtain m e where "\<bar>m\<bar> \<le> 2 ^ 53" "- 1074 \<le> e" "a = of_int m * 2 powi e" unfolding f64_def by blast
  then have "\<bar>m\<bar> \<le> 2 ^ 53 \<and> - 1074 \<le> e + 1 \<and> 2 * a = of_int m * 2 powi (e + 1)"
    by (simp add: power_int_add)
  then show "f64 (2 * a)" unfolding f64_def by blast
qed

lemma f64_two_power: "k \<le> 1000 \<Longrightarrow> f64 (2 ^ k)"
  unfolding f64_def by (intro exI [of _ 1] exI [of _ "int k"]) (simp add: power_int_def)

text \<open>A step is a finite non-negative number: the unsigned subtraction wraps instead of going
  negative, so the sign test in the loop never fires.\<close>

lemma of_u64_range: "\<exists>q. of_u64 w = Fin q \<and> 0 \<le> q \<and> q \<le> 2 ^ 64"
proof -
  have "uint w < 2 ^ 64" using uint_lt2p [of w] by simp
  then have "(of_int (uint w) :: rat) \<le> 2 ^ 64" by (metis less_imp_le of_int_le_numeral_power_cancel_iff)
  moreover have "(0 :: rat) \<le> of_int (uint w)" unfolding of_int_0_le_iff by (rule uint_ge_0)
  ultimately show ?thesis
    using fl_bounded [OF f64_zero f64_two_power [of 64], of "of_int (uint w)"]
    by (auto simp: of_u64_def of_c_int_def)
qed

lemma u64_seconds_range: "\<exists>q. ddiv (of_u64 w) (Fin 1000) = Fin q \<and> f64 q \<and> 0 \<le> q \<and> q \<le> 2 ^ 64"
proof -
  obtain q where q: "of_u64 w = Fin q" "0 \<le> q" "q \<le> 2 ^ 64" using of_u64_range by blast
  then have "0 \<le> q / 1000" "q / 1000 \<le> 2 ^ 64" by simp_all
  with fl_bounded [OF f64_zero f64_two_power [of 64] this] q(1) show ?thesis by auto
qed

lemma gate_deltas_eq:
  "gate_deltas ring =
     map (\<lambda>i. ddiv (of_u64 (timestamp_ms (window ring ! (i + 1)) - timestamp_ms (window ring ! i))) (Fin 1000))
       [0..<nat (rcount ring) - 1]"
proof -
  have "(let dt = ddiv (of_u64 w) (Fin 1000) in if dlt dt (Fin 0) then dneg dt else dt) = ddiv (of_u64 w) (Fin 1000)" for w
    using u64_seconds_range [of w] by auto
  then show ?thesis by (simp add: gate_deltas_window)
qed

lemma gate_deltas_range: "d \<in> set (gate_deltas ring) \<Longrightarrow> \<exists>q. d = Fin q \<and> f64 q \<and> 0 \<le> q \<and> q \<le> 2 ^ 64"
  using u64_seconds_range by (auto simp: gate_deltas_eq)

lemma midpoint_ge:
  assumes "f64 a" "0 \<le> a" "a \<le> b" "b \<le> 2 ^ 64"
  shows "dle (Fin a) (ddiv (dadd (Fin a) (Fin b)) (Fin 2))"
proof -
  have b64: "a \<le> 2 ^ 64" using assms by simp
  obtain r where r: "fl (a + b) = Fin r" "2 * a \<le> r" "r \<le> 2 ^ 65"
    using fl_bounded [OF f64_double [OF assms(1)] f64_two_power [of 65], of "a + b"] assms b64
    by (auto simp: abs_le_iff)
  moreover obtain r' where "fl (r / 2) = Fin r'" "a \<le> r'"
    using fl_bounded [OF assms(1) f64_two_power [of 65], of "r / 2"] r assms b64 by (auto simp: abs_le_iff)
  ultimately show ?thesis by simp
qed

lemma median_splits:
  assumes xs: "xs = qsort cmp_double (gate_deltas ring)" and n: "2 \<le> rcount ring"
  shows "\<exists>k < length xs. length xs \<le> 2 * (k + 1) \<and> dle (xs ! k) (gate_median ring)"
proof -
  have len: "length xs = nat (rcount ring - 1)" by (simp add: xs gate_deltas_def)
  have mem: "\<exists>q. xs ! k = Fin q \<and> f64 q \<and> 0 \<le> q \<and> q \<le> 2 ^ 64" if "k < length xs" for k
    using gate_deltas_range [of "xs ! k" ring] nth_mem [OF that] by (simp add: xs)
  have srt: "sorted_wrt dle xs" unfolding xs
    by (rule qsort_ascending) (use gate_deltas_range in fastforce)
  have half: "nat (c_div (rcount ring - 1) 2) = length xs div 2" "c_mod (rcount ring - 1) 2 = int (length xs mod 2)"
    using n by (simp_all add: len nat_div_distrib zmod_int)
  show ?thesis
  proof (cases "even (length xs)")
    case False
    then have "gate_median ring = xs ! (length xs div 2)" using half by (simp add: gate_median_def xs [symmetric] Let_def odd_iff_mod_2_eq_one)
    moreover have lt: "length xs div 2 < length xs" using False by (cases "length xs") auto
    ultimately show ?thesis using mem [OF lt] False by (intro exI [of _ "length xs div 2"]) auto
  next
    case True
    then obtain m where m: "length xs = 2 * m" by blast
    then have m0: "0 < m" using n len by simp
    have h2: "nat (c_div (rcount ring - 1) 2 - 1) = m - 1" using half(1) m n by (simp add: nat_diff_distrib)
    have med: "gate_median ring = ddiv (dadd (xs ! (m - 1)) (xs ! m)) (Fin 2)"
      using half m h2 by (simp add: gate_median_def xs [symmetric] Let_def)
    have lt: "m - 1 < length xs" "m < length xs" using m m0 by simp_all
    obtain a b where ab: "xs ! (m - 1) = Fin a" "xs ! m = Fin b" "f64 a" "0 \<le> a" "b \<le> 2 ^ 64"
      using mem [OF lt(1)] mem [OF lt(2)] by blast
    moreover have "dle (xs ! (m - 1)) (xs ! m)" using srt m m0 by (simp add: sorted_wrt_iff_nth_less)
    ultimately show ?thesis using midpoint_ge [of a b] med m m0 by (intro exI [of _ "m - 1"]) auto
  qed
qed

text \<open>What the gate guarantees: when it passes, the window holds at least two samples and the
  configured minimum, and at least half of the steps between consecutive samples are no longer than
  the configured maximum median step.\<close>

theorem gate_guarantees_sampling:
  assumes "completeness_gate ring cfg" "\<not> isnan (max_median_step_s cfg)"
  shows "2 \<le> rcount ring \<and> min_samples_absolute cfg \<le> rcount ring \<and>
    length (gate_deltas ring) \<le> 2 * length (filter (\<lambda>d. dle d (max_median_step_s cfg)) (gate_deltas ring))"
proof -
  let ?xs = "qsort cmp_double (gate_deltas ring)"
  note c = gate_count [OF assms(1)]
  obtain k where k: "k < length ?xs" "length ?xs \<le> 2 * (k + 1)" "dle (?xs ! k) (gate_median ring)"
    using median_splits [OF refl] c by blast
  have "\<not> dlt (max_median_step_s cfg) (gate_median ring)"
    using assms(1) by (auto simp: completeness_gate_def Let_def split: if_splits)
  with k(3) have le: "dle (?xs ! k) (max_median_step_s cfg)"
    using assms(2) by (meson dle_def dle_trans)
  have nn: "\<forall>d\<in>set (gate_deltas ring). \<not> isnan d" using gate_deltas_range by fastforce
  have "k + 1 \<le> length (filter (\<lambda>d. dle d (?xs ! k)) ?xs)"
    using sorted_wrt_count_le(1) [OF qsort_ascending [OF nn] k(1)] nn by simp
  also have "\<dots> \<le> length (filter (\<lambda>d. dle d (max_median_step_s cfg)) ?xs)"
    unfolding length_filter_conv_card using le by (intro card_mono) (auto intro: dle_trans)
  finally show ?thesis using k(2) c by (simp add: length_filter_qsort)
qed

theorem gate_guarantees_sampling_witness: "2 \<le> rcount (demo_ring 95 1)"
  using gate_guarantees_sampling [OF demo_gate [of 95 1]] by (simp add: demo_cfg_def)

text \<open>C25. Memory safety of the scorer: for a loaded configuration and any history of samples the
  number of steps written to the fixed array \<open>deltas[3600]\<close> stays below 3600, and every logical
  index below the count addresses a slot inside the allocated sample array.\<close>

theorem scorer_array_bounds:
  assumes "config_load fopen getenv path = Some cfg" "r = foldl ring_push (ring_for cfg) xs"
  shows "length (gate_deltas r) < 3600 \<and>
    (\<forall>i. 0 \<le> i \<and> i < rcount r \<longrightarrow> 0 \<le> ring_idx r i \<and> nat (ring_idx r i) < length (samples r))"
proof -
  note r = ring_for_pushes [OF config_load_in_range [OF assms(1)] assms(2)]
  then show ?thesis using ring_idx_range [OF r(1)] ring_idx_in_array [OF r(1)] by (simp add: gate_deltas_def)
qed

theorem scorer_array_bounds_witness: "length (gate_deltas (demo_ring 95 1)) < 3600"
  using scorer_array_bounds [OF demo_cfg_load demo_ring_for] by blast

section \<open>Error counters\<close>

lemma reset_rate: "0 < rcount r \<Longrightarrow> ring_wf r \<Longrightarrow>
    ecc_sbe_volatile (last (window r)) < ecc_sbe_volatile (hd (window r)) \<Longrightarrow> sbe_rate r = Fin 0"
proof -
  assume "0 < rcount r" "ring_wf r" "ecc_sbe_volatile (last (window r)) < ecc_sbe_volatile (hd (window r))"
  moreover have "ddiv (Fin 0) d = Fin 0" if "dlt (Fin 0) d" for d using that by (cases d) (auto simp: fl_exact)
  ultimately show ?thesis by (simp add: sbe_rate_def Let_def ring_first_window ring_last_window not_le [symmetric])
qed

text \<open>A counter reset is not an error: when the volatile ECC counters of the newest sample are
  below those of the oldest one, as after a driver reload, the reported rate is 0, no double-bit
  error is reported, and neither ECC reason is set unless the rate threshold itself is negative.\<close>

theorem counter_reset_not_penalised:
  assumes "completeness_gate r cfg" "ring_wf r" "\<not> dlt (ecc_sbe_rate_warn_per_hour cfg) (Fin 0)"
    and "ecc_sbe_volatile (last (window r)) < ecc_sbe_volatile (hd (window r))"
    and "ecc_dbe_volatile (last (window r)) \<le> ecc_dbe_volatile (hd (window r))"
  shows "sc_ecc_sbe_rate_per_hour (score_gpu mo r st b p cfg) = Fin 0 \<and>
    \<not> sc_ecc_dbe_in_window (score_gpu mo r st b p cfg) \<and>
    \<not> has_reason (sc_reason_mask (score_gpu mo r st b p cfg)) GPU_REASON_ECC_SBE_HIGH \<and>
    \<not> has_reason (sc_reason_mask (score_gpu mo r st b p cfg)) GPU_REASON_ECC_DBE_ACTIVE"
proof -
  have "0 < rcount r" using gate_count [OF assms(1)] by simp
  then have rate: "sbe_rate r = Fin 0" "\<not> dbe_active r"
    using reset_rate assms(2,4,5) by (simp_all add: dbe_active_def ring_first_window ring_last_window not_less)
  have "sc_ecc_sbe_rate_per_hour (score_gpu mo r st b p cfg) = Fin 0 \<and> \<not> sc_ecc_dbe_in_window (score_gpu mo r st b p cfg)"
    by (simp add: score_gpu_rules [OF assms(1) refl] with_drop_def stats_out_def rate split: option.split)
  moreover have "\<not> has_reason (sc_reason_mask (score_gpu mo r st b p cfg)) GPU_REASON_ECC_SBE_HIGH"
    "\<not> has_reason (sc_reason_mask (score_gpu mo r st b p cfg)) GPU_REASON_ECC_DBE_ACTIVE"
    unfolding reason_mask_defs
    by (auto simp: has_reason_score_gpu [OF assms(1)] rule_table_defs Let_def reason_mask_defs bit_reason_bit rate assms(3))
  ultimately show ?thesis by blast
qed

definition reset_ring :: gpu_ring_t where
  "reset_ring = \<lparr>samples = [demo_sample 60 0 61000, (demo_sample 60 0 1000)\<lparr>ecc_sbe_volatile := 9\<rparr>,
     demo_sample 60 0 21000, demo_sample 60 0 41000], head = 1, rcount = 4, capacity = 4\<rparr>"

lemma reset_ring_gate: "completeness_gate reset_ring demo_cfg"
proof -
  have "ddiv (of_u64 20000) (Fin 1000) = Fin 20" by code_simp
  moreover have "c_range 3 = [0, 1, 2]" by code_simp
  ultimately have "gate_deltas reset_ring = [Fin 20, Fin 20, Fin 20]"
    by (simp add: gate_deltas_def reset_ring_def ring_at_def ring_idx_def demo_sample_def)
  then have "gate_median reset_ring = Fin 20" by (simp add: gate_median_def reset_ring_def cmp_double_def)
  then show ?thesis using demo_facts(2) by (simp add: completeness_gate_def demo_cfg_def reset_ring_def)
qed

theorem counter_reset_not_penalised_witness:
  "sc_ecc_sbe_rate_per_hour (score_gpu (True, True) reset_ring zero_state None None demo_cfg) = Fin 0"
proof -
  have w: "window reset_ring = [(demo_sample 60 0 1000)\<lparr>ecc_sbe_volatile := 9\<rparr>, demo_sample 60 0 21000,
      demo_sample 60 0 41000, demo_sample 60 0 61000]"
    by (simp add: window_def ring_at_def ring_idx_def reset_ring_def upt_rec numeral_eq_Suc)
  have "ring_wf reset_ring" by (simp add: ring_wf_def reset_ring_def)
  then show ?thesis using counter_reset_not_penalised [OF reset_ring_gate, of "(True, True)" zero_state None None] w
    by (simp add: demo_sample_def demo_cfg_fields)
qed

section \<open>A NaN penalty\<close>

lemma apply_rules_NaN: "fst (apply_rules rs (NaN, m)) = NaN"
  by (induction rs "(NaN, m)" arbitrary: m rule: apply_rules.induct) auto

lemma apply_rules_hit_NaN: "(True, NaN, r) \<in> set rs \<Longrightarrow> fst (apply_rules rs (s, m)) = NaN"
  by (induction rs "(s, m)" arbitrary: s m rule: apply_rules.induct) (auto simp: apply_rules_NaN)

text \<open>A NaN penalty in the configuration poisons the score: as soon as its rule applies the
  score is NaN and the GPU is classified as to be decommissioned, whatever its condition. A
  configuration with such a penalty loads and validates.\<close>

theorem nan_penalty_decommissions:
  assumes "completeness_gate r cfg" "power_penalty_max cfg = NaN" "dlt (Fin 0) (power_sat_frac r cfg)"
  shows "sc_score (score_gpu mo r st b p cfg) = NaN \<and>
    sc_classification (score_gpu mo r st b p cfg) = GPU_CLASS_DECOMMISSION"
proof -
  have "power_penalty f cfg = NaN" for f using assms(2) by (cases f) (simp_all add: power_penalty_def)
  then have "(True, NaN, GPU_REASON_POWER_SATURATION) \<in> set (score_rules mo r st b p cfg)"
    using assms(3) by (simp add: rule_table_defs Let_def)
  from apply_rules_hit_NaN [OF this] show ?thesis
    by (simp add: score_gpu_rules [OF assms(1) refl] clamp_score_def classify_def)
qed

definition busy_ring :: gpu_ring_t where
  "busy_ring = (demo_ring 60 0)\<lparr>samples := map (\<lambda>s. s\<lparr>power_w := Fin 700\<rparr>) (samples (demo_ring 60 0))\<rparr>"

theorem nan_penalty_decommissions_witness:
  "sc_classification (score_gpu (True, True) busy_ring zero_state None None (demo_cfg\<lparr>power_penalty_max := NaN\<rparr>)) =
     GPU_CLASS_DECOMMISSION"
proof -
  let ?cfg = "demo_cfg\<lparr>power_penalty_max := NaN\<rparr>"
  have w: "window busy_ring = map (\<lambda>s. s\<lparr>power_w := Fin 700\<rparr>) (window (demo_ring 60 0))"
    unfolding demo_window
    by (simp add: window_def ring_at_def ring_idx_def busy_ring_def demo_ring_eq upt_rec numeral_eq_Suc)
  have "gate_deltas busy_ring = gate_deltas (demo_ring 60 0)" unfolding gate_deltas_eq w
    by (simp add: busy_ring_def demo_ring_eq demo_window upt_rec numeral_eq_Suc)
  then have "gate_median busy_ring = Fin 20"
    using demo_median [of 60 0] by (simp add: gate_median_def busy_ring_def)
  then have "completeness_gate busy_ring ?cfg"
    using demo_facts(2) by (simp add: completeness_gate_def demo_cfg_def busy_ring_def demo_facts(1))
  moreover have "power_sat_frac busy_ring ?cfg = Fin 1"
  proof -
    have *: "fl 1 = Fin 1" "dle (dmul (fl (49/50)) (Fin 700)) (Fin 700)" by code_simp+
    show ?thesis unfolding power_sat_frac_eq w demo_window
      by (simp add: saturated_def demo_sample_def demo_cfg_def cfg_defaults_def busy_ring_def demo_ring_eq * )
  qed
  ultimately show ?thesis using nan_penalty_decommissions [of busy_ring ?cfg "(True, True)" zero_state None None] by simp
qed

end
