(* ===== verification/CollectorProps.thy ===== *)
theory CollectorProps
  imports Collector ScoreProps
begin

text \<open>
  Properties of the poll thread: the effect of a pass on each of its branches, the invariant of the
  thread over every sequence of passes, what is published, and how errors lead to the unavailable
  and lost states.
\<close>

section \<open>The branches of a pass\<close>

lemma poll_failed_ctx:
  assumes "poll_failed cfg r ctx = (ctx', act)"
  shows "c_ring ctx' = c_ring ctx" "c_state ctx' = c_state ctx" "c_snapshot ctx' = c_snapshot ctx"
    "c_baseline ctx' = c_baseline ctx" "c_probe ctx' = c_probe ctx" "c_ready ctx'" "c_stop ctx' = c_stop ctx"
    "c_gpu_index ctx' = c_gpu_index ctx"
    "c_consecutive_errors ctx' = c_consecutive_errors ctx + 1"
    "c_collector_errors_total ctx' = c_collector_errors_total ctx + 1"
    "c_consecutive_hard_errors ctx' = c_consecutive_hard_errors ctx + (if NVML_IS_HARD_ERROR r then 1 else 0)"
    "act = (if NVML_IS_HARD_ERROR r \<and> nvml_hard_error_threshold cfg \<le> c_consecutive_hard_errors ctx + 1
            then PollExit else PollSleep)"
    "c_gpu_present ctx' \<longleftrightarrow> c_gpu_present ctx \<and> act \<noteq> PollExit"
    "c_gpu_available ctx' \<longleftrightarrow> c_gpu_available ctx \<and>
       (act = PollExit \<or> c_consecutive_errors ctx + 1 < nvml_error_threshold cfg)"
  using assms by (auto simp: poll_failed_def Let_def split: if_splits)

lemma reload_keeps:
  "c_ring (reload_baseline ex env ctx) = c_ring ctx" "c_state (reload_baseline ex env ctx) = c_state ctx"
  "c_probe (reload_baseline ex env ctx) = c_probe ctx" "c_stop (reload_baseline ex env ctx) = c_stop ctx"
  "c_gpu_present (reload_baseline ex env ctx) = c_gpu_present ctx"
  "c_gpu_available (reload_baseline ex env ctx) = c_gpu_available ctx"
  "c_consecutive_errors (reload_baseline ex env ctx) = c_consecutive_errors ctx"
  "c_consecutive_hard_errors (reload_baseline ex env ctx) = c_consecutive_hard_errors ctx"
  "c_serial (reload_baseline ex env ctx) = c_serial ctx" "c_gpu_index (reload_baseline ex env ctx) = c_gpu_index ctx"
  "c_collector_errors_total (reload_baseline ex env ctx) = c_collector_errors_total ctx"
  by (simp_all add: reload_baseline_def Let_def)

lemma assemble_ignores:
  "assemble (ctx\<lparr>c_snapshot := x\<rparr>) sc d n m = assemble ctx sc d n m"
  "assemble (ctx\<lparr>c_ready := r\<rparr>) sc d n m = assemble ctx sc d n m"
  by (simp_all add: assemble_def Let_def)

lemma ipc_msg_ready: "ipc_msg (ctx\<lparr>c_ready := r\<rparr>) = ipc_msg ctx"
  by (simp add: ipc_msg_def)

lemma merge_dcgm_index: "c_gpu_index a = c_gpu_index b \<Longrightarrow> merge_dcgm ex env a st = merge_dcgm ex env b st"
  by (simp add: merge_dcgm_def)

lemma poll_succeeded_ctx:
  assumes "poll_succeeded ex env sample state ctx = (ctx', act)"
  shows "c_ring ctx' = ring_push (c_ring ctx) sample" "c_state ctx' = merge_dcgm ex env ctx state"
    "c_probe ctx' = c_probe ctx"
    "c_gpu_present ctx' = c_gpu_present ctx" "c_gpu_available ctx'" "c_ready ctx'" "c_stop ctx' = c_stop ctx"
    "c_consecutive_errors ctx' = 0" "c_consecutive_hard_errors ctx' = 0"
    "c_collector_errors_total ctx' = c_collector_errors_total ctx"
    "c_snapshot ctx' = assemble ctx' (score_gpu (pe_malloc env) (c_ring ctx') (c_state ctx') (Some (c_baseline ctx'))
       (Some (c_probe ctx')) (e_cfg ex)) (e_dcgm_available ex) (pe_now_s env) (pe_now_ms env)"
    "act = PollSend (ipc_msg ctx')" "c_gpu_index ctx' = c_gpu_index ctx" "c_serial ctx' = c_serial ctx"
proof -
  define c0 where "c0 = ctx\<lparr>c_consecutive_errors := 0, c_consecutive_hard_errors := 0, c_gpu_available := True\<rparr>"
  define c1 where "c1 = (reload_baseline ex env c0)\<lparr>c_ring := ring_push (c_ring c0) sample, c_state := merge_dcgm ex env c0 state\<rparr>"
  define sn where "sn = assemble c1 (score_gpu (pe_malloc env) (c_ring c1) (c_state c1) (Some (c_baseline c1))
       (Some (c_probe c1)) (e_cfg ex)) (e_dcgm_available ex) (pe_now_s env) (pe_now_ms env)"
  have ctx': "ctx' = c1\<lparr>c_snapshot := sn, c_ready := True\<rparr>" "act = PollSend (ipc_msg (c1\<lparr>c_snapshot := sn\<rparr>))"
    using assms unfolding poll_succeeded_def Let_def snapshot_update_def
    by (simp_all add: c0_def [symmetric] c1_def sn_def reload_keeps)
  show "c_snapshot ctx' = assemble ctx' (score_gpu (pe_malloc env) (c_ring ctx') (c_state ctx') (Some (c_baseline ctx'))
       (Some (c_probe ctx')) (e_cfg ex)) (e_dcgm_available ex) (pe_now_s env) (pe_now_ms env)"
    unfolding ctx' assemble_ignores by (simp add: sn_def)
  show "act = PollSend (ipc_msg ctx')" unfolding ctx' ipc_msg_ready ..
  show "c_state ctx' = merge_dcgm ex env ctx state"
    by (simp add: ctx'(1) c1_def) (rule merge_dcgm_index, simp add: c0_def)
  show "c_ring ctx' = ring_push (c_ring ctx) sample" "c_probe ctx' = c_probe ctx"
    "c_gpu_present ctx' = c_gpu_present ctx" "c_gpu_available ctx'" "c_ready ctx'" "c_stop ctx' = c_stop ctx"
    "c_consecutive_errors ctx' = 0" "c_consecutive_hard_errors ctx' = 0"
    "c_collector_errors_total ctx' = c_collector_errors_total ctx"
    "c_gpu_index ctx' = c_gpu_index ctx" "c_serial ctx' = c_serial ctx"
    by (simp_all add: ctx'(1) c1_def c0_def reload_keeps)
qed

text \<open>The published fields that the properties speak about.\<close>

lemma assemble_fields:
  "sn_score (assemble ctx sc d s m) = sc_score sc" "sn_classification (assemble ctx sc d s m) = sc_classification sc"
  "sn_reason_mask (assemble ctx sc d s m) = sc_reason_mask sc"
  "sn_gpu_present (assemble ctx sc d s m) = c_gpu_present ctx"
  "sn_gpu_available (assemble ctx sc d s m) = c_gpu_available ctx"
  "sn_temp_c (assemble ctx sc d s m) = newest temp_c (Fin 0) (c_ring ctx)"
  "sn_power_w (assemble ctx sc d s m) = newest power_w (Fin 0) (c_ring ctx)"
  "sn_last_poll_ms (assemble ctx sc d s m) = m"
  "sn_serial (assemble ctx sc d s m) = c_serial ctx" "sn_gpu_index (assemble ctx sc d s m) = c_gpu_index ctx"
  by (simp_all add: assemble_def Let_def)

lemma newest_window: "ring_wf r \<Longrightarrow> 0 < rcount r \<Longrightarrow> newest f z r = f (last (window r))"
  using ring_last_window [of r] by (simp add: newest_def ring_last_def)

lemma newest_push: "ring_wf r \<Longrightarrow> newest f z (ring_push r x) = f x"
proof -
  assume wf: "ring_wf r"
  have w: "window (ring_push r x) \<noteq> []" "last (window (ring_push r x)) = x"
    using wf by (auto simp: window_push take_last_snoc ring_wf_def)
  have "0 < rcount (ring_push r x)" using w(1) by (auto simp: window_def)
  then show "newest f z (ring_push r x) = f x" using newest_window [OF ring_wf_push [OF wf], of x f z] w(2) by simp
qed

section \<open>The invariant of the thread\<close>

text \<open>What is true of every context and every message of a running thread. The last part is about the
  configuration: with numbers in range, every published score is one.\<close>

definition msg_ok :: "exporter_t \<Rightarrow> gpu_ipc_msg_t \<Rightarrow> bool" where
  "msg_ok ex m \<longleftrightarrow>
     (let s = msg_snapshot m in
      sn_gpu_present s \<and> sn_gpu_available s \<and> msg_gpu_index m = sn_gpu_index s \<and>
      (cfg_in_range (e_cfg ex) \<and> cfg_no_nan (e_cfg ex) \<longrightarrow> (\<exists>q. sn_score s = Fin q \<and> 0 \<le> q \<and> q \<le> 100)))"

definition ctx_ok :: "exporter_t \<Rightarrow> gpu_ctx_t \<Rightarrow> bool" where
  "ctx_ok ex ctx \<longleftrightarrow>
     ring_wf_cap (c_div (window_s (e_cfg ex)) (poll_interval_s (e_cfg ex))) (c_ring ctx) \<and>
     0 \<le> c_consecutive_hard_errors ctx \<and> c_consecutive_hard_errors ctx \<le> c_consecutive_errors ctx \<and>
     (\<not> c_gpu_available ctx \<longrightarrow> nvml_error_threshold (e_cfg ex) \<le> c_consecutive_errors ctx)"

definition thread_inv :: "exporter_t \<Rightarrow> poll_thread_t \<Rightarrow> bool" where
  "thread_inv ex t \<longleftrightarrow> ctx_ok ex (t_ctx t) \<and> (t_running t \<longrightarrow> c_gpu_present (t_ctx t)) \<and> list_all (msg_ok ex) (t_sent t)"

lemma ring_wf_cap_push: "ring_wf_cap c r \<Longrightarrow> ring_wf_cap c (ring_push r x)"
  by (rule ring.wf_push)

lemma published_score_range:
  assumes "cfg_in_range cfg" "cfg_no_nan cfg" "ring_wf_cap (c_div (window_s cfg) (poll_interval_s cfg)) r"
  shows "\<exists>q. sc_score (score_gpu mo r st b p cfg) = Fin q \<and> 0 \<le> q \<and> q \<le> 100"
proof -
  have "rcount r \<le> 2 ^ 30"
    using assms(3) ring_capacity_range [OF assms(1)] by (auto simp: ring_wf_cap_def ring_wf_def)
  then show ?thesis using score_gpu_range_class [OF loaded_scoring_cfg_ok [OF assms(1,2)], of r mo st b p] by blast
qed

lemma poll_failed_ok:
  assumes "ctx_ok ex ctx" "poll_failed (e_cfg ex) r ctx = (ctx', act)"
  shows "ctx_ok ex ctx'"
  using assms(1) by (auto simp: ctx_ok_def poll_failed_ctx(1,9,11,14) [OF assms(2)])

lemma poll_succeeded_ok:
  assumes "ctx_ok ex ctx" "c_gpu_present ctx" "poll_succeeded ex env sample state ctx = (ctx', act)"
  shows "ctx_ok ex ctx' \<and> c_gpu_present ctx' \<and> (\<exists>m. act = PollSend m \<and> msg_ok ex m)"
proof -
  note c = poll_succeeded_ctx [OF assms(3)]
  have wf: "ring_wf_cap (c_div (window_s (e_cfg ex)) (poll_interval_s (e_cfg ex))) (c_ring ctx')"
    using assms(1) c(1) by (simp add: ctx_ok_def ring_wf_cap_push)
  have "msg_ok ex (ipc_msg ctx')"
    using assms(2) c(4,5,11) published_score_range [OF _ _ wf]
    by (simp add: msg_ok_def ipc_msg_def Let_def assemble_fields)
  then show ?thesis using c wf assms(2) by (simp add: ctx_ok_def)
qed

lemma poll_device_ok:
  assumes "ctx_ok ex ctx" "c_gpu_present ctx" "poll_device ex env ctx = (ctx', act)"
  shows "ctx_ok ex ctx' \<and> (act \<noteq> PollExit \<longrightarrow> c_gpu_present ctx') \<and> (\<forall>m. act = PollSend m \<longrightarrow> msg_ok ex m)"
proof (cases "do_nvml_poll (pe_nvml env) (pe_now_sample env) zero_sample (poll_start_state ctx)")
  case (Inl e)
  then obtain r n where f: "poll_failed (e_cfg ex) r ctx = (ctx', act)" using assms(3)
    by (cases e) (simp add: poll_device_def)
  then show ?thesis using poll_failed_ok [OF assms(1) f] assms(2) by (auto simp: poll_failed_ctx(12,13) [OF f])
next
  case (Inr v)
  then obtain sample state where s: "poll_succeeded ex env sample state ctx = (ctx', act)" using assms(3)
    by (cases v) (simp add: poll_device_def)
  then show ?thesis using poll_succeeded_ok [OF assms(1,2) s] by auto
qed

lemma poll_iter_ok:
  assumes "ctx_ok ex ctx" "c_gpu_present ctx" "poll_iter ex env ctx = (ctx', act)"
  shows "ctx_ok ex ctx' \<and> (act \<noteq> PollExit \<longrightarrow> c_gpu_present ctx') \<and> (\<forall>m. act = PollSend m \<longrightarrow> msg_ok ex m)"
proof (cases "c_gpu_available ctx \<or> \<not> pe_now_retry env - c_last_retry_ms ctx < word_of_int (nvml_retry_interval_s (e_cfg ex)) * 1000")
  case True
  let ?ctx = "if c_gpu_available ctx then ctx else ctx\<lparr>c_last_retry_ms := pe_now_retry env\<rparr>"
  have "poll_device ex env ?ctx = (ctx', act)" using True assms(2,3) by (auto simp: poll_iter_def Let_def)
  moreover have "ctx_ok ex ?ctx" "c_gpu_present ?ctx" using assms(1,2) by (simp_all add: ctx_ok_def)
  ultimately show ?thesis using poll_device_ok by blast
next
  case False
  then have "ctx' = ctx" "act = PollSleep" using assms(2,3) by (auto simp: poll_iter_def Let_def)
  then show ?thesis using assms(1,2) by simp
qed

interpretation poll: invariant_system "poll_init ex" "poll_step ex" "thread_inv ex" for ex
proof unfold_locales
  fix t assume "poll_init ex t"
  then obtain ctx0 where "t_ctx t = fst (collector_start True True True (e_cfg ex) ctx0)" "t_sent t = []"
    by (metis fst_conv poll_init_def)
  then show "thread_inv ex t"
    by (simp add: thread_inv_def ctx_ok_def collector_start_def Let_def ring.wf_empty)
next
  fix t u assume inv: "thread_inv ex t" and "poll_step ex t u"
  from this(2) show "thread_inv ex u"
  proof (cases rule: poll_step.cases)
    case (pass env)
    show ?thesis
    proof (cases "poll_iter ex env (t_ctx t)")
      case (Pair ctx act)
      then show ?thesis using inv pass poll_iter_ok [OF _ _ Pair]
        by (cases act) (auto simp: thread_inv_def poll_thread_pass_def)
    qed
  next
    case stop
    then show ?thesis using inv by (auto simp: thread_inv_def ctx_ok_def collector_stop_def)
  qed
qed

section \<open>A concrete thread\<close>

definition demo_ex :: exporter_t where
  "demo_ex = \<lparr>e_cfg = demo_cfg, e_dcgm_available = 0, e_dcgm_handle = 0, e_baseline_inotify_fd = 3\<rparr>"

definition demo_ctx :: gpu_ctx_t where
  "demo_ctx = fst (collector_start True True True demo_cfg zero_ctx)"

definition demo_env :: "int \<Rightarrow> poll_env" where
  "demo_env ret = \<lparr>pe_now_retry = 5, pe_now_sample = 7, pe_nvml = demo_vt\<lparr>DeviceGetPowerUsage := (ret, 300000)\<rparr>,
     pe_dcgm = demo_dcgm, pe_inotify = [ReadBytes 16, ReadAgain], pe_fopen = (\<lambda>_. None), pe_malloc = (True, True),
     pe_now_s = 100, pe_now_ms = 9\<rparr>"

lemma demo_ctx_fields:
  "ring_wf (c_ring demo_ctx)" "c_gpu_present demo_ctx" "c_gpu_available demo_ctx" "\<not> c_stop demo_ctx"
  "c_consecutive_errors demo_ctx = 0" "c_consecutive_hard_errors demo_ctx = 0" "c_driver_version demo_ctx = ''550''"
  by (simp_all add: demo_ctx_def collector_start_def Let_def zero_ctx_def ring_wf_alloc)

text \<open>Whether the driver's answers make the poll of a pass fail, and with which code.\<close>

definition env_error :: "poll_env \<Rightarrow> int option" where
  "env_error env = map_option fst (find (\<lambda>(ret, name). ret \<noteq> 0) (required_calls (pe_nvml env)))"

lemma env_error_poll:
  "env_error env = map_option fst (poll_error (do_nvml_poll (pe_nvml env) now sample state))"
  by (simp add: env_error_def poll_error_first)

lemma poll_device_error:
  assumes "env_error env = Some r"
  shows "poll_device ex env ctx = poll_failed (e_cfg ex) r ctx"
proof -
  let ?p = "do_nvml_poll (pe_nvml env) (pe_now_sample env) zero_sample (poll_start_state ctx)"
  obtain n where "?p = Inl (r, n)"
    using assms env_error_poll [of env "pe_now_sample env" zero_sample "poll_start_state ctx"]
    by (cases ?p) auto
  then show ?thesis by (simp add: poll_device_def)
qed

lemma poll_device_ok_env:
  assumes "env_error env = None"
  shows "\<exists>s t. do_nvml_poll (pe_nvml env) (pe_now_sample env) zero_sample (poll_start_state ctx) = Inr (s, t) \<and>
    poll_device ex env ctx = poll_succeeded ex env s t ctx"
proof -
  let ?p = "do_nvml_poll (pe_nvml env) (pe_now_sample env) zero_sample (poll_start_state ctx)"
  obtain s t where "?p = Inr (s, t)"
    using assms env_error_poll [of env "pe_now_sample env" zero_sample "poll_start_state ctx"]
    by (cases ?p) auto
  then show ?thesis by (simp add: poll_device_def)
qed

lemma demo_env_error: "env_error (demo_env ret) = (if ret = 0 then None else Some ret)"
  by (simp add: env_error_def demo_env_def demo_vt_def required_calls_def)

section \<open>What is published\<close>

text \<open>C15. For a configuration that loads and whose numbers are not NaN, every snapshot that a poll thread
  ever sends, over any sequence of passes with any driver, daemon, file and clock behaviour, carries
  a finite score from 0 to 100, and the ring stays well formed with the configured capacity.\<close>

theorem every_published_score_in_range:
  assumes "config_load fopen getenv path = Some (e_cfg ex)" "cfg_no_nan (e_cfg ex)"
    and "reach (poll_init ex) (poll_step ex) t"
  shows "list_all (\<lambda>m. \<exists>q. sn_score (msg_snapshot m) = Fin q \<and> 0 \<le> q \<and> q \<le> 100) (t_sent t) \<and>
    ring_wf (c_ring (t_ctx t)) \<and>
    capacity (c_ring (t_ctx t)) = c_div (window_s (e_cfg ex)) (poll_interval_s (e_cfg ex))"
  using poll.reach_inv [OF assms(3)] config_load_in_range [OF assms(1)] assms(2)
    ring_capacity_range [OF config_load_in_range [OF assms(1)]]
  by (auto simp: thread_inv_def msg_ok_def ctx_ok_def ring_wf_cap_def Let_def list_all_iff)

lemma demo_poll_init: "poll_init demo_ex \<lparr>t_ctx = demo_ctx, t_running = True, t_sent = []\<rparr>"
  by (auto simp: poll_init_def demo_ex_def demo_ctx_def collector_start_def Let_def)

lemma demo_reach:
  "\<exists>t. reach (poll_init demo_ex) (poll_step demo_ex) t \<and> t_sent t \<noteq> []"
proof -
  let ?t = "\<lparr>t_ctx = demo_ctx, t_running = True, t_sent = []\<rparr>"
  obtain s st where "poll_device demo_ex (demo_env 0) demo_ctx = poll_succeeded demo_ex (demo_env 0) s st demo_ctx"
    using poll_device_ok_env [of "demo_env 0" demo_ctx demo_ex] by (auto simp: demo_env_error)
  then have it: "poll_iter demo_ex (demo_env 0) demo_ctx = poll_succeeded demo_ex (demo_env 0) s st demo_ctx"
    by (simp add: poll_iter_def demo_ctx_fields)
  obtain ctx act where sp: "poll_succeeded demo_ex (demo_env 0) s st demo_ctx = (ctx, act)" by force
  have "act = PollSend (ipc_msg ctx)" by (rule poll_succeeded_ctx(12) [OF sp])
  then have "t_sent (poll_thread_pass demo_ex (demo_env 0) ?t) \<noteq> []"
    using it sp by (simp add: poll_thread_pass_def demo_ctx_fields)
  moreover have "reach (poll_init demo_ex) (poll_step demo_ex) (poll_thread_pass demo_ex (demo_env 0) ?t)"
    by (rule reach_step [OF reach_init [where init = "poll_init demo_ex", OF demo_poll_init]])
      (rule poll_step.pass, simp)
  ultimately show ?thesis by blast
qed

theorem every_published_score_in_range_witness:
  "\<exists>t :: poll_thread_t. t_sent t \<noteq> [] \<and> list_all (\<lambda>m. \<exists>q. sn_score (msg_snapshot m) = Fin q \<and> 0 \<le> q \<and> q \<le> 100) (t_sent t)"
proof -
  obtain t where t: "reach (poll_init demo_ex) (poll_step demo_ex) t" "t_sent t \<noteq> []" using demo_reach by blast
  have cfg: "config_load (\<lambda>_. None) gpu_env None = Some (e_cfg demo_ex)" "cfg_no_nan (e_cfg demo_ex)"
    using demo_cfg_load demo_cfg_no_nan by (simp_all add: demo_ex_def)
  show ?thesis by (rule exI [of _ t]) (rule conjI [OF t(2) every_published_score_in_range [OF cfg t(1), THEN conjunct1]])
qed

text \<open>C23. A published snapshot is consistent with the pass that produced it: its score, class and reasons
  are those of the scorer on the context after the pass, its temperature, power and time stamp of the
  newest sample are this pass's driver answers, and after it the error streaks are zero.\<close>

theorem published_snapshot_consistent:
  assumes "poll_iter ex env ctx = (ctx', PollSend m)" "ring_wf (c_ring ctx)"
    and "r = score_gpu (pe_malloc env) (c_ring ctx') (c_state ctx') (Some (c_baseline ctx')) (Some (c_probe ctx')) (e_cfg ex)"
  shows "sn_score (msg_snapshot m) = sc_score r \<and> sn_classification (msg_snapshot m) = sc_classification r \<and>
    sn_reason_mask (msg_snapshot m) = sc_reason_mask r \<and> sn_serial (msg_snapshot m) = c_serial ctx \<and>
    msg_gpu_index m = c_gpu_index ctx \<and> sn_last_poll_ms (msg_snapshot m) = pe_now_ms env \<and>
    sn_temp_c (msg_snapshot m) = dbl_u32 (snd (DeviceGetTemperature (pe_nvml env) NVML_TEMPERATURE_GPU)) \<and>
    sn_power_w (msg_snapshot m) = ddiv (dbl_u32 (snd (DeviceGetPowerUsage (pe_nvml env)))) (Fin 1000) \<and>
    timestamp_ms (last (window (c_ring ctx'))) = pe_now_sample env \<and>
    c_consecutive_errors ctx' = 0 \<and> c_consecutive_hard_errors ctx' = 0 \<and> c_gpu_available ctx'"
proof -
  let ?ctx = "if c_gpu_available ctx then ctx else ctx\<lparr>c_last_retry_ms := pe_now_retry env\<rparr>"
  have dev: "poll_device ex env ?ctx = (ctx', PollSend m)"
    using assms(1) by (auto simp: poll_iter_def Let_def split: if_splits)
  have "env_error env = None"
  proof (cases "env_error env")
    case (Some r)
    then have "poll_failed (e_cfg ex) r ?ctx = (ctx', PollSend m)" using dev poll_device_error by metis
    from poll_failed_ctx(12) [OF this] show ?thesis by (simp split: if_splits)
  qed simp
  then obtain s t where p: "do_nvml_poll (pe_nvml env) (pe_now_sample env) zero_sample (poll_start_state ?ctx) = Inr (s, t)"
    "poll_succeeded ex env s t ?ctx = (ctx', PollSend m)"
    using dev poll_device_ok_env [of env ?ctx ex] by metis
  note c = poll_succeeded_ctx [OF p(2)] and v = do_nvml_poll_Inr [OF p(1)]
  have wf: "ring_wf (c_ring ?ctx)" using assms(2) by simp
  have ring: "c_ring ctx' = ring_push (c_ring ?ctx) s" by (rule c(1))
  have m: "m = ipc_msg ctx'" using c(12) by simp
  have "last (window (c_ring ctx')) = s"
    unfolding ring using wf by (simp add: window_push take_last_snoc ring_wf_def)
  moreover have "c_serial ?ctx = c_serial ctx" "c_gpu_index ?ctx = c_gpu_index ctx" by simp_all
  ultimately show ?thesis
    unfolding m ipc_msg_def c(11) assms(3)
    using v c(5,8,9,13,14) by (simp add: assemble_fields ring newest_push [OF wf])
qed

theorem published_snapshot_consistent_witness:
  "\<exists>ctx' m. poll_iter demo_ex (demo_env 0) demo_ctx = (ctx', PollSend m) \<and> msg_gpu_index m = 0 \<and>
     sn_temp_c (msg_snapshot m) = dbl_u32 60"
proof -
  obtain s st where "poll_device demo_ex (demo_env 0) demo_ctx = poll_succeeded demo_ex (demo_env 0) s st demo_ctx"
    using poll_device_ok_env [of "demo_env 0" demo_ctx demo_ex] by (auto simp: demo_env_error)
  then have it: "poll_iter demo_ex (demo_env 0) demo_ctx = poll_succeeded demo_ex (demo_env 0) s st demo_ctx"
    by (simp add: poll_iter_def demo_ctx_fields)
  obtain ctx act where sp: "poll_succeeded demo_ex (demo_env 0) s st demo_ctx = (ctx, act)" by force
  then have pi: "poll_iter demo_ex (demo_env 0) demo_ctx = (ctx, PollSend (ipc_msg ctx))"
    using it poll_succeeded_ctx(12) [OF sp] by simp
  have "c_gpu_index demo_ctx = 0" by (simp add: demo_ctx_def collector_start_def Let_def zero_ctx_def)
  moreover have "DeviceGetTemperature (pe_nvml (demo_env 0)) NVML_TEMPERATURE_GPU = (0, 60)"
    by (simp add: demo_env_def demo_vt_def)
  ultimately show ?thesis using published_snapshot_consistent [OF pi demo_ctx_fields(1) refl] pi by auto
qed

section \<open>Errors\<close>

text \<open>Every snapshot that a poll thread ever sends says that the GPU is present and available: the
  failing branches never publish. A lost or unavailable GPU keeps its last healthy snapshot in the
  exporter, so the presence and availability metrics can never show 0.\<close>

theorem published_always_present:
  assumes "reach (poll_init ex) (poll_step ex) t"
  shows "list_all (\<lambda>m. sn_gpu_present (msg_snapshot m) \<and> sn_gpu_available (msg_snapshot m)) (t_sent t)"
  using poll.reach_inv [OF assms] by (auto simp: thread_inv_def msg_ok_def Let_def list_all_iff)

theorem published_always_present_witness:
  "\<exists>t :: poll_thread_t. t_sent t \<noteq> [] \<and> list_all (\<lambda>m. sn_gpu_present (msg_snapshot m) \<and> sn_gpu_available (msg_snapshot m)) (t_sent t)"
proof -
  obtain t where t: "reach (poll_init demo_ex) (poll_step demo_ex) t" "t_sent t \<noteq> []" using demo_reach by blast
  show ?thesis by (rule exI [of _ t]) (rule conjI [OF t(2) published_always_present [OF t(1)]])
qed

text \<open>The context after a sequence of passes.\<close>

definition passes :: "exporter_t \<Rightarrow> poll_env list \<Rightarrow> gpu_ctx_t \<Rightarrow> gpu_ctx_t" where
  "passes ex envs ctx = foldl (\<lambda>c env. fst (poll_iter ex env c)) ctx envs"

definition soft_failure :: "poll_env \<Rightarrow> bool" where
  "soft_failure env \<longleftrightarrow> (\<exists>r. env_error env = Some r \<and> \<not> NVML_IS_HARD_ERROR r)"

lemma soft_pass:
  assumes "c_gpu_present ctx" "c_gpu_available ctx" "soft_failure env"
  shows "c_gpu_present (fst (poll_iter ex env ctx))"
    "c_consecutive_errors (fst (poll_iter ex env ctx)) = c_consecutive_errors ctx + 1"
    "c_gpu_available (fst (poll_iter ex env ctx)) \<longleftrightarrow> c_consecutive_errors ctx + 1 < nvml_error_threshold (e_cfg ex)"
proof -
  obtain r where r: "env_error env = Some r" "\<not> NVML_IS_HARD_ERROR r" using assms(3) by (auto simp: soft_failure_def)
  obtain ctx' act where p: "poll_failed (e_cfg ex) r ctx = (ctx', act)" by force
  have f: "fst (poll_iter ex env ctx) = ctx'"
    using assms(1,2) p poll_device_error [OF r(1), of ex ctx] by (simp add: poll_iter_def)
  have "act = PollSleep" using poll_failed_ctx(12) [OF p] r(2) by simp
  then show "c_gpu_present (fst (poll_iter ex env ctx))"
    "c_consecutive_errors (fst (poll_iter ex env ctx)) = c_consecutive_errors ctx + 1"
    "c_gpu_available (fst (poll_iter ex env ctx)) \<longleftrightarrow> c_consecutive_errors ctx + 1 < nvml_error_threshold (e_cfg ex)"
    using assms(1,2) by (simp_all add: f poll_failed_ctx(9,13,14) [OF p])
qed

lemma soft_passes:
  "c_gpu_present ctx \<Longrightarrow> c_gpu_available ctx \<Longrightarrow> list_all soft_failure envs \<Longrightarrow>
   c_consecutive_errors ctx + int (length envs) \<le> nvml_error_threshold (e_cfg ex) \<Longrightarrow>
   c_consecutive_errors ctx < nvml_error_threshold (e_cfg ex) \<Longrightarrow>
   c_gpu_present (passes ex envs ctx) \<and>
   c_consecutive_errors (passes ex envs ctx) = c_consecutive_errors ctx + int (length envs) \<and>
   (c_gpu_available (passes ex envs ctx) \<longleftrightarrow>
      c_consecutive_errors ctx + int (length envs) < nvml_error_threshold (e_cfg ex))"
proof (induction envs arbitrary: ctx)
  case (Cons env envs)
  let ?c = "fst (poll_iter ex env ctx)"
  note sp = soft_pass [OF Cons.prems(1,2), of env ex]
  have soft: "soft_failure env" "list_all soft_failure envs" using Cons.prems(3) by simp_all
  show ?case
  proof (cases "envs = []")
    case True
    then show ?thesis using sp [OF soft(1)] by (simp add: passes_def)
  next
    case False
    then have "c_consecutive_errors ctx + 1 < nvml_error_threshold (e_cfg ex)"
      using Cons.prems(4) by (cases envs) auto
    then have "c_gpu_available ?c" "c_consecutive_errors ?c < nvml_error_threshold (e_cfg ex)"
      "c_consecutive_errors ?c + int (length envs) \<le> nvml_error_threshold (e_cfg ex)"
      using sp [OF soft(1)] Cons.prems(4) by simp_all
    from Cons.IH [OF sp(1) [OF soft(1)] this(1) soft(2) this(3,2)] show ?thesis
      using sp [OF soft(1)] by (simp add: passes_def add.assoc)
  qed
qed (simp add: passes_def)

text \<open>C20. The soft error threshold is exact: from a healthy start, after fewer failing passes than the
  threshold the GPU is still available, and after exactly that many it is unavailable, whatever the
  soft errors are; it is never declared lost by them.\<close>

theorem soft_threshold_exact:
  assumes "c_gpu_present ctx" "c_gpu_available ctx" "c_consecutive_errors ctx = 0" "list_all soft_failure envs"
    and "int (length envs) \<le> nvml_error_threshold (e_cfg ex)" "0 < nvml_error_threshold (e_cfg ex)"
  shows "(c_gpu_available (passes ex envs ctx) \<longleftrightarrow> int (length envs) < nvml_error_threshold (e_cfg ex)) \<and>
    c_gpu_present (passes ex envs ctx)"
  using soft_passes [OF assms(1,2,4)] assms(3,5,6) by simp

theorem soft_threshold_exact_witness:
  "\<not> c_gpu_available (passes demo_ex (replicate 10 (demo_env 999)) demo_ctx)"
proof -
  have "list_all soft_failure (replicate 10 (demo_env 999))"
    by (simp add: list_all_iff soft_failure_def demo_env_error NVML_IS_HARD_ERROR_def NVML_ERROR_GPU_IS_LOST_def
        NVML_ERROR_DRIVER_NOT_LOADED_def)
  moreover have "nvml_error_threshold (e_cfg demo_ex) = 10" by (simp add: demo_ex_def demo_cfg_def cfg_defaults_def)
  ultimately show ?thesis
    using soft_threshold_exact [OF demo_ctx_fields(2,3,5), of "replicate 10 (demo_env 999)" demo_ex] by simp
qed

text \<open>C21. A hard driver error that reaches its threshold ends the thread at once and for good: the GPU is marked
  lost, the startup waiter is released, and in every reachable state a lost GPU means that its thread has
  ended. Nothing is sent in that pass. This is what the code does and says in its log; section 5.3 of DESIGN.md,
  gpu-health.conf.example and nvml.h say that the GPU is marked unavailable and tried again after the retry interval,
  which happens at the threshold of all errors only.\<close>

theorem hard_error_ends_thread:
  assumes "c_gpu_present ctx" "c_gpu_available ctx" "env_error env = Some r" "NVML_IS_HARD_ERROR r"
    and "nvml_hard_error_threshold (e_cfg ex) \<le> c_consecutive_hard_errors ctx + 1"
    and "reach (poll_init ex) (poll_step ex) t"
  shows "(\<exists>ctx'. poll_iter ex env ctx = (ctx', PollExit) \<and> \<not> c_gpu_present ctx' \<and> c_ready ctx') \<and>
    (if t_running t then c_gpu_present (t_ctx t) else True)"
proof -
  obtain ctx' act where p: "poll_failed (e_cfg ex) r ctx = (ctx', act)" by force
  have "poll_iter ex env ctx = (ctx', act)"
    using assms(1,2) p poll_device_error [OF assms(3), of ex ctx] by (simp add: poll_iter_def)
  moreover have "act = PollExit" using poll_failed_ctx(12) [OF p] assms(4,5) by simp
  moreover have "\<not> c_gpu_present ctx'" "c_ready ctx'"
    using poll_failed_ctx(6,13) [OF p] \<open>act = PollExit\<close> by simp_all
  moreover have "if t_running t then c_gpu_present (t_ctx t) else True"
    using poll.reach_inv [OF assms(6)] by (simp add: thread_inv_def)
  ultimately show ?thesis by blast
qed

theorem hard_error_ends_thread_witness: "\<exists>ctx'. poll_iter demo_ex (demo_env 15) demo_ctx = (ctx', PollExit)"
proof -
  obtain t where t: "reach (poll_init demo_ex) (poll_step demo_ex) t" using demo_reach by blast
  have "env_error (demo_env 15) = Some 15" "NVML_IS_HARD_ERROR 15"
    "nvml_hard_error_threshold (e_cfg demo_ex) \<le> c_consecutive_hard_errors demo_ctx + 1"
    by (simp_all add: demo_env_error NVML_IS_HARD_ERROR_def NVML_ERROR_GPU_IS_LOST_def demo_ctx_fields demo_ex_def
        demo_cfg_def cfg_defaults_def)
  then show ?thesis using hard_error_ends_thread [OF demo_ctx_fields(2,3) _ _ _ t] by blast
qed

text \<open>C22. Back-off: while a GPU is unavailable and the retry interval has not passed, a pass makes no
  driver call and changes nothing; once it has passed, the retry time is recorded and the driver is
  polled, and one successful poll makes the GPU available again with both error streaks cleared.\<close>

theorem backoff_then_recovery:
  assumes "c_gpu_present ctx" "\<not> c_gpu_available ctx"
    and "waiting \<longleftrightarrow> pe_now_retry env - c_last_retry_ms ctx < word_of_int (nvml_retry_interval_s (e_cfg ex)) * 1000"
  shows "if waiting then poll_iter ex env ctx = (ctx, PollSleep)
    else if env_error env = None
    then \<exists>ctx' m. poll_iter ex env ctx = (ctx', PollSend m) \<and> c_gpu_available ctx' \<and> c_consecutive_errors ctx' = 0 \<and>
           c_consecutive_hard_errors ctx' = 0
    else \<not> c_gpu_available (fst (poll_iter ex env ctx)) \<and>
         c_collector_errors_total (fst (poll_iter ex env ctx)) = c_collector_errors_total ctx + 1"
proof -
  let ?ctx = "ctx\<lparr>c_last_retry_ms := pe_now_retry env\<rparr>"
  have it: "poll_iter ex env ctx = (if waiting then (ctx, PollSleep) else poll_device ex env ?ctx)"
    using assms by (simp add: poll_iter_def Let_def)
  show ?thesis
  proof (cases "env_error env")
    case None
    then obtain s t where d: "poll_device ex env ?ctx = poll_succeeded ex env s t ?ctx"
      using poll_device_ok_env by blast
    obtain ctx' act where p: "poll_succeeded ex env s t ?ctx = (ctx', act)" by force
    have "act = PollSend (ipc_msg ctx')" by (rule poll_succeeded_ctx(12) [OF p])
    then show ?thesis using None it d p poll_succeeded_ctx(5,8,9) [OF p] by simp
  next
    case (Some r)
    obtain ctx' act where p: "poll_failed (e_cfg ex) r ?ctx = (ctx', act)" by force
    then show ?thesis using Some it poll_device_error [OF Some, of ex ?ctx] assms(2)
        poll_failed_ctx(10,14) [OF p] by simp
  qed
qed

theorem backoff_then_recovery_witness:
  "poll_iter demo_ex (demo_env 0) (demo_ctx\<lparr>c_gpu_available := False\<rparr>) = (demo_ctx\<lparr>c_gpu_available := False\<rparr>, PollSleep)"
proof -
  have "pe_now_retry (demo_env 0) - c_last_retry_ms (demo_ctx\<lparr>c_gpu_available := False\<rparr>) <
      word_of_int (nvml_retry_interval_s (e_cfg demo_ex)) * 1000"
    by (simp add: demo_env_def demo_ctx_def collector_start_def Let_def demo_ex_def demo_cfg_def cfg_defaults_def)
  then show ?thesis
    using backoff_then_recovery [of "demo_ctx\<lparr>c_gpu_available := False\<rparr>" True "demo_env 0" demo_ex] demo_ctx_fields(2)
    by simp
qed

section \<open>Baseline reload\<close>

text \<open>A reload of a baseline that is not there reports a driver mismatch: the comparison with the
  current driver version is made whether or not a file was read, so the empty version of a missing
  baseline counts as a change of driver, unlike at startup.\<close>

theorem reload_missing_reports_mismatch:
  assumes "e_baseline_inotify_fd ex \<ge> 0" "baseline_inotify_check (pe_inotify env) = 1"
    and "pe_fopen env (baseline_path (baseline_dir (e_cfg ex)) (c_serial ctx)) = None" "c_driver_version ctx \<noteq> []"
  shows "\<not> bl_available (c_baseline (reload_baseline ex env ctx)) \<and>
    bl_driver_mismatch (c_baseline (reload_baseline ex env ctx))"
proof -
  have "take 64 (c_driver_version ctx) \<noteq> []" using assms(4) by (cases "c_driver_version ctx") auto
  then show ?thesis using assms(1-3)
    by (simp add: reload_baseline_def baseline_load_def zero_baseline_def Let_def)
qed

theorem reload_missing_reports_mismatch_witness:
  "bl_driver_mismatch (c_baseline (reload_baseline demo_ex (demo_env 0) demo_ctx))"
  using reload_missing_reports_mismatch [of demo_ex "demo_env 0" demo_ctx]
  by (simp add: demo_ex_def demo_env_def baseline_inotify_check_def demo_ctx_fields)

section \<open>The sleep\<close>

text \<open>A stop request ends the sleep at the next nap, and without one it lasts ten naps a second.\<close>

lemma poll_naps_exact:
  "ticks \<le> length stops \<Longrightarrow>
   poll_naps ticks stops = Some (length (takeWhile (\<lambda>stop. \<not> stop) (take ticks stops)))"
  by (induction ticks stops rule: poll_naps.induct) auto

lemma poll_sleep_stops:
  "nat (seconds * 10) \<le> length stops \<Longrightarrow>
   poll_sleep seconds stops = Some (length (takeWhile (\<lambda>stop. \<not> stop) (take (nat (seconds * 10)) stops)))"
  by (simp add: poll_sleep_def poll_naps_exact)

end
