(* ===== verification/Reload.thy ===== *)
theory Reload
  imports CollectorProps
begin

text \<open>
  The hot reload of the baselines seen across threads. All poll threads read the one inotify descriptor
  of the exporter (\<^verbatim>\<open>exp->baseline_inotify_fd\<close>, \<^verbatim>\<open>src/collector.c\<close>) without a lock, and a read takes events away.
  The single reads of all threads, in any order, are served here from one queue of events. Also the case rule for
  a pass that the proofs about whole threads share.
\<close>

section \<open>The branches of a pass\<close>

text \<open>A pass of a poll thread is one of three: nothing is done, the poll of the device failed, or it succeeded.\<close>

lemma poll_iter_branch:
  assumes "poll_iter ex env ctx = (ctx', act)"
  obtains (idle) "ctx' = ctx" "act = PollSleep"
  | (failed) ctx0 r where "ctx0 = ctx \<or> ctx0 = ctx\<lparr>c_last_retry_ms := pe_now_retry env\<rparr>"
      "poll_failed (e_cfg ex) r ctx0 = (ctx', act)" "act = PollSleep \<or> act = PollExit"
  | (succeeded) ctx0 smp state where "ctx0 = ctx \<or> ctx0 = ctx\<lparr>c_last_retry_ms := pe_now_retry env\<rparr>"
      "poll_succeeded ex env smp state ctx0 = (ctx', act)" "act = PollSend (ipc_msg ctx')"
proof (cases "\<exists>ctx0. (ctx0 = ctx \<or> ctx0 = ctx\<lparr>c_last_retry_ms := pe_now_retry env\<rparr>) \<and> poll_device ex env ctx0 = (ctx', act)")
  case True
  then obtain ctx0 where c: "ctx0 = ctx \<or> ctx0 = ctx\<lparr>c_last_retry_ms := pe_now_retry env\<rparr>"
    "poll_device ex env ctx0 = (ctx', act)" by blast
  show thesis
  proof (cases "do_nvml_poll (pe_nvml env) (pe_now_sample env) zero_sample (poll_start_state ctx0)")
    case (Inl e)
    then have f: "poll_failed (e_cfg ex) (fst e) ctx0 = (ctx', act)" using c(2) by (cases e) (simp add: poll_device_def)
    have "act = PollSleep \<or> act = PollExit" using poll_failed_ctx(12) [OF f] by (simp split: if_splits)
    with failed [OF c(1) f] show thesis .
  next
    case (Inr v)
    then have p: "poll_succeeded ex env (fst v) (snd v) ctx0 = (ctx', act)" using c(2) by (cases v) (simp add: poll_device_def)
    then show thesis using succeeded [OF c(1)] poll_succeeded_ctx(12) [OF p] by blast
  qed
next
  case False
  then show thesis using assms idle by (auto simp: poll_iter_def Let_def split: if_splits)
qed

lemma poll_succeeded_baseline:
  assumes "poll_succeeded ex env smp state ctx = (ctx', act)"
  shows "c_baseline ctx' = c_baseline (reload_baseline ex env ctx)"
  using assms by (auto simp: poll_succeeded_def snapshot_update_def reload_baseline_def Let_def)

text \<open>A pass changes the baseline only when it publishes and has read an event.\<close>

lemma poll_iter_baseline:
  assumes "poll_iter ex env ctx = (ctx', act)"
  shows "c_baseline ctx' = c_baseline ctx \<or>
    (\<exists>m. act = PollSend m) \<and> 0 \<le> e_baseline_inotify_fd ex \<and> baseline_inotify_check (pe_inotify env) = 1"
  using assms
proof (cases rule: poll_iter_branch)
  case (failed ctx0 r)
  then show ?thesis using poll_failed_ctx(4) [OF failed(2)] by auto
next
  case (succeeded ctx0 smp state)
  then show ?thesis using poll_succeeded_baseline [OF succeeded(2)]
    by (cases "ctx0 = ctx") (auto simp: reload_baseline_def)
qed simp

lemma pass_baseline:
  assumes "u = poll_thread_pass ex env t"
  shows "c_baseline (t_ctx u) = c_baseline (t_ctx t) \<or>
    t_sent u \<noteq> t_sent t \<and> 0 \<le> e_baseline_inotify_fd ex \<and> baseline_inotify_check (pe_inotify env) = 1"
proof (cases "poll_iter ex env (t_ctx t)")
  case (Pair ctx act)
  show ?thesis using poll_iter_baseline [OF Pair] assms Pair by (cases act) (auto simp: poll_thread_pass_def)
qed

section \<open>One queue of events\<close>

text \<open>All drains read one descriptor, without a lock, so the reads of different threads mix. \<open>ReadBy k j\<close> is a
  read of the \<open>k\<close>-th pass: it takes the first \<open>j + 1\<close> pending events, as many as are there and fit its buffer, or
  finds none. \<open>Arrive n\<close> is an event of \<open>n\<close> bytes that the kernel adds. The result gives each pass what its
  reads have returned, in order, and the events that are left.\<close>

datatype drain_event = Arrive nat | ReadBy nat nat

fun shared_reads ::
    "drain_event list \<Rightarrow> nat list \<Rightarrow> (nat \<Rightarrow> read_result list) \<Rightarrow> (nat \<Rightarrow> read_result list) \<times> nat list" where
  "shared_reads [] q r = (r, q)"
| "shared_reads (Arrive n # es) q r = shared_reads es (q @ [n]) r"
| "shared_reads (ReadBy k j # es) q r =
     (if q = [] then shared_reads es [] (r(k := r k @ [ReadAgain]))
      else shared_reads es (drop (Suc j) q) (r(k := r k @ [ReadBytes (sum_list (take (Suc j) q))])))"

fun arrivals :: "drain_event list \<Rightarrow> nat" where
  "arrivals [] = 0"
| "arrivals (Arrive n # es) = Suc (arrivals es)"
| "arrivals (ReadBy k j # es) = arrivals es"

text \<open>The passes of the threads, each with what its own reads returned. A pass touches nothing of another
  thread, so only the order of the passes of one thread matters.\<close>

fun thread_passes ::
    "exporter_t \<Rightarrow> (nat \<Rightarrow> read_result list) \<Rightarrow> nat \<Rightarrow> (nat \<times> poll_env) list \<Rightarrow> poll_thread_t list \<Rightarrow> poll_thread_t list" where
  "thread_passes ex r k [] ts = ts"
| "thread_passes ex r k ((i, env) # ps) ts =
     thread_passes ex r (Suc k) ps
       (if i < length ts \<and> t_running (ts ! i)
        then ts[i := poll_thread_pass ex (env\<lparr>pe_inotify := r k\<rparr>) (ts ! i)] else ts)"

definition same_baseline :: "poll_thread_t list \<Rightarrow> poll_thread_t list \<Rightarrow> nat \<Rightarrow> bool" where
  "same_baseline ts us i \<longleftrightarrow> c_baseline (t_ctx (us ! i)) = c_baseline (t_ctx (ts ! i))"

text \<open>The passes that were given events.\<close>

definition readers :: "(nat \<Rightarrow> read_result list) \<Rightarrow> nat set" where
  "readers r = {k. \<exists>n. ReadBytes n \<in> set (r k)}"

lemma drain_one_read: "inotify_drain a rs = 1 \<Longrightarrow> a \<noteq> 1 \<Longrightarrow> \<exists>n. ReadBytes n \<in> set rs"
  by (induction a rs rule: inotify_drain.induct) auto

lemma check_reader: "baseline_inotify_check (r k) = 1 \<Longrightarrow> k \<in> readers r"
  using drain_one_read [of 0 "r k"] by (simp add: baseline_inotify_check_def readers_def)

lemma readers_bound:
  assumes "finite (readers r)"
  shows "finite (readers (fst (shared_reads es q r))) \<and>
    card (readers (fst (shared_reads es q r))) \<le> card (readers r) + length q + arrivals es"
  using assms
proof (induction es q r rule: shared_reads.induct)
  case (3 k j es q r)
  show ?case
  proof (cases "q = []")
    case True
    let ?r = "r(k := r k @ [ReadAgain])"
    have same: "readers ?r = readers r" by (auto simp: readers_def split: if_splits)
    then have "finite (readers ?r)" using 3(3) by simp
    from 3(1) [OF True this] show ?thesis unfolding same by (simp add: True del: fun_upd_apply)
  next
    case False
    let ?r = "r(k := r k @ [ReadBytes (sum_list (take (Suc j) q))])"
    have sub: "readers ?r \<subseteq> insert k (readers r)" by (auto simp: readers_def split: if_splits)
    then have fin: "finite (readers ?r)" using 3(3) finite_subset by blast
    have "card (readers ?r) \<le> Suc (card (readers r))"
      using card_mono [OF _ sub] 3(3) by (simp add: card_insert_if del: fun_upd_apply split: if_splits)
    moreover have "length (drop (Suc j) q) + 1 \<le> length q" using False by (cases q) auto
    ultimately have "card (readers ?r) + length (drop (Suc j) q) \<le> card (readers r) + length q" by linarith
    moreover have run: "shared_reads (ReadBy k j # es) q r = shared_reads es (drop (Suc j) q) ?r" using False by simp
    ultimately show ?thesis using 3(2) [OF False fin] unfolding run arrivals.simps by linarith
  qed
qed auto

lemma thread_passes_length: "length (thread_passes ex r k ps ts) = length ts"
  by (induction ex r k ps ts rule: thread_passes.induct) simp_all

lemma reload_by_reader:
  assumes "i < length ts" "\<not> same_baseline ts (thread_passes ex r k ps ts) i"
  shows "\<exists>j<length ps. fst (ps ! j) = i \<and> k + j \<in> readers r"
  using assms
proof (induction ex r k ps ts rule: thread_passes.induct)
  case (2 ex r k l env ps ts)
  define u where "u = poll_thread_pass ex (env\<lparr>pe_inotify := r k\<rparr>) (ts ! l)"
  define vs where "vs = (if l < length ts \<and> t_running (ts ! l) then ts[l := u] else ts)"
  have run: "thread_passes ex r k ((l, env) # ps) ts = thread_passes ex r (Suc k) ps vs" by (simp add: vs_def u_def)
  show ?case
  proof (cases "same_baseline ts vs i")
    case True
    then have "\<not> same_baseline vs (thread_passes ex r (Suc k) ps vs) i" using 2(3) unfolding run by (simp add: same_baseline_def)
    moreover have "i < length vs" using 2(2) by (simp add: vs_def)
    ultimately obtain j where "j < length ps" "fst (ps ! j) = i" "Suc k + j \<in> readers r"
      using 2(1) unfolding u_def [symmetric] vs_def [symmetric] by blast
    then show ?thesis by (intro exI [of _ "Suc j"]) simp
  next
    case False
    then have "l = i" "c_baseline (t_ctx u) \<noteq> c_baseline (t_ctx (ts ! i))"
      by (auto simp: vs_def same_baseline_def nth_list_update split: if_splits)
    then have "baseline_inotify_check (r k) = 1" using pass_baseline [OF u_def] by simp
    then show ?thesis using check_reader \<open>l = i\<close> by (intro exI [of _ 0]) simp
  qed
qed (simp add: same_baseline_def)

text \<open>C17. Events are not handed to every thread: a change of the baseline directory that raises \<open>n\<close> events makes
  at most \<open>n\<close> GPUs load their baseline again, however many there are. All threads read one descriptor and a
  read takes its events away, so this holds however the reads of the threads mix, how often each thread passes,
  and whatever has arrived in between; with one event at most one GPU is updated.\<close>

theorem events_bound_reloads:
  assumes "shared_reads es q (\<lambda>_. []) = (r, q')" "thread_passes ex r 0 ps ts = us"
  shows "length us = length ts \<and>
    length (filter (\<lambda>i. c_baseline (t_ctx (us ! i)) \<noteq> c_baseline (t_ctx (ts ! i))) [0..<length ts]) \<le> length q + arrivals es"
proof -
  let ?P = "\<lambda>i. c_baseline (t_ctx (us ! i)) \<noteq> c_baseline (t_ctx (ts ! i))"
  have "readers (\<lambda>_. []) = {}" by (simp add: readers_def)
  then have r: "finite (readers r)" "card (readers r) \<le> length q + arrivals es"
    using readers_bound [of "\<lambda>_. []" es q] assms(1) by simp_all
  have "set (filter ?P [0..<length ts]) \<subseteq> (\<lambda>j. fst (ps ! j)) ` readers r"
  proof
    fix i assume "i \<in> set (filter ?P [0..<length ts])"
    then have "i < length ts" "\<not> same_baseline ts us i" by (simp_all add: same_baseline_def)
    then show "i \<in> (\<lambda>j. fst (ps ! j)) ` readers r" using reload_by_reader [of i ts ex r 0 ps] assms(2) by force
  qed
  then have "card (set (filter ?P [0..<length ts])) \<le> card (readers r)"
    using card_mono [OF finite_imageI [OF r(1)]] card_image_le [OF r(1)] le_trans by blast
  moreover have "card (set (filter ?P [0..<length ts])) = length (filter ?P [0..<length ts])" by (intro distinct_card) simp
  ultimately show ?thesis using r(2) thread_passes_length [of ex r 0 ps ts] assms(2) by simp
qed

text \<open>Two GPUs, a valid baseline file for each, one event: the first thread that passes gets its baseline.\<close>

definition demo_reload_env :: poll_env where
  "demo_reload_env = (demo_env 0)\<lparr>pe_fopen := \<lambda>_. Some demo_baseline_file\<rparr>"

definition demo_thread :: poll_thread_t where
  "demo_thread = \<lparr>t_ctx = demo_ctx, t_running = True, t_sent = []\<rparr>"

lemma demo_reload:
  assumes "u = poll_thread_pass demo_ex (demo_reload_env\<lparr>pe_inotify := [ReadBytes 16, ReadAgain]\<rparr>) demo_thread"
  shows "t_sent u \<noteq> [] \<and> bl_available (c_baseline (t_ctx u))"
proof -
  let ?env = "demo_reload_env\<lparr>pe_inotify := [ReadBytes 16, ReadAgain]\<rparr>"
  have "env_error ?env = None" using demo_env_error [of 0] by (simp add: env_error_def demo_reload_env_def)
  then obtain s st where "poll_device demo_ex ?env demo_ctx = poll_succeeded demo_ex ?env s st demo_ctx"
    using poll_device_ok_env by blast
  moreover obtain ctx act where p: "poll_succeeded demo_ex ?env s st demo_ctx = (ctx, act)" by force
  ultimately have it: "poll_iter demo_ex ?env demo_ctx = (ctx, PollSend (ipc_msg ctx))"
    using poll_succeeded_ctx(12) [OF p] by (simp add: poll_iter_def demo_ctx_fields)
  have "bl_available (baseline_load (\<lambda>_. Some demo_baseline_file) dir serial)" for dir serial
  proof -
    have inv: "bl_inv (baseline_lines bl_start (fgets_lines 512 demo_baseline_file))"
      unfolding baseline_lines_kv by (rule basef.inv_file)
    then show ?thesis by (simp add: baseline_load_def baseline_finish_def bl_inv_def Let_def)
  qed
  then have "bl_available (c_baseline ctx)" using poll_succeeded_baseline [OF p]
    by (simp add: reload_baseline_def baseline_inotify_check_def demo_ex_def demo_reload_env_def Let_def)
  then show ?thesis using it assms by (simp add: poll_thread_pass_def demo_thread_def demo_ctx_fields)
qed

definition demo_reads :: "drain_event list" where
  "demo_reads = [ReadBy 0 0, ReadBy 1 0, ReadBy 0 0]"

theorem events_bound_reloads_witness:
  "\<exists>r u v. shared_reads demo_reads [16] (\<lambda>_. []) = (r, []) \<and>
     thread_passes demo_ex r 0 [(0, demo_reload_env), (1, demo_reload_env)] [demo_thread, demo_thread] = [u, v] \<and>
     bl_available (c_baseline (t_ctx u)) \<and> \<not> bl_available (c_baseline (t_ctx v))"
proof -
  define r :: "nat \<Rightarrow> read_result list" where "r = (\<lambda>_. [])(0 := [ReadBytes 16, ReadAgain], 1 := [ReadAgain])"
  define u where "u = poll_thread_pass demo_ex (demo_reload_env\<lparr>pe_inotify := [ReadBytes 16, ReadAgain]\<rparr>) demo_thread"
  define v where "v = poll_thread_pass demo_ex (demo_reload_env\<lparr>pe_inotify := [ReadAgain]\<rparr>) demo_thread"
  have t: "t_running demo_thread" "\<not> bl_available (c_baseline (t_ctx demo_thread))"
    by (simp_all add: demo_thread_def demo_ctx_def collector_start_def zero_ctx_def zero_baseline_def Let_def)
  have r: "shared_reads demo_reads [16] (\<lambda>_. []) = (r, [])" by (auto simp: demo_reads_def r_def)
  have p: "thread_passes demo_ex r 0 [(0, demo_reload_env), (1, demo_reload_env)] [demo_thread, demo_thread] = [u, v]"
    using t(1) by (simp add: r_def u_def v_def)
  have av: "bl_available (c_baseline (t_ctx u))" using demo_reload [OF u_def] by simp
  then have ne: "c_baseline (t_ctx u) \<noteq> c_baseline (t_ctx demo_thread)" using t(2) by auto
  have "c_baseline (t_ctx v) = c_baseline (t_ctx demo_thread)"
    using events_bound_reloads [OF r p] ne by (simp add: demo_reads_def upt_rec split: if_splits)
  then show ?thesis using r p av t(2) by (intro exI [of _ r] exI [of _ u] exI [of _ v]) simp
qed

end
