(* ===== verification/Metrics.thy ===== *)
theory Metrics
  imports Util Snapshot
begin

text \<open>
  The metrics page of the HTTP child: \<open>bprintf\<close>, \<open>copy_slots\<close> and \<open>render_metrics\<close> of \<^verbatim>\<open>src/http.c\<close>,
  with the \<open>printf\<close> conversions they use. The page is a list of chunks, one per call of \<open>bprintf\<close>,
  accumulated in a bounded buffer. The metric families are data, in the order and in the groups of
  the source. Printing follows the C library: the exact value is rounded half to even. The sign of
  a NaN, which \<open>printf\<close> would print, is not modelled.
\<close>

section \<open>Conversions\<close>

abbreviation nl :: char where
  "nl \<equiv> CHR 0x0A"

definition pad_left :: "nat \<Rightarrow> string \<Rightarrow> string" where
  "pad_left p ds = replicate (p - length ds) CHR ''0'' @ ds"

text \<open>A non-negative number with \<open>p\<close> decimals.\<close>

definition fixed :: "nat \<Rightarrow> rat \<Rightarrow> string" where
  "fixed p q =
     (let n = nat (round_half_even (q * 10 ^ p))
      in fmt_u (n div 10 ^ p) @ (if p = 0 then [] else CHR ''.'' # pad_left p (fmt_u (n mod 10 ^ p))))"

text \<open>\<open>%.pf\<close>.\<close>

definition fmt_f :: "nat \<Rightarrow> double \<Rightarrow> string" where
  "fmt_f p d =
     (case d of
        NaN \<Rightarrow> ''nan''
      | Inf s \<Rightarrow> if s then ''-inf'' else ''inf''
      | Fin q \<Rightarrow> if q < 0 then CHR ''-'' # fixed p (- q) else fixed p q)"

text \<open>\<open>%.6g\<close>: the decimal exponent of the number rounded to six digits chooses between the fixed and
  the exponent notation; trailing zeros of the fraction are dropped.\<close>

definition dec_exp :: "rat \<Rightarrow> int" where
  "dec_exp q =
     (let (a, b) = quotient_of q; k = int (length (fmt_u (nat a))) - int (length (fmt_u (nat b)))
      in if 10 powi k \<le> q then k else k - 1)"

definition strip_zeros :: "string \<Rightarrow> string" where
  "strip_zeros ds = rev (dropWhile (\<lambda>c. c = CHR ''0'') (rev ds))"

definition with_point :: "string \<Rightarrow> string \<Rightarrow> string" where
  "with_point ip fp = (let fp = strip_zeros fp in ip @ (if fp = [] then [] else CHR ''.'' # fp))"

definition general6 :: "rat \<Rightarrow> string" where
  "general6 q =
     (let k0 = dec_exp q; m0 = nat (round_half_even (q * 10 powi (5 - k0)));
          (m, k) = (if 10 ^ 6 \<le> m0 then (10 ^ 5, k0 + 1) else (m0, k0)); ds = fmt_u m
      in if 0 \<le> k \<and> k < 6 then with_point (take (nat k + 1) ds) (drop (nat k + 1) ds)
         else if - 4 \<le> k \<and> k < 0 then with_point ''0'' (replicate (nat (- k) - 1) CHR ''0'' @ ds)
         else with_point (take 1 ds) (drop 1 ds) @
              [CHR ''e'', if k < 0 then CHR ''-'' else CHR ''+''] @ pad_left 2 (fmt_u (nat \<bar>k\<bar>)))"

definition fmt_g6 :: "double \<Rightarrow> string" where
  "fmt_g6 d =
     (case d of
        NaN \<Rightarrow> ''nan''
      | Inf s \<Rightarrow> if s then ''-inf'' else ''inf''
      | Fin q \<Rightarrow> if q = 0 then ''0'' else if q < 0 then CHR ''-'' # general6 (- q) else general6 q)"

text \<open>A C truth value printed with \<open>%d\<close>.\<close>

definition fmt_b :: "bool \<Rightarrow> string" where
  "fmt_b b = fmt_d (if b then 1 else 0)"

section \<open>The buffer\<close>

text \<open>The buffer holds the text written so far; \<open>pos\<close> is its length.\<close>

definition bprintf :: "nat \<Rightarrow> string \<Rightarrow> string \<Rightarrow> string" where
  "bprintf cap text buf =
     (if cap - 1 \<le> length buf then buf
      else let n = length text;
               written = (if cap - length buf - 1 < n then cap - length buf - 1 else n)
           in buf @ take written text)"

section \<open>Slots\<close>

record http_slot_t =
  snap :: gpu_snapshot_t
  received :: bool

definition copy_slots :: "bool \<Rightarrow> http_slot_t list \<Rightarrow> http_slot_t list option" where
  "copy_slots malloc_ok g_slots = (if malloc_ok then Some g_slots else None)"

section \<open>Metric families\<close>

text \<open>A family has its two header lines and at most one line for each GPU that has reported.\<close>

record metric_family =
  fam_name :: string
  fam_type :: string
  fam_help :: string
  fam_line :: "string \<Rightarrow> gpu_snapshot_t \<Rightarrow> string option"

abbreviation family :: "string \<Rightarrow> string \<Rightarrow> string \<Rightarrow> (string \<Rightarrow> gpu_snapshot_t \<Rightarrow> string option) \<Rightarrow> metric_family" where
  "family name ty help line \<equiv> \<lparr>fam_name = name, fam_type = ty, fam_help = help, fam_line = line\<rparr>"

definition m_header :: "string \<Rightarrow> string \<Rightarrow> string \<Rightarrow> string" where
  "m_header name type_str help_str =
     ''# HELP '' @ name @ '' '' @ help_str @ [nl] @ ''# TYPE '' @ name @ '' '' @ type_str @ [nl]"

definition label_open :: "string \<Rightarrow> gpu_snapshot_t \<Rightarrow> string" where
  "label_open name s = name @ ''{serial='' @ [CHR 0x22] @ sn_serial s @ [CHR 0x22]"

definition sample :: "(gpu_snapshot_t \<Rightarrow> string) \<Rightarrow> string \<Rightarrow> gpu_snapshot_t \<Rightarrow> string option" where
  "sample val name s = Some (label_open name s @ ''} '' @ val s @ [nl])"

definition fmt_nan :: "double \<Rightarrow> string" where
  "fmt_nan d = (if d = NaN then ''NaN'' else fmt_g6 d)"

definition label :: "string \<Rightarrow> string \<Rightarrow> string" where
  "label name val = '','' @ name @ ''='' @ [CHR 0x22] @ val @ [CHR 0x22]"

definition info_line :: "string \<Rightarrow> gpu_snapshot_t \<Rightarrow> string option" where
  "info_line name s =
     Some (label_open name s @ label ''uuid'' (sn_uuid s) @ label ''model'' (sn_gpu_model s) @
       label ''driver'' (sn_driver_version s) @ label ''index'' (fmt_d (sn_gpu_index s)) @
       label ''pcie_gen_max'' (fmt_d (sn_pcie_link_gen_max s)) @
       label ''pcie_width_max'' (fmt_d (sn_pcie_link_width_max s)) @ ''} 1'' @ [nl])"

definition fan_line :: "string \<Rightarrow> gpu_snapshot_t \<Rightarrow> string option" where
  "fan_line name s =
     (if sn_fan_speed_pct s < 0 then None
      else sample (\<lambda>s. fmt_f 4 (ddiv (of_c_int (sn_fan_speed_pct s)) (Fin 100))) name s)"

definition bw_line :: "string \<Rightarrow> gpu_snapshot_t \<Rightarrow> string option" where
  "bw_line =
     sample (\<lambda>s. if sn_mem_bw_util_pct s = NaN then ''NaN'' else fmt_f 4 (ddiv (sn_mem_bw_util_pct s) (Fin 100)))"

fun identity_code :: "gpu_identity_src_t \<Rightarrow> int" where
  "identity_code GPU_IDENTITY_SERIAL = 0"
| "identity_code GPU_IDENTITY_UUID = 1"

text \<open>The groups 2 to 11 of the page.\<close>

definition metrics_identity :: "metric_family list" where
  "metrics_identity =
    [family ''gpu_info'' ''gauge'' ''GPU identity and static properties; join on serial label for metadata''
       info_line,
     family ''gpu_identity_source'' ''gauge'' ''Identity source used for metric labels (0=serial, 1=uuid_fallback)''
       (sample (\<lambda>s. fmt_d (identity_code (sn_identity_source s))))]"

definition metrics_score :: "metric_family list" where
  "metrics_score =
    [family ''gpu_health_score'' ''gauge'' ''GPU health score (0=worst, 100=fully healthy); N/A class when telemetry_ok=0''
       (sample (\<lambda>s. fmt_f 2 (sn_score s))),
     family ''gpu_health_class'' ''gauge'' ''Health classification: 0=N/A 1=Healthy 2=Monitor 3=Degrading 4=Decommission''
       (sample (\<lambda>s. fmt_d (class_code (sn_classification s)))),
     family ''gpu_telemetry_ok'' ''gauge'' ''1 if telemetry completeness gate passed and score is valid''
       (sample (\<lambda>s. fmt_b (sn_telemetry_ok s)))]"

definition metrics_window :: "metric_family list" where
  "metrics_window =
    [family ''gpu_temp_p95_celsius'' ''gauge'' ''GPU die temperature p95 over scoring window (Celsius)''
       (sample (\<lambda>s. fmt_f 2 (sn_temp_p95_c s))),
     family ''gpu_hbm_temp_p95_celsius'' ''gauge'' ''HBM temperature p95 over scoring window (Celsius)''
       (sample (\<lambda>s. fmt_f 2 (sn_hbm_temp_p95_c s))),
     family ''gpu_sm_clock_std_mhz'' ''gauge'' ''SM clock standard deviation over scoring window (MHz)''
       (sample (\<lambda>s. fmt_f 2 (sn_clk_std_mhz s))),
     family ''gpu_power_saturation_ratio'' ''gauge'' ''Fraction of scoring window where power >= high_ratio * limit''
       (sample (\<lambda>s. fmt_f 4 (sn_power_saturation_frac s))),
     family ''gpu_ecc_sbe_rate_per_hour'' ''gauge'' ''ECC single-bit error rate over scoring window (errors/hour)''
       (sample (\<lambda>s. fmt_f 2 (sn_ecc_sbe_rate_per_hour s))),
     family ''gpu_ecc_dbe_in_window'' ''gauge'' ''1 if any ECC double-bit error delta was observed in the scoring window''
       (sample (\<lambda>s. fmt_b (sn_ecc_dbe_in_window s)))]"

definition metrics_thermal :: "metric_family list" where
  "metrics_thermal =
    [family ''gpu_temp_celsius'' ''gauge'' ''GPU die temperature current value (Celsius)''
       (sample (\<lambda>s. fmt_f 1 (sn_temp_c s))),
     family ''gpu_hbm_temp_celsius'' ''gauge'' ''HBM temperature current value (Celsius)''
       (sample (\<lambda>s. fmt_f 1 (sn_hbm_temp_c s))),
     family ''gpu_fan_speed_ratio'' ''gauge'' ''Fan speed as a fraction (0.0-1.0); absent for liquid-cooled GPUs''
       fan_line]"

definition metrics_power :: "metric_family list" where
  "metrics_power =
    [family ''gpu_power_watts'' ''gauge'' ''Current GPU power draw (Watts)''
       (sample (\<lambda>s. fmt_f 2 (sn_power_w s))),
     family ''gpu_power_limit_watts'' ''gauge'' ''Current power management limit (Watts)''
       (sample (\<lambda>s. fmt_f 2 (sn_power_limit_w s))),
     family ''gpu_board_power_watts'' ''gauge'' ''Total board power draw (Watts); NaN if DCGM unavailable''
       (sample (\<lambda>s. fmt_nan (sn_board_power_w s))),
     family ''gpu_energy_joules_total'' ''counter'' ''Total energy consumed (Joules); NaN if DCGM unavailable''
       (sample (\<lambda>s. fmt_nan (sn_energy_j s))),
     family ''gpu_power_violation_microseconds_total'' ''counter'' ''Cumulative power violation time (microseconds); 0 if DCGM unavailable''
       (sample (\<lambda>s. fmt_u (unat (sn_power_violation_us s)))),
     family ''gpu_thermal_violation_microseconds_total'' ''counter'' ''Cumulative thermal violation time (microseconds); 0 if DCGM unavailable''
       (sample (\<lambda>s. fmt_u (unat (sn_thermal_violation_us s)))),
     family ''gpu_throttle_sw_power_cap'' ''gauge'' ''1 if software power cap throttle is active''
       (sample (\<lambda>s. fmt_b (sn_throttle_sw_power_cap s))),
     family ''gpu_throttle_hw_slowdown'' ''gauge'' ''1 if hardware thermal slowdown throttle is active''
       (sample (\<lambda>s. fmt_b (sn_throttle_hw_slowdown s))),
     family ''gpu_throttle_hw_power_brake'' ''gauge'' ''1 if hardware power brake throttle is active''
       (sample (\<lambda>s. fmt_b (sn_throttle_hw_power_brake s))),
     family ''gpu_throttle_sw_thermal'' ''gauge'' ''1 if software thermal throttle is active''
       (sample (\<lambda>s. fmt_b (sn_throttle_sw_thermal s))),
     family ''gpu_throttle_hw_thermal'' ''gauge'' ''1 if hardware thermal throttle is active''
       (sample (\<lambda>s. fmt_b (sn_throttle_hw_thermal s)))]"

definition metrics_memory :: "metric_family list" where
  "metrics_memory =
    [family ''gpu_memory_used_bytes'' ''gauge'' ''GPU memory currently in use (bytes)''
       (sample (\<lambda>s. fmt_u (unat (sn_mem_used_bytes s)))),
     family ''gpu_memory_free_bytes'' ''gauge'' ''GPU memory free (bytes)''
       (sample (\<lambda>s. fmt_u (unat (sn_mem_free_bytes s)))),
     family ''gpu_memory_total_bytes'' ''gauge'' ''Total GPU memory capacity (bytes)''
       (sample (\<lambda>s. fmt_u (unat (sn_mem_total_bytes s)))),
     family ''gpu_memory_bandwidth_utilization_ratio'' ''gauge'' ''Memory bandwidth utilization (0.0-1.0); NaN if DCGM unavailable''
       bw_line,
     family ''gpu_ecc_sbe_volatile_total'' ''counter'' ''ECC single-bit errors (volatile counter; resets on driver reload)''
       (sample (\<lambda>s. fmt_u (unat (sn_ecc_sbe_volatile s)))),
     family ''gpu_ecc_dbe_volatile_total'' ''counter'' ''ECC double-bit errors (volatile counter; resets on driver reload)''
       (sample (\<lambda>s. fmt_u (unat (sn_ecc_dbe_volatile s)))),
     family ''gpu_ecc_sbe_aggregate_total'' ''counter'' ''ECC single-bit errors (aggregate lifetime counter; does not reset on driver reload)''
       (sample (\<lambda>s. fmt_u (unat (sn_ecc_sbe_aggregate s)))),
     family ''gpu_ecc_dbe_aggregate_total'' ''counter'' ''ECC double-bit errors (aggregate lifetime counter; does not reset on driver reload)''
       (sample (\<lambda>s. fmt_u (unat (sn_ecc_dbe_aggregate s)))),
     family ''gpu_retired_pages_sbe'' ''gauge'' ''GPU memory pages retired due to single-bit errors''
       (sample (\<lambda>s. fmt_d (sint (sn_retired_pages_sbe s)))),
     family ''gpu_retired_pages_dbe'' ''gauge'' ''GPU memory pages retired due to double-bit errors''
       (sample (\<lambda>s. fmt_d (sint (sn_retired_pages_dbe s)))),
     family ''gpu_row_remap_failures'' ''gauge'' ''Count of row remapping failures; any non-zero value indicates irreversible damage''
       (sample (\<lambda>s. fmt_d (sint (sn_row_remap_failures s)))),
     family ''gpu_pending_row_remap'' ''gauge'' ''1 if a row remapping operation is pending (requires reboot to take effect)''
       (sample (\<lambda>s. fmt_d (sn_pending_row_remap s)))]"

definition metrics_interconnect :: "metric_family list" where
  "metrics_interconnect =
    [family ''gpu_pcie_link_gen'' ''gauge'' ''Current PCIe link generation''
       (sample (\<lambda>s. fmt_d (sn_pcie_link_gen s))),
     family ''gpu_pcie_link_width'' ''gauge'' ''Current PCIe link width (number of lanes)''
       (sample (\<lambda>s. fmt_d (sn_pcie_link_width s))),
     family ''gpu_pcie_replay_total'' ''counter'' ''PCIe replay counter (total)''
       (sample (\<lambda>s. fmt_u (unat (sn_pcie_replay_count s)))),
     family ''gpu_nvlink_replay_total'' ''counter'' ''NVLink replay error counter (total)''
       (sample (\<lambda>s. fmt_u (unat (sn_nvlink_replay_count s)))),
     family ''gpu_nvlink_recovery_total'' ''counter'' ''NVLink recovery error counter (total)''
       (sample (\<lambda>s. fmt_u (unat (sn_nvlink_recovery_count s)))),
     family ''gpu_nvlink_crc_total'' ''counter'' ''NVLink CRC flit error counter (total)''
       (sample (\<lambda>s. fmt_u (unat (sn_nvlink_crc_count s)))),
     family ''gpu_xid_errors_total'' ''counter'' ''XID error counter (total)''
       (sample (\<lambda>s. fmt_u (unat (sn_xid_count s)))),
     family ''gpu_xid_last_code'' ''gauge'' ''Last XID error code observed (0 if none)''
       (sample (\<lambda>s. fmt_d (sint (sn_xid_last_code s))))]"

definition metrics_compute :: "metric_family list" where
  "metrics_compute =
    [family ''gpu_sm_clock_mhz'' ''gauge'' ''Current SM (shader) clock frequency (MHz)''
       (sample (\<lambda>s. fmt_f 1 (sn_sm_clock_mhz s))),
     family ''gpu_mem_clock_mhz'' ''gauge'' ''Current memory clock frequency (MHz)''
       (sample (\<lambda>s. fmt_f 1 (sn_mem_clock_mhz s))),
     family ''gpu_utilization_gpu_ratio'' ''gauge'' ''GPU compute utilization (0.0-1.0)''
       (sample (\<lambda>s. fmt_f 4 (ddiv (of_c_int (sn_util_gpu_pct s)) (Fin 100)))),
     family ''gpu_utilization_memory_ratio'' ''gauge'' ''GPU memory controller utilization (0.0-1.0)''
       (sample (\<lambda>s. fmt_f 4 (ddiv (of_c_int (sn_util_mem_pct s)) (Fin 100)))),
     family ''gpu_pstate'' ''gauge'' ''Current GPU performance state (0=P0=maximum performance, 15=minimum)''
       (sample (\<lambda>s. fmt_d (sn_pstate s)))]"

definition metrics_baseline :: "metric_family list" where
  "metrics_baseline =
    [family ''gpu_baseline_available'' ''gauge'' ''1 if a baseline file is present and parseable''
       (sample (\<lambda>s. fmt_b (sn_baseline_available s))),
     family ''gpu_baseline_valid'' ''gauge'' ''1 if the baseline passed all validation checks''
       (sample (\<lambda>s. fmt_b (sn_baseline_valid s))),
     family ''gpu_baseline_serial_mismatch'' ''gauge'' ''1 if the baseline file serial does not match the device serial (hard fault)''
       (sample (\<lambda>s. fmt_b (sn_baseline_serial_mismatch s))),
     family ''gpu_baseline_driver_mismatch'' ''gauge'' ''1 if the driver version changed since the baseline was established (soft warning)''
       (sample (\<lambda>s. fmt_b (sn_baseline_driver_mismatch s))),
     family ''gpu_baseline_age_seconds'' ''gauge'' ''Seconds since the baseline was established (0 if baseline unavailable)''
       (sample (\<lambda>s. fmt_u (unat (sn_baseline_age_s s)))),
     family ''gpu_probe_available'' ''gauge'' ''1 if a probe result file is present and parseable''
       (sample (\<lambda>s. fmt_b (sn_probe_available s))),
     family ''gpu_probe_result_stale'' ''gauge'' ''1 if the probe result is older than the configured TTL''
       (sample (\<lambda>s. fmt_b (sn_probe_stale s))),
     family ''gpu_perf_drop_ratio'' ''gauge'' ''Performance/Watt drop relative to baseline (0.0=no drop); NaN if baseline or probe unavailable''
       (sample (\<lambda>s. fmt_nan (sn_perf_drop_frac s)))]"

definition metrics_exporter :: "metric_family list" where
  "metrics_exporter =
    [family ''gpu_dcgm_available'' ''gauge'' ''1 if DCGM is connected and responding''
       (sample (\<lambda>s. fmt_d (sn_dcgm_available s))),
     family ''gpu_health_last_poll_timestamp'' ''gauge'' ''Unix timestamp (seconds) of the last successful poll cycle for this GPU''
       (sample (\<lambda>s. fmt_f 3 (ddiv (of_c_int (uint (sn_last_poll_ms s))) (Fin 1000)))),
     family ''gpu_present'' ''gauge'' ''1 if the GPU device is still visible; 0 if it disappeared mid-run''
       (sample (\<lambda>s. fmt_b (sn_gpu_present s))),
     family ''gpu_available'' ''gauge'' ''1 if NVML is responding for this GPU; 0 if above error threshold''
       (sample (\<lambda>s. fmt_b (sn_gpu_available s))),
     family ''gpu_health_collector_errors_total'' ''counter'' ''Cumulative NVML call errors for this GPU''
       (sample (\<lambda>s. fmt_u (unat (sn_collector_errors_total s))))]"

definition metric_families :: "metric_family list" where
  "metric_families =
     metrics_identity @ metrics_score @ metrics_window @ metrics_thermal @ metrics_power @ metrics_memory @
     metrics_interconnect @ metrics_compute @ metrics_baseline @ metrics_exporter"

definition metrics_global :: "string list" where
  "metrics_global =
     [m_header ''gpu_health_exporter_info'' ''gauge'' ''GPU health exporter build information'',
      ''gpu_health_exporter_info{version='' @ [CHR 0x22] @ ''0.1.0'' @ [CHR 0x22] @ ''} 1'' @ [nl]]"

definition family_lines :: "http_slot_t list \<Rightarrow> metric_family \<Rightarrow> string list" where
  "family_lines slots f =
     List.map_filter (\<lambda>sl. if received sl then fam_line f (fam_name f) (snap sl) else None) slots"

definition family_chunks :: "http_slot_t list \<Rightarrow> metric_family \<Rightarrow> string list" where
  "family_chunks slots f = m_header (fam_name f) (fam_type f) (fam_help f) # family_lines slots f"

definition metrics_chunks :: "http_slot_t list \<Rightarrow> string list" where
  "metrics_chunks slots = metrics_global @ concat (map (family_chunks slots) metric_families)"

definition render_metrics :: "bool \<Rightarrow> nat \<Rightarrow> http_slot_t list \<Rightarrow> string" where
  "render_metrics malloc_ok cap g_slots =
     (case copy_slots malloc_ok g_slots of
        None \<Rightarrow> bprintf cap (''# ERROR: allocation failed'' @ [nl]) []
      | Some slots \<Rightarrow> fold (bprintf cap) (metrics_chunks slots) [])"

section \<open>What the buffer holds\<close>

lemma bprintf_take: "length buf \<le> cap - 1 \<Longrightarrow> bprintf cap text buf = take (cap - 1) (buf @ text)"
  by (auto simp: bprintf_def Let_def min_def)

lemma fold_bprintf:
  "length buf \<le> cap - 1 \<Longrightarrow> fold (bprintf cap) ts buf = take (cap - 1) (buf @ concat ts)"
proof (induction ts arbitrary: buf)
  case (Cons t ts)
  let ?b = "take (cap - 1) (buf @ t)"
  have "fold (bprintf cap) (t # ts) buf = take (cap - 1) (?b @ concat ts)"
    using Cons.IH [of ?b] by (simp add: bprintf_take [OF Cons.prems])
  also have "\<dots> = take (cap - 1) (buf @ t @ concat ts)"
    using Cons.prems by (auto simp: min_def)
  finally show ?case by simp
qed simp

lemma render_metrics_text: "render_metrics True cap slots = take (cap - 1) (concat (metrics_chunks slots))"
  by (simp add: render_metrics_def copy_slots_def fold_bprintf)

lemma render_metrics_bound: "length (render_metrics ok cap slots) \<le> cap - 1"
  by (cases ok) (simp_all add: render_metrics_def copy_slots_def bprintf_take fold_bprintf)

text \<open>C29. The page is the concatenation of its chunks as far as the buffer goes: \<open>render_metrics\<close> returns
  the first \<open>cap - 1\<close> characters of the complete text, so it never writes past the buffer with its
  terminating NUL, and the page is complete exactly when the text is shorter than the buffer.\<close>

theorem render_metrics_is_prefix:
  "render_metrics True cap slots = take (cap - 1) (concat (metrics_chunks slots)) \<and>
   length (render_metrics ok cap slots) \<le> cap - 1 \<and>
   (render_metrics True cap slots = concat (metrics_chunks slots) \<longleftrightarrow> length (concat (metrics_chunks slots)) \<le> cap - 1)"
  using render_metrics_bound take_all_iff by (auto simp: render_metrics_text)


section \<open>The conversions\<close>

lemma digits_val_append: "digits_val (a @ b) = digits_val a * 10 ^ length b + digits_val b"
  by (induction b rule: rev_induct) (simp_all add: digits_val_def algebra_simps)

lemma digits_val_zeros [simp]: "digits_val (replicate k CHR ''0'') = 0"
  by (induction k) (simp_all add: digits_val_def digit_val_def ccode_def)

lemma pad_left_fmt_u:
  assumes "n < 10 ^ p" "0 < p"
  shows "digits_val (pad_left p (fmt_u n)) = int n \<and> length (pad_left p (fmt_u n)) = p \<and>
    (\<forall>c\<in>set (pad_left p (fmt_u n)). isdigit c)"
  using length_fmt_u [OF assms] fmt_u_digits [of n]
  by (auto simp: pad_left_def digits_val_append digits_val_fmt_u isdigit_def ccode_def)

lemma not_digit: "\<not> isdigit CHR ''.''" "\<not> isdigit nl"
  by (simp_all add: isdigit_def ccode_def)

lemma split_fraction_point:
  assumes "\<forall>c\<in>set ip. isdigit c" "\<forall>c\<in>set fp. isdigit c"
  shows "split_fraction isdigit (ip @ CHR ''.'' # fp) = (ip, fp, [])" "split_fraction isdigit ip = (ip, [], [])"
  using assms not_digit
  by (simp_all add: split_fraction_def Let_def takeWhile_append dropWhile_append takeWhile_eq_all_conv [THEN iffD2]
      dropWhile_eq_Nil_conv [THEN iffD2])

definition rounded :: "nat \<Rightarrow> rat \<Rightarrow> rat" where
  "rounded p q = of_int (round_half_even (q * 10 ^ p)) / 10 ^ p"

lemma rounded_near: "\<bar>rounded p q - q\<bar> \<le> 1 / (2 * 10 ^ p)"
proof -
  have "\<bar>rounded p q - q\<bar> = \<bar>of_int (round_half_even (q * 10 ^ p)) - q * 10 ^ p\<bar> / 10 ^ p"
    by (simp add: rounded_def divide_diff_eq_iff abs_divide)
  also have "\<dots> \<le> (1/2) / 10 ^ p" using round_half_even_near [of "q * 10 ^ p"] by (intro divide_right_mono) auto
  finally show ?thesis by simp
qed

lemma fixed_reads_back:
  assumes "0 \<le> q"
  shows "strtod_decimal (fixed p q) = Some (rounded p q, []) \<and> (\<forall>c\<in>set (fixed p q). isdigit c \<or> c = CHR ''.'') \<and>
    fixed p q \<noteq> [] \<and> isdigit (hd (fixed p q))"
proof -
  let ?r = "round_half_even (q * 10 ^ p)"
  define n where "n = nat ?r"
  have "round_half_even 0 \<le> ?r" using assms by (intro round_half_even_mono) simp
  then have n: "int n = ?r" by (simp add: n_def round_half_even_def)
  have exp: "strtod_exp CHR ''e'' [] = (0, [])" by (simp add: strtod_exp_def)
  let ?ip = "fmt_u (n div 10 ^ p)" and ?fp = "pad_left p (fmt_u (n mod 10 ^ p))"
  note ip = fmt_u_digits [of "n div 10 ^ p"]
  have hd: "isdigit (hd ?ip)" using ip fmt_u_nonempty list.set_sel(1) by blast
  show ?thesis
  proof (cases "p = 0")
    case True
    then have "fixed p q = ?ip" "rounded p q = of_int ?r" by (simp_all add: fixed_def rounded_def n_def Let_def)
    then show ?thesis using True ip hd n
      by (simp add: strtod_decimal_def split_fraction_point(2) exp digits_val_fmt_u)
  next
    case False
    note fp = pad_left_fmt_u [of "n mod 10 ^ p" p, OF _ False [unfolded neq0_conv]]
    have txt_eq: "fixed p q = ?ip @ CHR ''.'' # ?fp" using False by (simp add: fixed_def n_def Let_def)
    have "digits_val (?ip @ ?fp) = int (n div 10 ^ p) * 10 ^ p + int (n mod 10 ^ p)"
      using fp by (simp add: digits_val_append digits_val_fmt_u)
    also have "\<dots> = int (n div 10 ^ p * 10 ^ p + n mod 10 ^ p)" by simp
    also have "\<dots> = ?r" by (simp only: div_mult_mod_eq n)
    finally have v: "digits_val (?ip @ ?fp) = ?r" .
    show ?thesis using ip fp hd v unfolding txt_eq
      by (auto simp: strtod_decimal_def split_fraction_point exp rounded_def power_int_minus divide_inverse)
  qed
qed

lemma starts_nocase_no: "c \<in> set p \<Longrightarrow> c \<notin> tolower ` set s \<Longrightarrow> \<not> starts_nocase p s"
  by (metis (no_types, lifting) image_set in_set_takeD set_map starts_nocase_def take_map)

lemma tolower_number: "isdigit c \<or> c = CHR ''.'' \<Longrightarrow> tolower c = c"
  by (auto simp: tolower_def isdigit_def ccode_def)

lemma number_no_words:
  assumes "\<forall>c\<in>set s. isdigit c \<or> c = CHR ''.''"
  shows "\<not> starts_nocase ''infinity'' s \<and> \<not> starts_nocase ''inf'' s \<and> \<not> starts_nocase ''nan'' s \<and> \<not> starts_nocase ''0x'' s"
proof -
  have "tolower ` set s \<subseteq> {c. isdigit c \<or> c = CHR ''.''}" using assms by (auto simp: tolower_number)
  moreover have "\<not> (isdigit c \<or> c = CHR ''.'')" if "c \<in> {CHR ''i'', CHR ''n'', CHR ''x''}" for c
    using that by (auto simp: isdigit_def ccode_def)
  ultimately have "CHR ''i'' \<notin> tolower ` set s" "CHR ''n'' \<notin> tolower ` set s" "CHR ''x'' \<notin> tolower ` set s" by blast+
  then show ?thesis
    using starts_nocase_no [of "CHR ''n''" _ s] starts_nocase_no [of "CHR ''x''" _ s] by auto
qed

text \<open>A number printed with \<open>%.pf\<close> is read back completely by \<open>strtod\<close>, as the double nearest to a
  value that is at most half a unit of the last printed decimal away from the printed number.\<close>

theorem fmt_f_reads_back:
  "strtod (fmt_f p (Fin q)) = (fst (strtod_round (rounded p q)), Some [], snd (strtod_round (rounded p q))) \<and>
   \<bar>rounded p q - q\<bar> \<le> 1 / (2 * 10 ^ p)"
proof -
  let ?a = "if q < 0 then - q else q"
  have a: "0 \<le> ?a" by simp
  note fx = fixed_reads_back [OF a, of p]
  obtain c cs where c: "fixed p ?a = c # cs" "isdigit c" using fx by (cases "fixed p ?a") auto
  have sgn: "take_sign (dropWhile isspace (fmt_f p (Fin q))) = (q < 0, fixed p ?a)"
    using c digit_not_space [of c] digit_not_sign [of c]
    by (cases "q < 0") (simp_all add: fmt_f_def sign_not_space)
  have "(if q < 0 then - rounded p ?a else rounded p ?a) = rounded p q"
    using round_half_even_minus [of "q * 10 ^ p"] by (simp add: rounded_def)
  then show ?thesis using number_no_words [of "fixed p ?a"] fx rounded_near [of p q]
    by (simp add: strtod_def sgn Let_def split: prod.splits)
qed

section \<open>The lines of the page\<close>

lemma fmt_u_clean [simp]: "nl \<notin> set (fmt_u n)"
  using fmt_u_digits not_digit(2) by blast

lemma fmt_d_clean [simp]: "nl \<notin> set (fmt_d n)"
  by (simp add: fmt_d_def)

lemma fmt_b_clean [simp]: "nl \<notin> set (fmt_b b)"
  by (simp add: fmt_b_def)

lemma pad_left_clean [simp]: "nl \<notin> set (pad_left p (fmt_u n))"
  by (simp add: pad_left_def)

lemma fmt_f_clean [simp]: "nl \<notin> set (fmt_f p d)"
  by (cases d) (simp_all add: fmt_f_def fixed_def Let_def)

lemma with_point_clean: "nl \<notin> set ip \<Longrightarrow> nl \<notin> set fp \<Longrightarrow> nl \<notin> set (with_point ip fp)"
  by (auto simp: with_point_def strip_zeros_def Let_def dest: set_dropWhileD)

lemma general6_clean [simp]: "nl \<notin> set (general6 q)"
proof -
  have "nl \<notin> set (take k (fmt_u m))" "nl \<notin> set (drop k (fmt_u m))" for k m
    using fmt_u_clean in_set_takeD in_set_dropD by fast+
  then show ?thesis by (simp add: general6_def Let_def with_point_clean split: prod.split)
qed

lemma fmt_nan_clean [simp]: "nl \<notin> set (fmt_nan d)"
  by (cases d) (simp_all add: fmt_nan_def fmt_g6_def)

text \<open>The label values of a snapshot have no newline.\<close>

definition clean_labels :: "gpu_snapshot_t \<Rightarrow> bool" where
  "clean_labels s \<longleftrightarrow> list_all (\<lambda>t. nl \<notin> set t) [sn_serial s, sn_uuid s, sn_gpu_model s, sn_driver_version s]"

text \<open>A line function yields one line, which starts with the name and the serial label.\<close>

definition line_ok :: "(string \<Rightarrow> gpu_snapshot_t \<Rightarrow> string option) \<Rightarrow> bool" where
  "line_ok line \<longleftrightarrow> (\<forall>name s l. clean_labels s \<longrightarrow> line name s = Some l \<longrightarrow>
     (\<exists>rest. l = label_open name s @ rest @ [nl] \<and> nl \<notin> set rest))"

lemma sample_ok: "(\<And>s. nl \<notin> set (val s)) \<Longrightarrow> line_ok (sample val)"
  by (auto simp: line_ok_def sample_def)

lemma info_line_ok: "line_ok info_line"
  by (auto simp: line_ok_def info_line_def label_def clean_labels_def)

lemma fan_line_ok: "line_ok fan_line"
  using sample_ok [of "\<lambda>s. fmt_f 4 (ddiv (of_c_int (sn_fan_speed_pct s)) (Fin 100))"]
  by (auto simp: line_ok_def fan_line_def)

lemma bw_line_ok: "line_ok bw_line"
  unfolding bw_line_def by (rule sample_ok) simp

lemmas metric_groups =
  metrics_identity_def metrics_score_def metrics_window_def metrics_thermal_def metrics_power_def metrics_memory_def
  metrics_interconnect_def metrics_compute_def metrics_baseline_def metrics_exporter_def

lemma families_line_ok: "list_all (\<lambda>f. line_ok (fam_line f)) metric_families"
  by (simp add: metric_families_def metric_groups sample_ok info_line_ok fan_line_ok bw_line_ok)

lemma families_clean: "list_all (\<lambda>f. nl \<notin> set (fam_name f)) metric_families"
  by (simp add: metric_families_def metric_groups)

lemma families_total:
  "list_all (\<lambda>f. fam_line f (fam_name f) s = None \<longleftrightarrow> fam_name f = ''gpu_fan_speed_ratio'' \<and> sn_fan_speed_pct s < 0)
     metric_families"
  by (simp add: metric_families_def metric_groups sample_def info_line_def fan_line_def bw_line_def)

lemma families_distinct: "distinct (map fam_name metric_families)"
  by (simp add: metric_families_def metric_groups)

lemma families_ignore_mask:
  "list_all (\<lambda>f. \<forall>s. fam_line f (fam_name f) (s\<lparr>sn_reason_mask := m\<rparr>) = fam_line f (fam_name f) s) metric_families"
  by (simp add: metric_families_def metric_groups sample_def label_open_def info_line_def fan_line_def bw_line_def)

definition score_family :: metric_family where
  "score_family = metrics_score ! 0"

lemma score_family_mem: "score_family \<in> set metric_families"
  by (simp add: score_family_def metric_families_def metrics_score_def)

text \<open>The reasons of a penalty never reach the page: changing the reason masks of the snapshots does
  not change a character of it.\<close>

theorem metrics_ignore_reason_mask:
  "metrics_chunks (map (\<lambda>sl. sl\<lparr>snap := (snap sl)\<lparr>sn_reason_mask := mask_of sl\<rparr>\<rparr>) slots) = metrics_chunks slots"
proof -
  have "family_lines (map (\<lambda>sl. sl\<lparr>snap := (snap sl)\<lparr>sn_reason_mask := mask_of sl\<rparr>\<rparr>) slots) f = family_lines slots f"
    if "f \<in> set metric_families" for f
  proof -
    have "fam_line f (fam_name f) (s\<lparr>sn_reason_mask := m\<rparr>) = fam_line f (fam_name f) s" for s m
      using families_ignore_mask [of m] that by (simp add: list_all_iff)
    then show ?thesis by (induction slots) (simp_all add: family_lines_def List.map_filter_def)
  qed
  then show ?thesis by (simp add: metrics_chunks_def family_chunks_def cong: map_cong)
qed

end
