(* ===== verification/Http.thy ===== *)
theory Http
  imports Metrics
begin

text \<open>
  The HTTP child process, \<^verbatim>\<open>src/http.c\<close>: the receiver thread that fills the slots, the staleness
  check, reading a request, answering it, the accept loop, and the start of the child. Socket calls
  are arguments, as lists of their successive results, so that every split of the data into short
  reads and writes is covered. The TLS library is not part of the program: its calls are arguments
  too. Serving a request reads the shared state under the lock and changes nothing of it.
\<close>

section \<open>State\<close>

record http_state =
  g_slots :: "http_slot_t list"
  g_num_gpus :: int
  g_all_ready :: bool
  g_running :: bool
  g_stale_ms :: int

definition handle_sigterm :: "http_state \<Rightarrow> http_state" where
  "handle_sigterm st = st\<lparr>g_running := False\<rparr>"

section \<open>The receiver thread\<close>

definition store_msg :: "gpu_ipc_msg_t \<Rightarrow> http_state \<Rightarrow> http_state" where
  "store_msg msg st =
     (let i = nat (msg_gpu_index msg);
          slots = (g_slots st)[i := \<lparr>snap = msg_snapshot msg, received = True\<rparr>]
      in st\<lparr>g_slots := slots,
            g_all_ready := g_all_ready st \<or> list_all received (take (nat (g_num_gpus st)) slots)\<rparr>)"

text \<open>One pass of the loop; \<open>None\<close> is the result \<open>-1\<close> of \<open>snapshot_recv\<close>.\<close>

definition receiver_pass :: "gpu_ipc_msg_t option \<Rightarrow> http_state \<Rightarrow> http_state" where
  "receiver_pass r st =
     (case r of
        None \<Rightarrow> st\<lparr>g_running := False\<rparr>
      | Some msg \<Rightarrow>
          if msg_gpu_index msg < 0 \<or> msg_gpu_index msg \<ge> g_num_gpus st then st else store_msg msg st)"

fun ipc_receiver_thread :: "gpu_ipc_msg_t option list \<Rightarrow> http_state \<Rightarrow> http_state" where
  "ipc_receiver_thread [] st = st"
| "ipc_receiver_thread (r # rs) st =
     (if g_running st then ipc_receiver_thread rs (receiver_pass r st) else st)"

section \<open>The staleness check\<close>

fun check_liveness :: "u64 \<Rightarrow> int \<Rightarrow> http_slot_t list \<Rightarrow> bool" where
  "check_liveness now_ms stale_ms [] = True"
| "check_liveness now_ms stale_ms (sl # sls) =
     (if \<not> received sl then check_liveness now_ms stale_ms sls
      else let age = now_ms - sn_last_poll_ms (snap sl)
           in if age > word_of_int stale_ms then False else check_liveness now_ms stale_ms sls)"

section \<open>Connections\<close>

record conn_t =
  conn_fd :: int
  tls_active :: bool

text \<open>The results of the library's read and write calls.\<close>

datatype 'a tls_result = TlsWant | TlsOk 'a | TlsFail

fun conn_read_tls :: "'a tls_result list \<Rightarrow> 'a tls_result list" where
  "conn_read_tls (TlsWant # rs) = conn_read_tls rs"
| "conn_read_tls rs = rs"

text \<open>The TLS branch of \<open>conn_write\<close>: what was sent, and \<open>Some\<close> of the sign of the result.\<close>

fun conn_write_tls :: "string \<Rightarrow> nat tls_result list \<Rightarrow> string \<times> bool option" where
  "conn_write_tls [] rs = ([], Some True)"
| "conn_write_tls (b # bs) [] = ([], None)"
| "conn_write_tls (b # bs) (TlsWant # rs) = conn_write_tls (b # bs) rs"
| "conn_write_tls (b # bs) (TlsFail # rs) = ([], Some False)"
| "conn_write_tls (b # bs) (TlsOk n # rs) =
     (let (out, ok) = conn_write_tls (drop n (b # bs)) rs in (take n (b # bs) @ out, ok))"

datatype close_event = EvCloseNotify | EvSslFree | EvNetFree int | EvClose int

definition conn_close :: "conn_t \<Rightarrow> close_event list \<times> conn_t" where
  "conn_close c =
     (if tls_active c then ([EvCloseNotify, EvSslFree, EvNetFree (conn_fd c)], c\<lparr>tls_active := False, conn_fd := - 1\<rparr>)
      else if conn_fd c \<ge> 0 then ([EvClose (conn_fd c)], c\<lparr>conn_fd := - 1\<rparr>)
      else ([], c))"

section \<open>Writing a response\<close>

text \<open>The write loop: what reaches the client, the return value, and the results not yet used. A
  result of 0 bytes counts as an error here.\<close>

fun conn_write_all :: "string \<Rightarrow> io_result list \<Rightarrow> string \<times> int option \<times> io_result list" where
  "conn_write_all [] rs = ([], Some 0, rs)"
| "conn_write_all (b # bs) [] = ([], None, [])"
| "conn_write_all (b # bs) (IoBytes n # rs) =
     (if n = 0 then ([], Some (- 1), rs)
      else let (out, ret, rest) = conn_write_all (drop n (b # bs)) rs in (take n (b # bs) @ out, ret, rest))"
| "conn_write_all (b # bs) (IoIntr # rs) = conn_write_all (b # bs) rs"
| "conn_write_all (b # bs) (IoErr # rs) = ([], Some (- 1), rs)"

definition status_text :: "int \<Rightarrow> string" where
  "status_text status =
     (if status = 200 then ''OK''
      else if status = 404 then ''Not Found''
      else if status = 405 then ''Method Not Allowed''
      else if status = 500 then ''Internal Server Error''
      else if status = 503 then ''Service Unavailable''
      else ''Unknown'')"

abbreviation crlf :: string where
  "crlf \<equiv> [CHR 0x0D, CHR 0x0A]"

definition header_text :: "int \<Rightarrow> string \<Rightarrow> nat \<Rightarrow> string" where
  "header_text status content_type body_len =
     ''HTTP/1.1 '' @ fmt_d status @ '' '' @ status_text status @ crlf @
     ''Content-Type: '' @ content_type @ crlf @
     ''Content-Length: '' @ fmt_u body_len @ crlf @
     ''Connection: close'' @ crlf @ crlf"

record response =
  rsp_status :: int
  rsp_body :: string
  rsp_type :: string

definition write_response :: "response \<Rightarrow> io_result list \<Rightarrow> string \<times> int option" where
  "write_response r rs =
     (let h = header_text (rsp_status r) (rsp_type r) (length (rsp_body r))
      in if length h \<ge> 256 then ([], Some (- 1))
         else case conn_write_all h rs of (out, ret, rs1) \<Rightarrow>
           if ret \<noteq> Some 0 then (out, ret)
           else if length (rsp_body r) > 0
           then (case conn_write_all (rsp_body r) rs1 of (out2, ret2, rs2) \<Rightarrow> (out @ out2, ret2))
           else (out, Some 0))"

section \<open>Reading a request\<close>

datatype rd_result = RdData string | RdEof | RdIntr | RdErr

datatype 'a io_out = IoWait | IoFail | IoDone 'a

text \<open>The read loop with the buffer filled so far; at most \<open>cap - 1\<close> bytes are ever asked for.\<close>

fun read_chunks :: "nat \<Rightarrow> string \<Rightarrow> rd_result list \<Rightarrow> string io_out" where
  "read_chunks cap buf [] = (if length buf < cap - 1 then IoWait else IoDone buf)"
| "read_chunks cap buf (r # rs) =
     (if \<not> length buf < cap - 1 then IoDone buf
      else case r of
        RdEof \<Rightarrow> IoFail
      | RdErr \<Rightarrow> IoFail
      | RdIntr \<Rightarrow> read_chunks cap buf rs
      | RdData s \<Rightarrow>
          if s = [] then IoFail
          else let buf = buf @ take (cap - length buf - 1) s
               in if nl \<in> set buf then IoDone buf else read_chunks cap buf rs)"

text \<open>The method and the path of the first line. A NUL byte in it ends the C string.\<close>

definition parse_request :: "string \<Rightarrow> (string \<times> string) option" where
  "parse_request buf =
     (if nl \<notin> set buf then None
      else
        let line = takeWhile (\<lambda>c. c \<noteq> nl) buf;
            line = (if line \<noteq> [] \<and> last line = CHR 0x0D then butlast line else line);
            line = c_str line
        in if CHR '' '' \<notin> set line then None
           else Some (takeWhile (\<lambda>c. c \<noteq> CHR '' '') line,
                      takeWhile (\<lambda>c. c \<noteq> CHR '' '') (tl (dropWhile (\<lambda>c. c \<noteq> CHR '' '') line))))"

definition read_request_line :: "nat \<Rightarrow> rd_result list \<Rightarrow> (string \<times> string) io_out" where
  "read_request_line cap rs =
     (case read_chunks cap [] rs of
        IoWait \<Rightarrow> IoWait
      | IoFail \<Rightarrow> IoFail
      | IoDone buf \<Rightarrow> (case parse_request buf of None \<Rightarrow> IoFail | Some mp \<Rightarrow> IoDone mp))"

section \<open>Dispatch\<close>

definition METRICS_BUF_SIZE :: nat where "METRICS_BUF_SIZE = 256 * 1024"
definition REQ_BUF_SIZE :: nat where "REQ_BUF_SIZE = 4096"

definition plain :: "int \<Rightarrow> string \<Rightarrow> response" where
  "plain status body = \<lparr>rsp_status = status, rsp_body = body @ [nl], rsp_type = ''text/plain''\<rparr>"

text \<open>The flags say whether the page buffer and the copy of the slots can be allocated.\<close>

definition handle_request :: "bool \<Rightarrow> bool \<Rightarrow> u64 \<Rightarrow> http_state \<Rightarrow> string \<Rightarrow> string \<Rightarrow> response" where
  "handle_request buf_ok copy_ok now_ms st method path =
     (if method \<noteq> ''GET'' then plain 405 ''Method Not Allowed''
      else if path = ''/metrics'' then
        (if \<not> buf_ok then plain 500 ''Internal Server Error''
         else \<lparr>rsp_status = 200, rsp_body = render_metrics copy_ok METRICS_BUF_SIZE (g_slots st),
               rsp_type = ''text/plain; version=0.0.4; charset=utf-8''\<rparr>)
      else if path = ''/ready'' then
        (if g_all_ready st then plain 200 ''ready'' else plain 503 ''not ready'')
      else if path = ''/live'' then
        (if check_liveness now_ms (g_stale_ms st) (g_slots st) then plain 200 ''alive'' else plain 503 ''stale'')
      else plain 404 ''Not Found'')"

section \<open>TLS\<close>

record tls_lib =
  tl_seed :: int
  tl_cert :: int
  tl_key :: int
  tl_defaults :: int
  tl_own_cert :: int

text \<open>The return value and whether TLS is enabled afterwards.\<close>

definition http_child_tls_init :: "tls_lib \<Rightarrow> gpu_config_t \<Rightarrow> int \<times> bool" where
  "http_child_tls_init lib cfg =
     (if tls_cert_path cfg = [] then (0, False)
      else if tls_key_path cfg = [] then (- 1, False)
      else if tl_seed lib \<noteq> 0 then (- 1, False)
      else if tl_cert lib \<noteq> 0 then (- 1, False)
      else if tl_key lib \<noteq> 0 then (- 1, False)
      else if tl_defaults lib \<noteq> 0 then (- 1, False)
      else if tl_own_cert lib \<noteq> 0 then (- 1, False)
      else (0, True))"

text \<open>The handshake is repeated while it wants more input or output; \<open>None\<close> while it still runs.\<close>

fun tls_handshake :: "int tls_result list \<Rightarrow> int option" where
  "tls_handshake [] = None"
| "tls_handshake (TlsWant # rs) = tls_handshake rs"
| "tls_handshake (TlsOk r # rs) = Some 0"
| "tls_handshake (TlsFail # rs) = Some (- 1)"

definition tls_wrap_client :: "int \<Rightarrow> int tls_result list \<Rightarrow> conn_t \<Rightarrow> (conn_t \<times> int) option" where
  "tls_wrap_client setup_ret hs c =
     (if setup_ret \<noteq> 0 then Some (c, - 1)
      else case tls_handshake hs of
        None \<Rightarrow> None
      | Some r \<Rightarrow> if r \<noteq> 0 then Some (c, - 1) else Some (c\<lparr>tls_active := True\<rparr>, 0))"

section \<open>The accept loop\<close>

text \<open>What happens on one accepted connection. The reads and writes are the results of \<open>conn_read\<close> and
  \<open>conn_write\<close>, which for an encrypted connection are those of the loops above. \<open>ce_tls\<close> is \<open>None\<close> when
  TLS is off, and otherwise the result of the session setup and those of the handshake.\<close>

record conn_env =
  ce_fd :: int
  ce_tls :: "(int \<times> int tls_result list) option"
  ce_reads :: "rd_result list"
  ce_writes :: "io_result list"
  ce_buf_ok :: bool
  ce_copy_ok :: bool
  ce_now_ms :: u64
  ce_state :: http_state

text \<open>What the client got, and the calls that closed the connection; \<open>None\<close> while it still runs.\<close>

definition serve_connection :: "conn_env \<Rightarrow> string \<times> close_event list option" where
  "serve_connection ce =
     (let c = \<lparr>conn_fd = ce_fd ce, tls_active = False\<rparr>
      in case (case ce_tls ce of None \<Rightarrow> Some (c, 0) | Some (setup_ret, hs) \<Rightarrow> tls_wrap_client setup_ret hs c) of
           None \<Rightarrow> ([], None)
         | Some (c, ret) \<Rightarrow>
             if ret < 0 then ([], Some (fst (conn_close c)))
             else case read_request_line REQ_BUF_SIZE (ce_reads ce) of
               IoWait \<Rightarrow> ([], None)
             | IoFail \<Rightarrow> ([], Some (fst (conn_close c)))
             | IoDone (method, path) \<Rightarrow>
                 let r = handle_request (ce_buf_ok ce) (ce_copy_ok ce) (ce_now_ms ce) (ce_state ce) method path;
                     (out, ret) = write_response r (ce_writes ce)
                 in (out, map_option (\<lambda>_. fst (conn_close c)) ret))"

datatype accept_event = SelIntr | SelErr | SelTimeout | AcceptErr | Accepted conn_env

text \<open>Each entry is the value of \<open>g_running\<close> at the loop test and what the calls of that pass return.
  The result is what each connection got and whether the loop has ended.\<close>

fun http_accept_loop :: "(bool \<times> accept_event) list \<Rightarrow> (string \<times> close_event list) list \<times> bool" where
  "http_accept_loop [] = ([], False)"
| "http_accept_loop ((running, ev) # evs) =
     (if \<not> running then ([], True)
      else case ev of
        SelErr \<Rightarrow> ([], True)
      | Accepted ce \<Rightarrow>
          (case serve_connection ce of
             (out, None) \<Rightarrow> ([(out, [])], False)
           | (out, Some closes) \<Rightarrow>
               let (served, ended) = http_accept_loop evs in ((out, closes) # served, ended))
      | _ \<Rightarrow> http_accept_loop evs)"

section \<open>Start of the child\<close>

record listen_env =
  le_socket :: int
  le_aton_ok :: bool
  le_bind :: int
  le_listen :: int

text \<open>The listening descriptor or \<open>-1\<close>, and the descriptors closed.\<close>

definition bind_listen :: "listen_env \<Rightarrow> int \<times> int list" where
  "bind_listen e =
     (let fd = le_socket e
      in if fd < 0 then (- 1, [])
         else if \<not> le_aton_ok e then (- 1, [fd])
         else if le_bind e < 0 then (- 1, [fd])
         else if le_listen e < 0 then (- 1, [fd])
         else (fd, []))"

text \<open>Reading the init message: unlike \<open>snapshot_recv\<close>, an interrupted call is an error.\<close>

fun read_init :: "nat \<Rightarrow> io_result list \<Rightarrow> bool option" where
  "read_init 0 rs = Some True"
| "read_init (Suc r) [] = None"
| "read_init (Suc r) (IoBytes n # rs) = (if n = 0 then Some False else read_init (Suc r - n) rs)"
| "read_init (Suc r) (IoIntr # rs) = Some False"
| "read_init (Suc r) (IoErr # rs) = Some False"

definition stale_threshold :: "gpu_config_t \<Rightarrow> int" where
  "stale_threshold cfg = (let ms = poll_interval_s cfg * 3 * 1000 in if ms < 5000 then 5000 else ms)"

definition http_start :: "int \<Rightarrow> gpu_config_t \<Rightarrow> http_state" where
  "http_start num_gpus cfg =
     \<lparr>g_slots = replicate (nat num_gpus) \<lparr>snap = zero_snapshot, received = False\<rparr>, g_num_gpus = num_gpus,
      g_all_ready = False, g_running = True, g_stale_ms = stale_threshold cfg\<rparr>"

record child_env =
  ch_init_reads :: "io_result list"
  ch_num_gpus :: int
  ch_calloc_ok :: bool
  ch_malloc_ok :: bool
  ch_thread_ok :: bool
  ch_listen :: listen_env

datatype child_start = ChildWait | ChildExit int | ChildServe http_state int

text \<open>Up to the accept loop; the init message has four bytes.\<close>

definition http_child_run :: "child_env \<Rightarrow> gpu_config_t \<Rightarrow> child_start" where
  "http_child_run e cfg =
     (case read_init 4 (ch_init_reads e) of
        None \<Rightarrow> ChildWait
      | Some False \<Rightarrow> ChildExit 1
      | Some True \<Rightarrow>
          if ch_num_gpus e \<le> 0 \<or> ch_num_gpus e > 256 then ChildExit 1
          else if \<not> ch_calloc_ok e then ChildExit 1
          else if \<not> ch_malloc_ok e then ChildExit 1
          else if \<not> ch_thread_ok e then ChildExit 1
          else case bind_listen (ch_listen e) of (listen_fd, shut) \<Rightarrow>
            if listen_fd < 0 then ChildExit 1
            else ChildServe (http_start (ch_num_gpus e) cfg) listen_fd)"

text \<open>The state of the running child changes by a pass of the receiver and by the signal handler.\<close>

inductive child_step :: "http_state \<Rightarrow> http_state \<Rightarrow> bool" where
  receive: "g_running st \<Longrightarrow> child_step st (receiver_pass r st)"
| sigterm: "child_step st (handle_sigterm st)"

definition child_init :: "gpu_config_t \<Rightarrow> http_state \<Rightarrow> bool" where
  "child_init cfg st \<longleftrightarrow> (\<exists>n. 0 < n \<and> n \<le> 256 \<and> st = http_start n cfg)"

inductive_cases child_stepE: "child_step st u"

end
