(* ===== verification/HttpProps.thy ===== *)
theory HttpProps
  imports Http Config
begin

text \<open>
  Properties of the HTTP child: the slots hold the newest snapshot of each GPU, readiness means that
  every GPU has reported, the staleness check, requests cut into arbitrary chunks, complete
  responses, and the end of the accept loop.
\<close>

section \<open>The slots\<close>

text \<open>What a slot shows, and the newest message for an index.\<close>

definition slot_view :: "http_state \<Rightarrow> nat \<Rightarrow> gpu_snapshot_t option" where
  "slot_view st i = (if received (g_slots st ! i) then Some (snap (g_slots st ! i)) else None)"

definition newest_msg :: "nat \<Rightarrow> gpu_ipc_msg_t list \<Rightarrow> gpu_snapshot_t option" where
  "newest_msg i ms =
     (let xs = filter (\<lambda>m. msg_gpu_index m = int i) ms
      in if xs = [] then None else Some (msg_snapshot (last xs)))"

definition child_inv :: "http_state \<Rightarrow> bool" where
  "child_inv st \<longleftrightarrow> 0 < g_num_gpus st \<and> g_num_gpus st \<le> 256 \<and> int (length (g_slots st)) = g_num_gpus st \<and>
     (g_all_ready st \<longleftrightarrow> list_all received (g_slots st))"

lemma newest_msg_snoc:
  "newest_msg i (ms @ [m]) = (if msg_gpu_index m = int i then Some (msg_snapshot m) else newest_msg i ms)"
  by (simp add: newest_msg_def Let_def)

lemma receiver_pass_running: "g_running (receiver_pass (Some m) st) = g_running st"
  by (simp add: receiver_pass_def store_msg_def Let_def)

lemma receiver_snoc:
  "g_running st \<Longrightarrow> ipc_receiver_thread (map Some ms @ [Some m]) st =
     receiver_pass (Some m) (ipc_receiver_thread (map Some ms) st) \<and>
   g_running (ipc_receiver_thread (map Some ms) st)"
  by (induction ms arbitrary: st) (auto simp: receiver_pass_running)

lemma store_msg_inv:
  assumes "child_inv st" "0 \<le> msg_gpu_index m" "msg_gpu_index m < g_num_gpus st"
  shows "child_inv (store_msg m st)"
proof -
  let ?s = "(g_slots st)[nat (msg_gpu_index m) := \<lparr>snap = msg_snapshot m, received = True\<rparr>]"
  have "list_all received ?s" if "list_all received (g_slots st)"
    using that set_update_subset_insert [of "g_slots st"] by (fastforce simp: list_all_iff)
  moreover have "nat (g_num_gpus st) = length (g_slots st)" using assms(1) by (metis child_inv_def nat_int)
  ultimately show ?thesis using assms by (auto simp: child_inv_def store_msg_def Let_def)
qed

lemma receiver_pass_inv: "child_inv st \<Longrightarrow> child_inv (receiver_pass r st)"
  using store_msg_inv by (cases r) (auto simp: receiver_pass_def child_inv_def)

lemma http_start_inv: "0 < n \<Longrightarrow> n \<le> 256 \<Longrightarrow> child_inv (http_start n cfg)"
  by (auto simp: child_inv_def http_start_def list_all_iff)

interpretation child: invariant_system "child_init cfg" child_step child_inv for cfg
proof unfold_locales
  fix st assume "child_init cfg st"
  then show "child_inv st" using http_start_inv by (auto simp: child_init_def)
next
  fix st u assume "child_inv st" "child_step st u"
  from this(2,1) show "child_inv u"
    by (cases rule: child_step.cases) (auto simp: receiver_pass_inv, simp add: child_inv_def handle_sigterm_def)
qed

lemma receiver_pass_view:
  assumes "child_inv st" "int i < g_num_gpus st"
  shows "slot_view (receiver_pass (Some m) st) i =
    (if msg_gpu_index m = int i then Some (msg_snapshot m) else slot_view st i)"
proof (cases "msg_gpu_index m = int i")
  case True
  then show ?thesis using assms by (simp add: receiver_pass_def store_msg_def slot_view_def child_inv_def Let_def)
next
  case False
  then have "nat (msg_gpu_index m) \<noteq> i" if "\<not> msg_gpu_index m < 0" using that by auto
  then show ?thesis using False by (auto simp: receiver_pass_def store_msg_def slot_view_def Let_def)
qed

lemma receiver_keeps:
  "g_num_gpus (receiver_pass r st) = g_num_gpus st" "g_stale_ms (receiver_pass r st) = g_stale_ms st"
  by (simp_all add: receiver_pass_def store_msg_def Let_def split: option.splits)

lemma receiver_run_from:
  assumes "child_inv c" "g_running c" "st = ipc_receiver_thread (map Some ms) c"
  shows "child_inv st \<and> g_num_gpus st = g_num_gpus c \<and> g_running st \<and>
    (\<forall>i. int i < g_num_gpus c \<longrightarrow> slot_view st i = (case newest_msg i ms of None \<Rightarrow> slot_view c i | Some s \<Rightarrow> Some s))"
  using assms(3)
proof (induction ms arbitrary: st rule: rev_induct)
  case Nil
  then show ?case using assms(1,2) by (simp add: newest_msg_def)
next
  case (snoc m ms)
  let ?s = "ipc_receiver_thread (map Some ms) c"
  have st: "st = receiver_pass (Some m) ?s" using snoc.prems receiver_snoc [OF assms(2), of ms m] by simp
  note ih = snoc.IH [OF refl]
  show ?case using ih receiver_pass_view [of ?s] receiver_pass_inv [of ?s]
    by (auto simp: st receiver_keeps receiver_pass_running newest_msg_snoc)
qed

lemma http_start_view: "int i < n \<Longrightarrow> slot_view (http_start n cfg) i = None"
  by (simp add: slot_view_def http_start_def nth_replicate)

lemma receiver_run:
  assumes "0 < n" "n \<le> 256" "st = ipc_receiver_thread (map Some ms) (http_start n cfg)"
  shows "child_inv st \<and> g_num_gpus st = n \<and> g_running st \<and> (\<forall>i. int i < n \<longrightarrow> slot_view st i = newest_msg i ms)"
proof -
  have "g_num_gpus (http_start n cfg) = n" "g_running (http_start n cfg)" by (simp_all add: http_start_def)
  then show ?thesis using receiver_run_from [OF http_start_inv [OF assms(1,2)] _ assms(3)] http_start_view [of _ n cfg]
    by (auto split: option.splits)
qed

text \<open>C8. The slots are a map from GPU to its newest snapshot: after any sequence of messages, slot
  \<open>i\<close> holds the snapshot of the last message for GPU \<open>i\<close> and is unreported when there was none;
  messages with an index out of range change nothing, and the child counts as ready exactly when
  every GPU has reported.\<close>

theorem receiver_keeps_newest:
  assumes "0 < n" "n \<le> 256" "st = ipc_receiver_thread (map Some ms) (http_start n cfg)"
  shows "list_all (\<lambda>i. slot_view st i = newest_msg i ms) [0..<nat n] \<and>
    (g_all_ready st \<longleftrightarrow> list_all (\<lambda>i. newest_msg i ms \<noteq> None) [0..<nat n]) \<and> length (g_slots st) = nat n"
proof -
  note r = receiver_run [OF assms]
  have len: "length (g_slots st) = nat n" using r by (auto simp: child_inv_def)
  have view: "slot_view st i = newest_msg i ms" if "i < nat n" for i using r that by auto
  have "g_all_ready st \<longleftrightarrow> (\<forall>i<nat n. received (g_slots st ! i))"
    using r len by (auto simp: child_inv_def list_all_length)
  also have "\<dots> \<longleftrightarrow> (\<forall>i<nat n. newest_msg i ms \<noteq> None)"
    using view by (metis option.distinct(1) slot_view_def)
  finally show ?thesis using view len by (auto simp: list_all_iff)
qed

definition demo_msg :: "int \<Rightarrow> rat \<Rightarrow> gpu_ipc_msg_t" where
  "demo_msg i q = \<lparr>msg_gpu_index = i, msg_snapshot = zero_snapshot\<lparr>sn_score := Fin q\<rparr>\<rparr>"

theorem receiver_keeps_newest_witness:
  "\<not> g_all_ready (ipc_receiver_thread (map Some [demo_msg 0 7, demo_msg 5 1, demo_msg 0 9]) (http_start 2 cfg_defaults))"
  using receiver_keeps_newest [OF _ _ refl, of 2 "[demo_msg 0 7, demo_msg 5 1, demo_msg 0 9]" cfg_defaults]
  by (simp add: newest_msg_def demo_msg_def upt_rec numeral_2_eq_2)

text \<open>Readiness never lies: in every reachable state of the child the slot array has one entry per
  GPU, and the ready flag is set exactly when every slot has been filled.\<close>

theorem ready_iff_all_reported:
  assumes "reach (child_init cfg) child_step st"
  shows "int (length (g_slots st)) = g_num_gpus st \<and> 0 < g_num_gpus st \<and>
    (g_all_ready st \<longleftrightarrow> list_all received (g_slots st))"
  using child.reach_inv [OF assms] by (simp add: child_inv_def)

theorem ready_iff_all_reported_witness:
  "g_all_ready (receiver_pass (Some \<lparr>msg_gpu_index = 0, msg_snapshot = zero_snapshot\<rparr>) (http_start 1 cfg_defaults))"
proof -
  let ?m = "\<lparr>msg_gpu_index = 0, msg_snapshot = zero_snapshot\<rparr>"
  have "reach (child_init cfg_defaults) child_step (receiver_pass (Some ?m) (http_start 1 cfg_defaults))"
    by (rule reach_step [OF reach_init]) (auto simp: child_init_def http_start_def intro!: child_step.receive)
  from ready_iff_all_reported [OF this] show ?thesis
    by (simp add: receiver_pass_def store_msg_def http_start_def Let_def)
qed

section \<open>Staleness\<close>

lemma unat_of_stale: "0 \<le> (k :: int) \<Longrightarrow> k < 2 ^ 64 \<Longrightarrow> unat (word_of_int k :: u64) = nat k"
  by (simp add: unat_eq_nat_uint uint_word_of_int)

lemma age_no_wrap:
  assumes "stamp \<le> (now :: u64)" "0 \<le> stale" "stale < 2 ^ 64"
  shows "word_of_int stale < now - stamp \<longleftrightarrow> nat stale < unat now - unat stamp"
  using assms by (simp add: word_less_nat_alt unat_sub unat_of_stale)

text \<open>The staleness check is exact when no snapshot is newer than the clock reading: the child is
  alive exactly when every GPU that has reported was polled within the threshold.\<close>

theorem liveness_exact:
  assumes "list_all (\<lambda>sl. received sl \<longrightarrow> sn_last_poll_ms (snap sl) \<le> now) slots" "0 \<le> stale" "stale < 2 ^ 64"
  shows "check_liveness now stale slots \<longleftrightarrow>
    list_all (\<lambda>sl. received sl \<longrightarrow> unat now - unat (sn_last_poll_ms (snap sl)) \<le> nat stale) slots"
  using assms(1)
proof (induction slots)
  case (Cons sl slots)
  then show ?case using age_no_wrap [OF _ assms(2,3), of "sn_last_poll_ms (snap sl)" now] by (auto simp: Let_def)
qed simp

theorem liveness_exact_witness:
  "check_liveness 9000 5000 [\<lparr>snap = zero_snapshot\<lparr>sn_last_poll_ms := 4000\<rparr>, received = True\<rparr>]"
  using liveness_exact [of 9000 "[\<lparr>snap = zero_snapshot\<lparr>sn_last_poll_ms := 4000\<rparr>, received = True\<rparr>]" 5000] by simp

lemma check_liveness_member:
  "sl \<in> set slots \<Longrightarrow> received sl \<Longrightarrow> word_of_int stale < now - sn_last_poll_ms (snap sl) \<Longrightarrow> \<not> check_liveness now stale slots"
  by (induction slots) (auto simp: Let_def)

lemma age_wraps:
  assumes "(now :: u64) < stamp" "unat stamp - unat now < 2 ^ 62" "0 \<le> stale" "stale < 2 ^ 62"
  shows "word_of_int stale < now - stamp"
proof -
  have "unat (now - stamp) = 2 ^ 64 - (unat stamp - unat now)"
    using assms(1) unsigned_less [where 'a = nat, of stamp] by (simp add: unat_sub_if' word_less_nat_alt)
  then have "2 ^ 62 < unat (now - stamp)" using assms(2) by simp
  moreover have "nat stale < 2 ^ 62" "stale < 2 ^ 64" using assms(3,4) by (simp_all add: nat_less_iff)
  ultimately have "unat (word_of_int stale :: u64) < unat (now - stamp)" using unat_of_stale [OF assms(3)] by linarith
  then show ?thesis by (simp add: word_less_nat_alt)
qed

text \<open>The check reads the clock before it takes the lock, and the age is an unsigned difference: when
  a snapshot that was stamped after the clock reading is stored in between, its age wraps around and
  the check reports a fresh GPU as stale.\<close>

theorem live_race_reports_stale:
  assumes "child_inv st" "0 \<le> msg_gpu_index m" "msg_gpu_index m < g_num_gpus st"
    and "now < sn_last_poll_ms (msg_snapshot m)" "unat (sn_last_poll_ms (msg_snapshot m)) - unat now < 2 ^ 62"
    and "0 \<le> g_stale_ms st" "g_stale_ms st < 2 ^ 62"
  shows "\<not> check_liveness now (g_stale_ms st) (g_slots (receiver_pass (Some m) st))"
proof (rule check_liveness_member)
  show "\<lparr>snap = msg_snapshot m, received = True\<rparr> \<in> set (g_slots (receiver_pass (Some m) st))"
    using assms(1-3) by (auto simp: receiver_pass_def store_msg_def Let_def child_inv_def intro!: set_update_memI)
qed (use age_wraps [OF assms(4-7)] in simp_all)

theorem live_race_reports_stale_witness:
  "\<not> check_liveness 1000 5000 (g_slots (receiver_pass
      (Some \<lparr>msg_gpu_index = 0, msg_snapshot = zero_snapshot\<lparr>sn_last_poll_ms := 1001\<rparr>\<rparr>)
      ((http_start 1 cfg_defaults)\<lparr>g_stale_ms := 5000\<rparr>)))"
proof -
  have "child_inv ((http_start 1 cfg_defaults)\<lparr>g_stale_ms := 5000\<rparr>)"
    using http_start_inv [of 1 cfg_defaults] by (simp add: child_inv_def)
  from live_race_reports_stale [OF this, of "\<lparr>msg_gpu_index = 0, msg_snapshot = zero_snapshot\<lparr>sn_last_poll_ms := 1001\<rparr>\<rparr>" 1000]
  show ?thesis by (simp add: http_start_def)
qed

section \<open>Requests\<close>

definition rd_bytes :: "rd_result list \<Rightarrow> string" where
  "rd_bytes rs = concat (map (\<lambda>r. case r of RdData s \<Rightarrow> s | _ \<Rightarrow> []) rs)"

text \<open>A client that keeps sending: every read delivers something or is interrupted.\<close>

definition sends :: "rd_result \<Rightarrow> bool" where
  "sends r \<longleftrightarrow> (case r of RdData s \<Rightarrow> s \<noteq> [] | RdIntr \<Rightarrow> True | _ \<Rightarrow> False)"

lemma read_chunks_newline:
  assumes "list_all sends rs" "nl \<notin> set buf" "length buf \<le> cap - 1" "nl \<in> set (take (cap - 1) (buf @ rd_bytes rs))"
  shows "\<exists>k. read_chunks cap buf rs = IoDone (take k (buf @ rd_bytes rs)) \<and> nl \<in> set (take k (buf @ rd_bytes rs))"
  using assms
proof (induction rs arbitrary: buf)
  case Nil
  then show ?case using in_set_takeD by (fastforce simp: rd_bytes_def)
next
  case (Cons r rs)
  have less: "length buf < cap - 1"
  proof (rule ccontr)
    assume "\<not> length buf < cap - 1"
    then have "take (cap - 1) (buf @ rd_bytes (r # rs)) = buf" using Cons.prems(3) by simp
    then show False using Cons.prems(2,4) by simp
  qed
  show ?case
  proof (cases r)
    case (RdData s)
    let ?b = "buf @ take (cap - length buf - 1) s"
    have s: "s \<noteq> []" using Cons.prems(1) RdData by (simp add: sends_def)
    have bytes: "rd_bytes (r # rs) = s @ rd_bytes rs" using RdData by (simp add: rd_bytes_def)
    show ?thesis
    proof (cases "nl \<in> set ?b")
      case True
      let ?k = "min (cap - 1) (length (buf @ s))"
      have "take ?k (buf @ rd_bytes (r # rs)) = ?b" using less by (simp add: bytes min_def)
      moreover have "read_chunks cap buf (r # rs) = IoDone ?b" using less s True RdData by (simp add: Let_def)
      ultimately show ?thesis using True by metis
    next
      case False
      then have step: "read_chunks cap buf (r # rs) = read_chunks cap ?b rs" using less s RdData by (auto simp: Let_def)
      show ?thesis
      proof (cases "length s \<le> cap - length buf - 1")
        case True
        then have b: "?b = buf @ s" by simp
        show ?thesis using Cons.IH [of ?b] Cons.prems(1,4) False less True step unfolding b bytes by auto
      next
        case long: False
        then have "take (cap - 1) (buf @ rd_bytes (r # rs)) = ?b" using less by (simp add: bytes)
        then show ?thesis using Cons.prems(4) False by simp
      qed
    qed
  next
    case RdIntr
    then show ?thesis using Cons less by (auto simp: rd_bytes_def)
  qed (use Cons.prems(1) in \<open>simp_all add: sends_def\<close>)
qed

lemma takeWhile_take_hit: "x \<in> set (take k s) \<Longrightarrow> \<not> P x \<Longrightarrow> takeWhile P (take k s) = takeWhile P s"
  by (metis append_take_drop_id takeWhile_append1)

lemma parse_request_prefix: "nl \<in> set (take k s) \<Longrightarrow> parse_request (take k s) = parse_request s"
  using takeWhile_take_hit [of nl k s "\<lambda>c. c \<noteq> nl"] in_set_takeD [of nl k s]
  by (simp add: parse_request_def)

lemma read_request_line_chunks:
  assumes "list_all sends rs" "nl \<in> set (take (cap - 1) (rd_bytes rs))"
  shows "read_request_line cap rs = (case parse_request (rd_bytes rs) of None \<Rightarrow> IoFail | Some mp \<Rightarrow> IoDone mp)"
proof -
  obtain k where "read_chunks cap [] rs = IoDone (take k (rd_bytes rs))" "nl \<in> set (take k (rd_bytes rs))"
    using read_chunks_newline [of rs "[]" cap] assms by auto
  then show ?thesis by (simp add: read_request_line_def parse_request_prefix)
qed

text \<open>A token of a request line: no space, no line end, no NUL.\<close>

definition token :: "string \<Rightarrow> bool" where
  "token s \<longleftrightarrow> list_all (\<lambda>c. c \<noteq> CHR '' '') s \<and> list_all (\<lambda>c. c \<noteq> nl) s \<and> list_all (\<lambda>c. c \<noteq> CHR 0x0D) s \<and>
     list_all (\<lambda>c. ccode c \<noteq> 0) s"

lemma takeWhile_token: "list_all P s \<Longrightarrow> \<not> P c \<Longrightarrow> takeWhile P (s @ c # t) = s \<and> dropWhile P (s @ c # t) = c # t"
  by (induction s) auto

lemma parse_request_line:
  assumes "token m" "token p" "token v"
  shows "parse_request (m @ '' '' @ p @ '' '' @ v @ crlf @ rest) = Some (m, p)"
proof -
  define line where "line = m @ CHR '' '' # p @ CHR '' '' # v"
  have tok: "list_all (\<lambda>c. c \<noteq> CHR '' '') m" "list_all (\<lambda>c. c \<noteq> CHR '' '') p"
    using assms by (simp_all add: token_def)
  have nonl: "list_all (\<lambda>c. c \<noteq> nl) (line @ [CHR 0x0D])" using assms by (simp add: token_def line_def)
  have buf: "m @ '' '' @ p @ '' '' @ v @ crlf @ rest = (line @ [CHR 0x0D]) @ nl # rest" by (simp add: line_def)
  have "list_all (\<lambda>c. ccode c \<noteq> 0) line" using assms by (simp add: token_def ccode_def line_def)
  then have c: "c_str line = line" by (simp add: c_str_def takeWhile_eq_all_conv list_all_iff)
  have sp: "takeWhile (\<lambda>c. c \<noteq> CHR '' '') line = m" "dropWhile (\<lambda>c. c \<noteq> CHR '' '') line = CHR '' '' # p @ CHR '' '' # v"
    "CHR '' '' \<in> set line"
    using takeWhile_token [OF tok(1), of "CHR '' ''" "p @ CHR '' '' # v"] by (simp_all add: line_def)
  have "takeWhile (\<lambda>c. c \<noteq> nl) ((line @ [CHR 0x0D]) @ nl # rest) = line @ [CHR 0x0D]"
    using takeWhile_token [OF nonl] by blast
  then show ?thesis unfolding buf parse_request_def Let_def
    using takeWhile_token [OF tok(2), of "CHR '' ''" v] by (simp add: c sp)
qed

lemma in_take_mid: "length pre < k \<Longrightarrow> x \<in> set (take k (pre @ x # post))"
  by (simp add: take_Cons')

text \<open>C28. A request is understood however it is cut into packets: when a client sends a request line,
  in any chunks and with any interrupted reads, and the line ends within the buffer, the method
  and the path that reach the dispatcher are those the client sent.\<close>

theorem request_round_trip:
  assumes "list_all sends rs" "rd_bytes rs = m @ '' '' @ p @ '' '' @ v @ crlf @ rest"
    and "token m" "token p" "token v" "length m + length p + length v + 4 < cap - 1"
  shows "read_request_line cap rs = IoDone (m, p)"
proof -
  have "nl \<in> set (take (cap - 1) ((m @ '' '' @ p @ '' '' @ v @ [CHR 0x0D]) @ nl # rest))"
    by (rule in_take_mid) (use assms(6) in simp)
  then have "nl \<in> set (take (cap - 1) (rd_bytes rs))" by (simp add: assms(2))
  then show ?thesis using read_request_line_chunks [OF assms(1)] parse_request_line [OF assms(3-5)] assms(2) by simp
qed

theorem request_round_trip_witness:
  "read_request_line REQ_BUF_SIZE [RdData ''GE'', RdIntr, RdData ''T /metrics'', RdData ('' HTTP/1.1'' @ crlf @ crlf)] =
     IoDone (''GET'', ''/metrics'')"
  by (rule request_round_trip [where v = "''HTTP/1.1''" and rest = crlf])
    (simp_all add: sends_def rd_bytes_def token_def ccode_def REQ_BUF_SIZE_def)

section \<open>Responses\<close>

text \<open>The results of writes to a client that keeps reading.\<close>

definition accepts :: "io_result \<Rightarrow> bool" where
  "accepts r \<longleftrightarrow> (case r of IoBytes n \<Rightarrow> 0 < n | IoIntr \<Rightarrow> True | IoErr \<Rightarrow> False)"

abbreviation progress :: "io_result list \<Rightarrow> nat" where
  "progress rs \<equiv> length (filter (\<lambda>r. r \<noteq> IoIntr) rs)"

lemma conn_write_all_complete:
  assumes "list_all accepts rs" "length bs \<le> progress rs"
  shows "\<exists>rest. conn_write_all bs rs = (bs, Some 0, rest) \<and> list_all accepts rest \<and> progress rs \<le> length bs + progress rest"
  using assms
proof (induction bs rs rule: conn_write_all.induct)
  case (3 b bs n rs)
  have n: "0 < n" using "3.prems"(1) by (simp add: accepts_def)
  then have "length (drop n (b # bs)) \<le> progress rs" using "3.prems"(2) by (cases n) auto
  then obtain rest where r: "conn_write_all (drop n (b # bs)) rs = (drop n (b # bs), Some 0, rest)" "list_all accepts rest"
    "progress rs \<le> length (drop n (b # bs)) + progress rest"
    using "3.IH" "3.prems"(1) n by auto
  have "conn_write_all (b # bs) (IoBytes n # rs) = (take n (b # bs) @ drop n (b # bs), Some 0, rest)"
    using r(1) n by simp
  then show ?case using r(2,3) n by (simp add: Suc_diff_le)
qed (auto simp: accepts_def)

lemma write_response_complete:
  assumes "list_all accepts rs" "length (header_text (rsp_status r) (rsp_type r) (length (rsp_body r))) < 256"
    and "256 + length (rsp_body r) \<le> progress rs"
  shows "write_response r rs = (header_text (rsp_status r) (rsp_type r) (length (rsp_body r)) @ rsp_body r, Some 0)"
proof -
  let ?h = "header_text (rsp_status r) (rsp_type r) (length (rsp_body r))"
  obtain rs1 where h: "conn_write_all ?h rs = (?h, Some 0, rs1)" "list_all accepts rs1" "progress rs \<le> length ?h + progress rs1"
    using conn_write_all_complete [OF assms(1), of ?h] assms(2,3) by auto
  obtain rs2 where "conn_write_all (rsp_body r) rs1 = (rsp_body r, Some 0, rs2)"
    using conn_write_all_complete [OF h(2), of "rsp_body r"] assms(2,3) h(3) by auto
  then show ?thesis using assms(2) h(1) by (simp add: write_response_def Let_def)
qed

lemma header_text_short:
  "status \<in> {200, 404, 405, 500, 503} \<Longrightarrow> length content_type \<le> 60 \<Longrightarrow> n < 10 ^ 6 \<Longrightarrow>
   length (header_text status content_type n) < 256"
  using length_fmt_u [of n 6] length_fmt_u [of "nat status" 3]
  by (auto simp: header_text_def status_text_def fmt_d_def)

lemma render_metrics_length: "length (render_metrics ok METRICS_BUF_SIZE slots) < 10 ^ 6"
  using render_metrics_bound [of ok METRICS_BUF_SIZE slots] by (simp add: METRICS_BUF_SIZE_def)

lemma handle_request_shape:
  assumes "r = handle_request b c now st method path"
  shows "rsp_status r \<in> {200, 404, 405, 500, 503} \<and> length (rsp_type r) \<le> 60 \<and> length (rsp_body r) < 10 ^ 6"
  unfolding assms handle_request_def plain_def using render_metrics_length by simp

text \<open>C27. Every request gets one complete response: whatever the method and the path, the header fits its
  buffer, and a client that keeps reading receives the header with the length of the body followed by
  the whole body, however the writes are cut; the status is 405 for another method than GET, 404
  for an unknown path, and for the three pages what the state of the child says.\<close>

theorem every_request_answered:
  assumes "r = handle_request buf_ok copy_ok now st method path" "list_all accepts rs" "10 ^ 7 \<le> progress rs"
  shows "write_response r rs = (header_text (rsp_status r) (rsp_type r) (length (rsp_body r)) @ rsp_body r, Some 0) \<and>
    rsp_status r =
      (if method \<noteq> ''GET'' then 405
       else if path = ''/metrics'' then (if buf_ok then 200 else 500)
       else if path = ''/ready'' then (if g_all_ready st then 200 else 503)
       else if path = ''/live'' then (if check_liveness now (g_stale_ms st) (g_slots st) then 200 else 503)
       else 404)"
proof -
  note sh = handle_request_shape [OF assms(1)]
  have "length (header_text (rsp_status r) (rsp_type r) (length (rsp_body r))) < 256"
    using sh by (intro header_text_short) auto
  then have "write_response r rs = (header_text (rsp_status r) (rsp_type r) (length (rsp_body r)) @ rsp_body r, Some 0)"
    using sh assms(3) by (intro write_response_complete [OF assms(2)]) auto
  then show ?thesis by (simp add: assms(1) handle_request_def plain_def)
qed

theorem every_request_answered_witness:
  "write_response (handle_request True True 0 (http_start 1 cfg_defaults) ''GET'' ''/ready'') (replicate (10 ^ 7) (IoBytes 4)) =
     (header_text 503 ''text/plain'' (length (''not ready'' @ [nl])) @ ''not ready'' @ [nl], Some 0)"
proof -
  have "list_all accepts (replicate (10 ^ 7) (IoBytes 4))" by (simp add: list_all_iff accepts_def)
  moreover have "10 ^ 7 \<le> progress (replicate (10 ^ 7) (IoBytes 4))" by (simp add: filter_replicate)
  ultimately show ?thesis
    using every_request_answered [OF refl, of _ True True 0 "http_start 1 cfg_defaults" "''GET''" "''/ready''"]
    by (simp add: handle_request_def plain_def http_start_def)
qed

section \<open>The accept loop\<close>

definition accepted :: "accept_event list \<Rightarrow> conn_env list" where
  "accepted evs = List.map_filter (\<lambda>ev. case ev of Accepted ce \<Rightarrow> Some ce | _ \<Rightarrow> None) evs"

text \<open>A connection whose calls return: the handshake comes to a result, and there are results enough for
  the request buffer and the longest response. The time limits set on the socket see to it.\<close>

definition calls_return :: "conn_env \<Rightarrow> bool" where
  "calls_return ce \<longleftrightarrow>
     (case ce_tls ce of None \<Rightarrow> True | Some (r, hs) \<Rightarrow> tls_handshake hs \<noteq> None) \<and>
     REQ_BUF_SIZE \<le> length (filter (\<lambda>r. r \<noteq> RdIntr) (ce_reads ce)) \<and> 10 ^ 7 \<le> progress (ce_writes ce)"

lemma read_chunks_returns:
  "cap \<le> length buf + length (filter (\<lambda>r. r \<noteq> RdIntr) rs) \<Longrightarrow> read_chunks cap buf rs \<noteq> IoWait"
proof (induction cap buf rs rule: read_chunks.induct)
  case (2 cap buf r rs)
  show ?case
  proof (cases "\<exists>s. r = RdData s \<and> s \<noteq> [] \<and> length buf < cap - 1")
    case True
    then obtain s where s: "r = RdData s" "s \<noteq> []" "length buf < cap - 1" by blast
    have "Suc (length buf) \<le> length (buf @ take (cap - length buf - 1) s)" using s(2,3) by (cases s) auto
    then have "cap \<le> length (buf @ take (cap - length buf - 1) s) + length (filter (\<lambda>r. r \<noteq> RdIntr) rs)"
      using "2.prems" s(1) by (simp del: length_append length_take)
    then have "nl \<notin> set (buf @ take (cap - length buf - 1) s) \<Longrightarrow>
        read_chunks cap (buf @ take (cap - length buf - 1) s) rs \<noteq> IoWait"
      using "2.IH"(1) [OF _ s(1,2) refl] s(3) by blast
    then show ?thesis using s by (simp add: Let_def)
  next
    case False
    then show ?thesis using "2.IH"(2) "2.prems" by (auto split: rd_result.splits)
  qed
qed auto

lemma conn_write_all_returns:
  "length bs \<le> progress rs \<Longrightarrow>
   \<exists>out ret rest. conn_write_all bs rs = (out, Some ret, rest) \<and> (ret = 0 \<longrightarrow> progress rs \<le> length bs + progress rest)"
proof (induction bs rs rule: conn_write_all.induct)
  case (3 b bs n rs)
  show ?case
  proof (cases "n = 0")
    case False
    then have "length (drop n (b # bs)) \<le> progress rs" using "3.prems" by (cases n) auto
    then obtain out ret rest where r: "conn_write_all (drop n (b # bs)) rs = (out, Some ret, rest)"
      "ret = 0 \<longrightarrow> progress rs \<le> length (drop n (b # bs)) + progress rest"
      using "3.IH" [OF False] by blast
    then show ?thesis using False by (auto simp: Suc_diff_le)
  qed simp
qed auto

lemma write_response_returns:
  assumes "256 + length (rsp_body r) \<le> progress rs"
  shows "snd (write_response r rs) \<noteq> None"
proof (cases "length (header_text (rsp_status r) (rsp_type r) (length (rsp_body r))) < 256")
  case True
  let ?h = "header_text (rsp_status r) (rsp_type r) (length (rsp_body r))"
  obtain out ret rs1 where h: "conn_write_all ?h rs = (out, Some ret, rs1)" "ret = 0 \<longrightarrow> progress rs \<le> length ?h + progress rs1"
    using conn_write_all_returns [of ?h rs] True assms by auto
  show ?thesis
  proof (cases "ret = 0")
    case True
    then have "length (rsp_body r) \<le> progress rs1" using h(2) assms \<open>length ?h < 256\<close> by simp
    then obtain out2 ret2 rs2 where "conn_write_all (rsp_body r) rs1 = (out2, Some ret2, rs2)"
      using conn_write_all_returns by blast
    then show ?thesis using h(1) True by (simp add: write_response_def Let_def)
  qed (use h(1) in \<open>simp add: write_response_def Let_def\<close>)
qed (simp add: write_response_def Let_def)

text \<open>The two ways in which the descriptor of a connection is given back.\<close>

definition released :: "int \<Rightarrow> close_event list \<Rightarrow> bool" where
  "released fd evs \<longleftrightarrow> evs = [EvClose fd] \<or> evs = [EvCloseNotify, EvSslFree, EvNetFree fd]"

lemma conn_close_releases: "0 \<le> conn_fd c \<Longrightarrow> released (conn_fd c) (fst (conn_close c))"
  by (simp add: conn_close_def released_def)

lemma tls_wrap_client_ends:
  "tls_handshake hs \<noteq> None \<Longrightarrow> \<exists>d ret. tls_wrap_client r hs c = Some (d, ret) \<and> conn_fd d = conn_fd c"
  by (auto simp: tls_wrap_client_def)

lemma serve_connection_ends:
  assumes "calls_return ce" "0 \<le> ce_fd ce"
  shows "\<exists>out closes. serve_connection ce = (out, Some closes) \<and> released (ce_fd ce) closes"
proof -
  let ?c = "\<lparr>conn_fd = ce_fd ce, tls_active = False\<rparr>"
  obtain d ret where wrap: "(case ce_tls ce of None \<Rightarrow> Some (?c, 0) | Some (r, hs) \<Rightarrow> tls_wrap_client r hs ?c) = Some (d, ret)"
    "conn_fd d = ce_fd ce"
    using assms(1) tls_wrap_client_ends [of _ _ ?c]
    by (cases "ce_tls ce") (simp_all add: calls_return_def split_beta, metis)
  then have rel: "released (ce_fd ce) (fst (conn_close d))" using conn_close_releases assms(2) by metis
  have "read_chunks REQ_BUF_SIZE [] (ce_reads ce) \<noteq> IoWait"
    using assms(1) by (intro read_chunks_returns) (simp add: calls_return_def)
  then have rd: "read_request_line REQ_BUF_SIZE (ce_reads ce) \<noteq> IoWait"
    by (auto simp: read_request_line_def split: io_out.splits option.splits)
  have wr: "snd (write_response (handle_request b k now st verb path) (ce_writes ce)) \<noteq> None" for b k now st verb path
    using assms(1) handle_request_shape [OF refl, of b k now st verb path]
    by (intro write_response_returns) (simp add: calls_return_def)
  show ?thesis
  proof (cases "ret < 0 \<or> read_request_line REQ_BUF_SIZE (ce_reads ce) = IoFail")
    case True
    then show ?thesis using rel by (auto simp: serve_connection_def wrap(1) Let_def)
  next
    case False
    then obtain verb path where "read_request_line REQ_BUF_SIZE (ce_reads ce) = IoDone (verb, path)"
      using rd by (cases "read_request_line REQ_BUF_SIZE (ce_reads ce)") auto
    then show ?thesis
      using False rel wr [of "ce_buf_ok ce" "ce_copy_ok ce" "ce_now_ms ce" "ce_state ce" verb path]
      by (auto simp: serve_connection_def wrap(1) Let_def split_beta)
  qed
qed

text \<open>C26. The accept loop serves every accepted connection once, in order, and ends at the first test that
  finds the child stopping: nothing is accepted after that. When the calls on the connections return, it
  does end, and each connection, encrypted or not, served, refused or failed, has its descriptor
  given back exactly once.\<close>

theorem accept_loop_serves_then_ends:
  assumes "SelErr \<notin> set evs" "list_all (\<lambda>ce. calls_return ce \<and> 0 \<le> ce_fd ce) (accepted evs)"
  shows "\<exists>served. http_accept_loop (map (Pair True) evs @ (False, ev) # later) = (served, True) \<and>
    list_all2 (\<lambda>ce (out, closes). serve_connection ce = (out, Some closes) \<and> released (ce_fd ce) closes) (accepted evs) served"
  using assms
proof (induction evs)
  case (Cons e evs)
  then have "list_all (\<lambda>ce. calls_return ce \<and> 0 \<le> ce_fd ce) (accepted evs)"
    by (auto simp: accepted_def List.map_filter_def split: accept_event.splits)
  then obtain served where IH: "http_accept_loop (map (Pair True) evs @ (False, ev) # later) = (served, True)"
    "list_all2 (\<lambda>ce (out, closes). serve_connection ce = (out, Some closes) \<and> released (ce_fd ce) closes) (accepted evs) served"
    using Cons.IH Cons.prems(1) by auto
  show ?case
  proof (cases e)
    case (Accepted ce)
    then obtain out closes where "serve_connection ce = (out, Some closes)" "released (ce_fd ce) closes"
      using serve_connection_ends [of ce] Cons.prems(2) by (auto simp: accepted_def List.map_filter_def)
    then show ?thesis using IH Accepted by (simp add: accepted_def List.map_filter_def)
  qed (use IH Cons.prems(1) in \<open>auto simp: accepted_def List.map_filter_def\<close>)
qed (simp add: accepted_def List.map_filter_def)

definition eof_conn :: conn_env where
  "eof_conn = \<lparr>ce_fd = 7, ce_tls = Some (0, [TlsWant, TlsOk 0]), ce_reads = replicate REQ_BUF_SIZE RdEof,
     ce_writes = replicate (10 ^ 7) (IoBytes 1), ce_buf_ok = True, ce_copy_ok = True, ce_now_ms = 0,
     ce_state = http_start 1 cfg_defaults\<rparr>"

theorem accept_loop_serves_then_ends_witness:
  "\<exists>served. http_accept_loop [(True, SelTimeout), (True, Accepted eof_conn), (False, SelIntr), (True, SelTimeout)] = (served, True)"
proof -
  have "calls_return eof_conn" "ce_fd eof_conn = 7"
    by (simp_all add: calls_return_def eof_conn_def filter_replicate)
  then show ?thesis
    using accept_loop_serves_then_ends [of "[SelTimeout, Accepted eof_conn]" SelIntr "[(True, SelTimeout)]"]
    by (auto simp: accepted_def List.map_filter_def simp del: http_accept_loop.simps)
qed

end
