(* ===== verification/Procpriv.thy ===== *)
theory Procpriv
  imports Prelude
begin

text \<open>
  Privileges, \<^verbatim>\<open>src/procpriv.c\<close>: the capability drop and the seccomp filter of the HTTP child. The
  filter is a BPF program; the three instructions it uses are given their kernel meaning, with the
  program counter as the rest of the instruction list, since BPF jumps only forward. Numbers of
  system calls and constants are those of the x86\_64 kernel headers. Results of the calls to the
  kernel are arguments.
\<close>

section \<open>BPF\<close>

datatype bpf_insn =
    LD_ABS nat
  | JEQ u32 nat nat
  | RET u32

record seccomp_data =
  sd_nr :: u32
  sd_arch :: u32

text \<open>The word at an offset of the structure: the number comes first, then the architecture.\<close>

definition sd_word :: "seccomp_data \<Rightarrow> nat \<Rightarrow> u32" where
  "sd_word d off = (if off = 4 then sd_arch d else sd_nr d)"

text \<open>\<open>None\<close> would be running past the end of the program, which the kernel refuses to load.\<close>

function bpf_run :: "seccomp_data \<Rightarrow> u32 \<Rightarrow> bpf_insn list \<Rightarrow> u32 option" where
  "bpf_run d a [] = None"
| "bpf_run d a (LD_ABS off # is) = bpf_run d (sd_word d off) is"
| "bpf_run d a (JEQ k jt jf # is) = bpf_run d a (drop (if a = k then jt else jf) is)"
| "bpf_run d a (RET k # is) = Some k"
  by pat_completeness auto
termination by (relation "measure (\<lambda>(d, a, is). length is)") auto

section \<open>The filter\<close>

definition SECCOMP_RET_ALLOW :: u32 where "SECCOMP_RET_ALLOW = 0x7FFF0000"
definition SECCOMP_RET_KILL_PROCESS :: u32 where "SECCOMP_RET_KILL_PROCESS = 0x80000000"
definition AUDIT_ARCH_X86_64 :: u32 where "AUDIT_ARCH_X86_64 = 0xC000003E"

datatype syscall =
    NR_read | NR_write | NR_writev | NR_close
  | NR_socket | NR_bind | NR_listen | NR_accept | NR_accept4 | NR_select | NR_pselect6
  | NR_setsockopt | NR_getsockopt | NR_sendto | NR_recvfrom
  | NR_exit | NR_exit_group
  | NR_futex | NR_clone | NR_set_robust_list | NR_gettid | NR_getpid
  | NR_mmap | NR_munmap | NR_mprotect | NR_madvise | NR_brk
  | NR_rt_sigaction | NR_rt_sigprocmask | NR_rt_sigreturn
  | NR_clock_gettime | NR_gettimeofday | NR_getrandom | NR_clone3 | NR_rseq
  | NR_execve | NR_execveat | NR_open | NR_openat | NR_fork | NR_vfork | NR_ptrace | NR_kill | NR_tgkill
  | NR_tkill | NR_unlink | NR_chmod | NR_chown

fun nr_of :: "syscall \<Rightarrow> u32" where
  "nr_of NR_read = 0" | "nr_of NR_write = 1" | "nr_of NR_writev = 20" | "nr_of NR_close = 3"
| "nr_of NR_socket = 41" | "nr_of NR_bind = 49" | "nr_of NR_listen = 50" | "nr_of NR_accept = 43"
| "nr_of NR_accept4 = 288" | "nr_of NR_select = 23" | "nr_of NR_pselect6 = 270" | "nr_of NR_setsockopt = 54"
| "nr_of NR_getsockopt = 55" | "nr_of NR_sendto = 44" | "nr_of NR_recvfrom = 45"
| "nr_of NR_exit = 60" | "nr_of NR_exit_group = 231"
| "nr_of NR_futex = 202" | "nr_of NR_clone = 56" | "nr_of NR_set_robust_list = 273" | "nr_of NR_gettid = 186"
| "nr_of NR_getpid = 39"
| "nr_of NR_mmap = 9" | "nr_of NR_munmap = 11" | "nr_of NR_mprotect = 10" | "nr_of NR_madvise = 28" | "nr_of NR_brk = 12"
| "nr_of NR_rt_sigaction = 13" | "nr_of NR_rt_sigprocmask = 14" | "nr_of NR_rt_sigreturn = 15"
| "nr_of NR_clock_gettime = 228" | "nr_of NR_gettimeofday = 96" | "nr_of NR_getrandom = 318"
| "nr_of NR_clone3 = 435" | "nr_of NR_rseq = 334"
| "nr_of NR_execve = 59" | "nr_of NR_execveat = 322" | "nr_of NR_open = 2" | "nr_of NR_openat = 257"
| "nr_of NR_fork = 57" | "nr_of NR_vfork = 58" | "nr_of NR_ptrace = 101" | "nr_of NR_kill = 62"
| "nr_of NR_tgkill = 234" | "nr_of NR_tkill = 200" | "nr_of NR_unlink = 87" | "nr_of NR_chmod = 90" | "nr_of NR_chown = 92"

definition allowed_syscalls :: "syscall list" where
  "allowed_syscalls =
     [NR_read, NR_write, NR_writev, NR_close,
      NR_socket, NR_bind, NR_listen, NR_accept, NR_accept4, NR_select, NR_pselect6, NR_setsockopt, NR_getsockopt,
      NR_sendto, NR_recvfrom,
      NR_exit, NR_exit_group,
      NR_futex, NR_clone, NR_set_robust_list, NR_gettid, NR_getpid,
      NR_mmap, NR_munmap, NR_mprotect, NR_madvise, NR_brk,
      NR_rt_sigaction, NR_rt_sigprocmask, NR_rt_sigreturn,
      NR_clock_gettime, NR_gettimeofday,
      NR_getrandom, NR_clone3, NR_rseq]"


definition ALLOW :: "u32 \<Rightarrow> bpf_insn list" where
  "ALLOW nr = [JEQ nr 0 1, RET SECCOMP_RET_ALLOW]"

definition child_filter :: "bpf_insn list" where
  "child_filter =
     [LD_ABS 4, JEQ AUDIT_ARCH_X86_64 1 0, RET SECCOMP_RET_KILL_PROCESS, LD_ABS 0] @
     concat (map (\<lambda>s. ALLOW (nr_of s)) allowed_syscalls) @
     [RET SECCOMP_RET_KILL_PROCESS]"

section \<open>Dropping privileges\<close>

record proc_t =
  no_new_privs :: bool
  caps :: "nat set"
  seccomp_filter :: "bpf_insn list option"

record priv_env =
  prctl_ok :: bool
  capset_ok :: bool
  seccomp_ok :: bool

definition set_no_new_privs :: "priv_env \<Rightarrow> proc_t \<Rightarrow> proc_t" where
  "set_no_new_privs e p = (if prctl_ok e then p\<lparr>no_new_privs := True\<rparr> else p)"

definition drop_all_caps :: "priv_env \<Rightarrow> proc_t \<Rightarrow> proc_t \<times> int" where
  "drop_all_caps e p = (if capset_ok e then (p\<lparr>caps := {}\<rparr>, 0) else (p, - 1))"

definition install_child_seccomp :: "priv_env \<Rightarrow> proc_t \<Rightarrow> proc_t \<times> int" where
  "install_child_seccomp e p = (if seccomp_ok e then (p\<lparr>seccomp_filter := Some child_filter\<rparr>, 0) else (p, - 1))"

text \<open>\<open>None\<close> is \<open>_exit(1)\<close>.\<close>

definition procpriv_child_setup :: "priv_env \<Rightarrow> proc_t \<Rightarrow> proc_t option" where
  "procpriv_child_setup e p =
     (let p = set_no_new_privs e p;
          (p, r) = drop_all_caps e p
      in case install_child_seccomp e p of (p, s) \<Rightarrow> if s < 0 then None else Some p)"

definition procpriv_parent_setup :: "priv_env \<Rightarrow> proc_t \<Rightarrow> proc_t" where
  "procpriv_parent_setup e p = fst (drop_all_caps e (set_no_new_privs e p))"

text \<open>What the kernel does with a call of a process.\<close>

definition verdict :: "proc_t \<Rightarrow> seccomp_data \<Rightarrow> u32 option" where
  "verdict p d = (case seccomp_filter p of None \<Rightarrow> Some SECCOMP_RET_ALLOW | Some f \<Rightarrow> bpf_run d 0 f)"

section \<open>What the filter decides\<close>

lemma bpf_run_allow:
  "bpf_run d (sd_nr d) (concat (map ALLOW nrs) @ [RET dflt]) =
     Some (if sd_nr d \<in> set nrs then SECCOMP_RET_ALLOW else dflt)"
  by (induction nrs) (simp_all add: ALLOW_def)

lemma child_filter_run:
  "bpf_run d a child_filter =
     Some (if sd_arch d = AUDIT_ARCH_X86_64 \<and> sd_nr d \<in> set (map nr_of allowed_syscalls)
           then SECCOMP_RET_ALLOW else SECCOMP_RET_KILL_PROCESS)"
  using bpf_run_allow [of d "map nr_of allowed_syscalls" SECCOMP_RET_KILL_PROCESS]
  by (simp add: child_filter_def sd_word_def comp_def)



text \<open>A child that goes on after the setup is confined: its filter is installed, so that every call off
  the list kills it, whatever the other two steps returned; when the installation fails the child
  exits instead.\<close>

theorem child_confined:
  assumes "procpriv_child_setup e p = Some p'" "sd_nr d \<notin> set (map nr_of allowed_syscalls)"
  shows "verdict p' d = Some SECCOMP_RET_KILL_PROCESS \<and> seccomp_ok e \<and> (if capset_ok e then caps p' = {} else caps p' = caps p)"
  using assms
  by (auto simp: procpriv_child_setup_def install_child_seccomp_def drop_all_caps_def set_no_new_privs_def verdict_def
      child_filter_run Let_def split: if_splits)

theorem child_confined_witness:
  "\<exists>p'. procpriv_child_setup \<lparr>prctl_ok = False, capset_ok = True, seccomp_ok = True\<rparr>
      \<lparr>no_new_privs = False, caps = {21}, seccomp_filter = None\<rparr> = Some p' \<and>
    verdict p' \<lparr>sd_nr = nr_of NR_execve, sd_arch = AUDIT_ARCH_X86_64\<rparr> = Some SECCOMP_RET_KILL_PROCESS"
proof -
  let ?e = "\<lparr>prctl_ok = False, capset_ok = True, seccomp_ok = True\<rparr>"
  let ?p = "\<lparr>no_new_privs = False, caps = {21}, seccomp_filter = None\<rparr>"
  obtain p' where p': "procpriv_child_setup ?e ?p = Some p'"
    by (simp add: procpriv_child_setup_def install_child_seccomp_def drop_all_caps_def)
  have "sd_nr \<lparr>sd_nr = nr_of NR_execve, sd_arch = AUDIT_ARCH_X86_64\<rparr> \<notin> set (map nr_of allowed_syscalls)"
    by (simp add: allowed_syscalls_def)
  from child_confined [OF p' this] p' show ?thesis by blast
qed

end
