(* ===== verification/Filesd.thy ===== *)
theory Filesd
  imports Util Config
begin

text \<open>
  The service discovery file, \<^verbatim>\<open>src/filesd.c\<close>. The file system is a map from paths to contents; a
  write returns every state it passes through, so that what a concurrent reader can see is part of
  the model. The results of the system calls, and how many bytes of the text reach the disk, are
  arguments.
\<close>

type_synonym file_system = "string \<Rightarrow> string option"

record filesd_env =
  fe_hostname :: "string option"
  fe_fopen_ok :: bool
  fe_written :: nat
  fe_rename_ok :: bool

text \<open>\<open>sizeof(cfg->file_sd_path)\<close>.\<close>

definition FILE_SD_PATH_SIZE :: nat where "FILE_SD_PATH_SIZE = 256"

text \<open>\<open>snprintf\<close> of a string into a buffer of \<open>sz\<close> bytes.\<close>

definition snprintf_s :: "nat \<Rightarrow> string \<Rightarrow> string" where
  "snprintf_s sz s = take (sz - 1) s"

definition filesd_tmp :: "gpu_config_t \<Rightarrow> string" where
  "filesd_tmp cfg = snprintf_s (FILE_SD_PATH_SIZE + 4) (file_sd_path cfg @ ''.tmp'')"

definition filesd_text :: "string \<Rightarrow> int \<Rightarrow> string" where
  "filesd_text hostname port =
     ''[{'' @ [CHR 0x22] @ ''targets'' @ [CHR 0x22] @ '':['' @ [CHR 0x22] @ hostname @ '':'' @ fmt_d port @ [CHR 0x22] @
     ''],'' @ [CHR 0x22] @ ''labels'' @ [CHR 0x22] @ '':{'' @ [CHR 0x22] @ ''job'' @ [CHR 0x22] @ '':'' @ [CHR 0x22] @
     ''gpu-health'' @ [CHR 0x22] @ ''}}]'' @ [CHR 0x0A]"

text \<open>The states after each call: the open truncates the temporary file, the close has written it, and
  the rename replaces the target in one step.\<close>

definition filesd_write :: "filesd_env \<Rightarrow> gpu_config_t \<Rightarrow> file_system \<Rightarrow> file_system list" where
  "filesd_write e cfg fs =
     (if file_sd_path cfg = [] then [fs]
      else case fe_hostname e of
        None \<Rightarrow> [fs]
      | Some h \<Rightarrow>
          let hostname = take 255 h; tmp = filesd_tmp cfg
          in if \<not> fe_fopen_ok e then [fs]
             else
               let opened = fs(tmp \<mapsto> []);
                   closed_fs = opened(tmp \<mapsto> take (fe_written e) (filesd_text hostname (listen_port cfg)))
               in if fe_rename_ok e
                  then [fs, opened, closed_fs, (closed_fs(file_sd_path cfg := closed_fs tmp))(tmp := None)]
                  else [fs, opened, closed_fs, closed_fs(tmp := None)])"

definition filesd_remove :: "bool \<Rightarrow> gpu_config_t \<Rightarrow> file_system \<Rightarrow> file_system" where
  "filesd_remove unlink_ok cfg fs =
     (if file_sd_path cfg = [] then fs else if unlink_ok then fs(file_sd_path cfg := None) else fs)"

section \<open>Atomicity\<close>

lemma filesd_tmp_exact:
  assumes "length (file_sd_path cfg) < FILE_SD_PATH_SIZE"
  shows "filesd_tmp cfg = file_sd_path cfg @ ''.tmp''"
  using assms by (simp add: filesd_tmp_def snprintf_s_def FILE_SD_PATH_SIZE_def)

lemma filesd_tmp_other: "length (file_sd_path cfg) < FILE_SD_PATH_SIZE \<Longrightarrow> filesd_tmp cfg \<noteq> file_sd_path cfg"
  by (simp add: filesd_tmp_exact)

lemma config_path_fits: "config_load fopen getenv path = Some cfg \<Longrightarrow> length (file_sd_path cfg) < FILE_SD_PATH_SIZE"
  using cfg_in_range_ints(16) [OF config_load_in_range] by (simp add: FILE_SD_PATH_SIZE_def)

lemma length_fmt_d_port: "cfg_in_range cfg \<Longrightarrow> length (fmt_d (listen_port cfg)) \<le> 5"
  using cfg_in_range_ints(4) [of cfg] length_fmt_u [of "nat (listen_port cfg)" 5] by (simp add: fmt_d_def nat_less_iff)

text \<open>A reader of the target file sees the old file or the complete new one: in every state that a
  write passes through, when the text reaches the disk, the target is as it was or holds the whole
  text, and no other file than the target and its temporary file is touched. The temporary
  name is never cut off, and the temporary file is gone at the end.\<close>

theorem filesd_write_atomic:
  assumes "config_load fopen getenv path = Some cfg" "fe_hostname e = Some h" "file_sd_path cfg \<noteq> []"
    and "txt = filesd_text (take 255 h) (listen_port cfg)" "length txt \<le> fe_written e"
  shows "list_all (\<lambda>fs'. fs' (file_sd_path cfg) \<in> {fs (file_sd_path cfg), Some txt} \<and>
        (\<forall>p. p \<noteq> file_sd_path cfg \<and> p \<noteq> file_sd_path cfg @ ''.tmp'' \<longrightarrow> fs' p = fs p)) (filesd_write e cfg fs) \<and>
    last (filesd_write e cfg fs) (file_sd_path cfg) =
      (if fe_fopen_ok e \<and> fe_rename_ok e then Some txt else fs (file_sd_path cfg)) \<and>
    (fe_fopen_ok e \<longrightarrow> last (filesd_write e cfg fs) (file_sd_path cfg @ ''.tmp'') = None)"
  using assms filesd_tmp_exact [OF config_path_fits [OF assms(1)]] filesd_tmp_other [OF config_path_fits [OF assms(1)]]
  by (simp add: filesd_write_def Let_def)

definition sd_env :: "string \<Rightarrow> string option" where
  "sd_env name = (if name = ''GPU_HEALTH_FILE_SD_PATH'' then Some ''/sd/gpu.json'' else None)"

definition sd_cfg :: gpu_config_t where
  "sd_cfg = cfg_defaults\<lparr>file_sd_path := ''/sd/gpu.json''\<rparr>"

lemma sd_cfg_load: "config_load (\<lambda>_. None) sd_env None = Some sd_cfg"
  unfolding config_load_assigns env_assigns_zip env_names
  by (simp add: cfg_table_def List.map_filter_simps sd_env_def cfg_entry_def apply_entry_def safe_strncpy_def sd_cfg_def)

definition sd_ok :: filesd_env where
  "sd_ok = \<lparr>fe_hostname = Some ''node7'', fe_fopen_ok = True, fe_written = 1000, fe_rename_ok = True\<rparr>"

theorem filesd_write_atomic_witness:
  "last (filesd_write sd_ok sd_cfg (\<lambda>_. None)) ''/sd/gpu.json'' = Some (filesd_text ''node7'' (listen_port sd_cfg))"
proof -
  have p: "file_sd_path sd_cfg = ''/sd/gpu.json''" by (simp add: sd_cfg_def)
  have "length (fmt_d (listen_port sd_cfg)) \<le> 5"
    using length_fmt_d_port [OF config_load_in_range [OF sd_cfg_load]] .
  then have "length (filesd_text ''node7'' (listen_port sd_cfg)) \<le> fe_written sd_ok"
    by (simp add: filesd_text_def sd_ok_def)
  then show ?thesis
    using filesd_write_atomic [OF sd_cfg_load, of sd_ok "''node7''" _ "\<lambda>_. None"] by (simp add: p sd_ok_def)
qed

text \<open>The result of the formatted write is not checked: when the disk takes only a part of the text,
  the rename still succeeds and installs the truncated file.\<close>

lemma filesd_short_write_installs_truncated:
  assumes "length (file_sd_path cfg) < FILE_SD_PATH_SIZE" "fe_hostname e = Some h" "file_sd_path cfg \<noteq> []"
    and "fe_fopen_ok e" "fe_rename_ok e"
  shows "last (filesd_write e cfg fs) (file_sd_path cfg) =
    Some (take (fe_written e) (filesd_text (take 255 h) (listen_port cfg)))"
  using assms filesd_tmp_exact [OF assms(1)] filesd_tmp_other [OF assms(1)]
  by (simp add: filesd_write_def Let_def)

end
