(* ===== verification/MainLoop.thy ===== *)
theory MainLoop
  imports Collector Http Procpriv Filesd
begin

text \<open>
  The parent process, \<^verbatim>\<open>src/main.c\<close>: the startup sequence with its exits, the identity of each GPU,
  spawning and respawning the HTTP child, the wait for the first polls, the monitor loop and the
  shutdown. What the process does to its surroundings is the list of its events; the results of the
  calls are arguments. The poll threads it starts are those of \<open>Collector\<close>, the child is that of
  \<open>Http\<close>.
\<close>

section \<open>Notification of the service manager\<close>

text \<open>The 108 bytes of \<open>sun_path\<close>, zeroed first; \<open>None\<close> when there is nobody to notify.\<close>

definition SUN_PATH_SIZE :: nat where "SUN_PATH_SIZE = 108"

definition zero_fill :: "nat \<Rightarrow> string \<Rightarrow> string" where
  "zero_fill n s = s @ replicate (n - length s) (CHR 0x00)"

definition sd_notify_ready :: "string option \<Rightarrow> string option" where
  "sd_notify_ready notify_socket =
     (case notify_socket of
        None \<Rightarrow> None
      | Some s \<Rightarrow>
          if s = [] then None
          else if hd s = CHR ''@'' then Some (zero_fill SUN_PATH_SIZE (CHR 0x00 # take (SUN_PATH_SIZE - 2) (tl s)))
          else Some (zero_fill SUN_PATH_SIZE (take (SUN_PATH_SIZE - 1) s)))"

section \<open>Spawning the child\<close>

text \<open>The memory image of the init message, little-endian, and its value.\<close>

fun le_bytes :: "nat \<Rightarrow> int \<Rightarrow> string" where
  "le_bytes 0 n = []"
| "le_bytes (Suc k) n = char_of (nat (n mod 256)) # le_bytes k (n div 256)"

fun of_le_bytes :: "string \<Rightarrow> int" where
  "of_le_bytes [] = 0"
| "of_le_bytes (b # bs) = int (ccode b) + 256 * of_le_bytes bs"

definition ipc_init_image :: "int \<Rightarrow> string" where
  "ipc_init_image num_gpus = le_bytes 4 num_gpus"

definition ipc_init_value :: "string \<Rightarrow> int" where
  "ipc_init_value bs = (let v = of_le_bytes bs in if v < 2 ^ 31 then v else v - 2 ^ 32)"

text \<open>The write loop is that of \<open>conn_write_all\<close>.\<close>

definition write_ipc_init :: "int \<Rightarrow> io_result list \<Rightarrow> string \<times> int option" where
  "write_ipc_init num_gpus rs = (case conn_write_all (ipc_init_image num_gpus) rs of (out, ret, rest) \<Rightarrow> (out, ret))"

record parent_t =
  p_num_gpus :: int
  p_parent_fd :: int
  p_child_pid :: int
  p_fds :: "int set"
  p_running :: bool

record spawn_env =
  se_pair :: "(int \<times> int) option"
  se_writes :: "io_result list"
  se_fork :: "int option"

text \<open>The parent's side; \<open>None\<close> while the write to the new socket has not returned.\<close>

definition spawn_http_child :: "spawn_env \<Rightarrow> parent_t \<Rightarrow> (parent_t \<times> int) option" where
  "spawn_http_child e p =
     (case se_pair e of
        None \<Rightarrow> Some (p, - 1)
      | Some (fd0, fd1) \<Rightarrow>
          let fds = insert fd0 (insert fd1 (p_fds p))
          in case snd (write_ipc_init (p_num_gpus p) (se_writes e)) of
            None \<Rightarrow> None
          | Some r \<Rightarrow>
              if r < 0 then Some (p\<lparr>p_fds := fds - {fd0} - {fd1}\<rparr>, - 1)
              else case se_fork e of
                None \<Rightarrow> Some (p\<lparr>p_fds := fds - {fd0} - {fd1}\<rparr>, - 1)
              | Some pid \<Rightarrow>
                  let old_parent_fd = p_parent_fd p;
                      fds = fds - {fd1};
                      fds = (if old_parent_fd \<ge> 0 then fds - {old_parent_fd} else fds)
                  in Some (p\<lparr>p_parent_fd := fd0, p_child_pid := pid, p_fds := fds\<rparr>, 0))"

text \<open>The child's side: the descriptors it keeps, and what it does until it serves.\<close>

definition child_fds :: "int \<times> int \<Rightarrow> parent_t \<Rightarrow> int set" where
  "child_fds pair p =
     (case pair of (fd0, fd1) \<Rightarrow>
        let fds = insert fd0 (insert fd1 (p_fds p)) - {fd0}
        in if p_parent_fd p \<ge> 0 then fds - {p_parent_fd p} else fds)"

definition child_main ::
    "bool \<Rightarrow> tls_lib \<Rightarrow> priv_env \<Rightarrow> child_env \<Rightarrow> gpu_config_t \<Rightarrow> proc_t \<Rightarrow> proc_t \<times> child_start" where
  "child_main with_tls lib pe ce cfg proc =
     (if with_tls \<and> fst (http_child_tls_init lib cfg) < 0 then (proc, ChildExit 1)
      else case procpriv_child_setup pe proc of
        None \<Rightarrow> (proc, ChildExit 1)
      | Some proc \<Rightarrow> (proc, http_child_run ce cfg))"

section \<open>The monitor loop\<close>

definition monitor_pass :: "int \<Rightarrow> spawn_env \<Rightarrow> parent_t \<Rightarrow> parent_t option" where
  "monitor_pass dead e p =
     (if dead = p_child_pid p \<and> p_running p
      then (case spawn_http_child e p of
              None \<Rightarrow> None
            | Some (p, r) \<Rightarrow> Some (if r < 0 then p\<lparr>p_running := False\<rparr> else p))
      else Some p)"

text \<open>The kernel hands out descriptors that are not in use.\<close>

definition fresh_pair :: "spawn_env \<Rightarrow> parent_t \<Rightarrow> bool" where
  "fresh_pair e p \<longleftrightarrow>
     (case se_pair e of None \<Rightarrow> True | Some (a, b) \<Rightarrow> 0 \<le> a \<and> 0 \<le> b \<and> a \<noteq> b \<and> a \<notin> p_fds p \<and> b \<notin> p_fds p)"

inductive monitor_step :: "parent_t \<Rightarrow> parent_t \<Rightarrow> bool" where
  tick: "p_running p \<Longrightarrow> fresh_pair e p \<Longrightarrow> monitor_pass dead e p = Some p' \<Longrightarrow> monitor_step p p'"
| signal: "monitor_step p (p\<lparr>p_running := False\<rparr>)"

text \<open>The first child has been spawned by a parent without one.\<close>

definition monitor_init :: "parent_t \<Rightarrow> bool" where
  "monitor_init p \<longleftrightarrow>
     (\<exists>n e. let p0 = \<lparr>p_num_gpus = n, p_parent_fd = - 1, p_child_pid = - 1, p_fds = {}, p_running = True\<rparr>
            in fresh_pair e p0 \<and> spawn_http_child e p0 = Some (p, 0))"

text \<open>The loop over its passes: whether a signal came before the test or between the test and the
  check of the flag in the body, what \<open>waitpid\<close> returned and what the calls of a respawn return. The
  result is the state in which the loop ends, \<open>None\<close> while it runs.\<close>

record pass_env =
  pv_signal :: bool
  pv_late_signal :: bool
  pv_dead :: int
  pv_spawn :: spawn_env

definition sig_handler :: "bool \<Rightarrow> parent_t \<Rightarrow> parent_t" where
  "sig_handler raised p = (if raised then p\<lparr>p_running := False\<rparr> else p)"

fun monitor_loop :: "pass_env list \<Rightarrow> parent_t \<Rightarrow> parent_t option" where
  "monitor_loop [] p = None"
| "monitor_loop (v # vs) p =
     (let p = sig_handler (pv_signal v) p
      in if \<not> p_running p then Some p
         else case monitor_pass (pv_dead v) (pv_spawn v) (sig_handler (pv_late_signal v) p) of
           None \<Rightarrow> None
         | Some p \<Rightarrow> monitor_loop vs p)"

section \<open>Waiting for the first polls\<close>

text \<open>Each entry is what one test of the loop sees: the clock, the running flag and the ready flags. The
  result is the number of naps, \<open>None\<close> while the loop still waits.\<close>

fun startup_wait :: "u64 \<Rightarrow> (u64 \<times> bool \<times> bool list) list \<Rightarrow> nat option" where
  "startup_wait deadline_ms [] = None"
| "startup_wait deadline_ms ((now, running, ready) # tests) =
     (if now < deadline_ms \<and> running
      then (if list_all (\<lambda>r. r) ready then Some 0 else map_option Suc (startup_wait deadline_ms tests))
      else Some 0)"

definition startup_deadline :: "u64 \<Rightarrow> gpu_config_t \<Rightarrow> u64" where
  "startup_deadline now cfg = now + word_of_int (nvml_timeout_ms cfg) * 2"

section \<open>Shutdown\<close>

datatype main_event =
    EvNvmlLoad | EvNvmlUnload | EvNvmlInit | EvNvmlShutdown
  | EvDcgmLoad | EvDcgmUnload | EvDcgm dcgm_event
  | EvThread nat | EvStop nat | EvJoin nat
  | EvKill int | EvWait | EvNap
  | EvCloseFd int

fun wait_child :: "(nat \<Rightarrow> bool) \<Rightarrow> nat \<Rightarrow> nat \<Rightarrow> main_event list" where
  "wait_child reaped t 0 = []"
| "wait_child reaped t (Suc k) = EvWait # (if reaped t then [] else EvNap # wait_child reaped (Suc t) k)"

definition shutdown_all :: "(nat \<Rightarrow> bool) \<Rightarrow> exporter_t \<Rightarrow> parent_t \<Rightarrow> main_event list" where
  "shutdown_all reaped ex p =
     (let n = nat (p_num_gpus p)
      in map EvStop [0..<n] @ map EvJoin [0..<n] @
         (if p_child_pid p > 0 then EvKill (p_child_pid p) # wait_child reaped 0 30 @ [EvWait] else []) @
         (if p_parent_fd p \<ge> 0 then [EvCloseFd (p_parent_fd p)] else []) @
         (if e_baseline_inotify_fd ex \<ge> 0 then [EvCloseFd (e_baseline_inotify_fd ex)] else []) @
         [EvNvmlShutdown, EvNvmlUnload] @
         (if e_dcgm_available ex \<noteq> 0 then map EvDcgm (dcgm_teardown (e_dcgm_handle ex)) @ [EvDcgmUnload] else []))"

section \<open>The context of a GPU\<close>

text \<open>The identity queries. A query that writes into a buffer gets its size and its old contents and gives
  the return code and the new contents; a function of the table may be missing.\<close>

type_synonym text_query = "nat \<Rightarrow> string \<Rightarrow> int \<times> string"

record ident_env =
  id_serial :: "text_query option"
  id_uuid :: "text_query option"
  id_name :: "text_query option"
  id_gen_max :: "(int \<times> u32) option"
  id_width_max :: "(int \<times> u32) option"

text \<open>The sizes of the arrays in \<open>gpu_ctx_t\<close>.\<close>

definition SERIAL_SIZE :: nat where "SERIAL_SIZE = 32"
definition UUID_SIZE :: nat where "UUID_SIZE = 48"
definition MODEL_SIZE :: nat where "MODEL_SIZE = 64"
definition DRIVER_SIZE :: nat where "DRIVER_SIZE = 64"

definition fill :: "text_query option \<Rightarrow> nat \<Rightarrow> string \<Rightarrow> string" where
  "fill q n buf = (case q of None \<Rightarrow> buf | Some f \<Rightarrow> snd (f n buf))"

definition max_link :: "(int \<times> u32) option \<Rightarrow> int" where
  "max_link q = (case q of None \<Rightarrow> 0 | Some (ret, u) \<Rightarrow> if ret = 0 then sint u else 0)"

definition read_identity :: "ident_env \<Rightarrow> string \<times> gpu_identity_src_t" where
  "read_identity q =
     (case id_serial q of
        None \<Rightarrow> (fill (id_uuid q) SERIAL_SIZE [], GPU_IDENTITY_UUID)
      | Some f \<Rightarrow>
          (case f SERIAL_SIZE [] of (ret, buf) \<Rightarrow>
             if ret \<noteq> 0 then (fill (id_uuid q) SERIAL_SIZE buf, GPU_IDENTITY_UUID) else (buf, GPU_IDENTITY_SERIAL)))"

definition startup_baseline :: "(string \<Rightarrow> string option) \<Rightarrow> string \<Rightarrow> string \<Rightarrow> string \<Rightarrow> gpu_baseline_t" where
  "startup_baseline fopen dir serial driver_version =
     (let b = baseline_load fopen dir serial
      in if bl_available b \<and> bl_valid b
         then b\<lparr>bl_driver_mismatch := take 64 (bl_driver_version b) \<noteq> take 64 driver_version\<rparr> else b)"

text \<open>The loop body for GPU \<open>i\<close> on the zeroed context array.\<close>

definition init_ctx :: "gpu_config_t \<Rightarrow> (string \<Rightarrow> string option) \<Rightarrow> u64 \<Rightarrow> string \<Rightarrow> ident_env \<Rightarrow> int \<Rightarrow> gpu_ctx_t" where
  "init_ctx cfg fopen now_s driver_version q i =
     (let (serial, src) = read_identity q;
          driver = safe_strncpy [] driver_version DRIVER_SIZE
      in \<lparr>c_serial = serial, c_uuid = fill (id_uuid q) UUID_SIZE [], c_gpu_model = fill (id_name q) MODEL_SIZE [], c_driver_version = driver,
          c_gpu_index = i, c_identity_source = src, c_pcie_link_gen_max = max_link (id_gen_max q),
          c_pcie_link_width_max = max_link (id_width_max q),
          c_ring = \<lparr>samples = [], head = 0, rcount = 0, capacity = 0\<rparr>,
          c_state = zero_state\<lparr>st_board_power_w := Fin 0, st_energy_j := Fin 0, st_mem_bw_util_pct := Fin 0,
            st_fan_speed_pct := - 1\<rparr>,
          c_snapshot = zero_snapshot,
          c_baseline = startup_baseline fopen (baseline_dir cfg) serial driver,
          c_probe = probe_load fopen now_s (state_dir cfg) serial (probe_ttl_s cfg),
          c_ready = False, c_stop = False, c_gpu_present = True, c_gpu_available = True, c_consecutive_errors = 0,
          c_consecutive_hard_errors = 0, c_last_retry_ms = 0, c_collector_errors_total = 0\<rparr>)"

section \<open>Startup\<close>

datatype opt = OptC string | OptH | OptV | OptBad

fun parse_opts :: "string \<Rightarrow> opt list \<Rightarrow> int + string" where
  "parse_opts path [] = Inr path"
| "parse_opts path (OptC f # os) = parse_opts f os"
| "parse_opts path (OptH # os) = Inl 0"
| "parse_opts path (OptV # os) = Inl 0"
| "parse_opts path (OptBad # os) = Inl 1"

record main_env =
  me_opts :: "opt list"
  me_fopen :: "string \<Rightarrow> string option"
  me_getenv :: "string \<Rightarrow> string option"
  me_state_dir_ok :: bool
  me_nvml_load :: int
  me_nvml_init :: int
  me_dcgm_load :: int
  me_dcgm_init :: int
  me_count :: "int \<times> u32"
  me_calloc_gpus :: bool
  me_calloc_ids :: bool
  me_driver :: string
  me_now_s :: u64
  me_ident :: "nat \<Rightarrow> ident_env"
  me_inotify :: "int \<times> int"
  me_dcgm :: dcgm_vtable_t
  me_start :: "nat \<Rightarrow> bool \<times> bool \<times> bool"
  me_spawn :: spawn_env
  me_reaped :: "nat \<Rightarrow> bool"

record main_state =
  ms_ex :: exporter_t
  ms_ctxs :: "gpu_ctx_t list"
  ms_parent :: parent_t

datatype main_result = MainWait | MainExit int | MainRun main_state

text \<open>Loading DCGM: the events and the tentative availability \<open>-1\<close>.\<close>

definition load_dcgm :: "main_env \<Rightarrow> main_event list \<times> int" where
  "load_dcgm e =
     (if me_dcgm_load e \<noteq> 0 then ([], 0)
      else if me_dcgm_init e = 0 then ([EvDcgmLoad, EvDcgm EvInit], - 1)
      else ([EvDcgmLoad, EvDcgm EvInit, EvDcgmUnload], 0))"

definition connect_dcgm :: "main_env \<Rightarrow> int \<Rightarrow> nat \<Rightarrow> main_event list \<times> int \<times> int" where
  "connect_dcgm e available n =
     (if available = - 1
      then (case dcgm_setup (me_dcgm e) (map of_nat [0..<n]) of (evs, ret, h) \<Rightarrow>
              if ret = 0 then (map EvDcgm evs, 1, h) else (map EvDcgm evs @ [EvDcgmUnload], 0, h))
      else ([], available, 0))"

text \<open>A collector that cannot start is only marked ready.\<close>

definition start_collector :: "main_env \<Rightarrow> gpu_config_t \<Rightarrow> nat \<Rightarrow> gpu_ctx_t \<Rightarrow> gpu_ctx_t" where
  "start_collector e cfg i ctx =
     (case me_start e i of (ring_ok, args_ok, thread_ok) \<Rightarrow>
        case collector_start ring_ok args_ok thread_ok cfg ctx of (ctx, r) \<Rightarrow>
          if r < 0 then ctx\<lparr>c_ready := True\<rparr> else ctx)"

text \<open>From the enumerated GPUs to the running child.\<close>

definition main_gpus :: "main_env \<Rightarrow> gpu_config_t \<Rightarrow> int \<Rightarrow> nat \<Rightarrow> main_event list \<times> main_result" where
  "main_gpus e cfg dcgm n =
     (let driver = take 63 (me_driver e);
          ctxs = map (\<lambda>i. init_ctx cfg (me_fopen e) (me_now_s e) driver (me_ident e i) (int i)) [0..<n];
          (inotify_fd, shut) = baseline_inotify_init (fst (me_inotify e)) (snd (me_inotify e));
          (evs, dcgm, handle) = connect_dcgm e dcgm n;
          ex = \<lparr>e_cfg = cfg, e_dcgm_available = dcgm, e_dcgm_handle = handle, e_baseline_inotify_fd = inotify_fd\<rparr>;
          ctxs = map (\<lambda>(i, ctx). start_collector e cfg i ctx) (zip [0..<n] ctxs);
          evs = map EvCloseFd shut @ evs @ map EvThread (filter (\<lambda>i. me_start e i = (True, True, True)) [0..<n]);
          p0 = \<lparr>p_num_gpus = int n, p_parent_fd = - 1, p_child_pid = - 1, p_fds = {}, p_running = True\<rparr>
      in case spawn_http_child (me_spawn e) p0 of
           None \<Rightarrow> (evs, MainWait)
         | Some (p, r) \<Rightarrow>
             if r < 0 then (evs @ shutdown_all (me_reaped e) ex p, MainExit 1)
             else (evs, MainRun \<lparr>ms_ex = ex, ms_ctxs = ctxs, ms_parent = p\<rparr>))"

text \<open>A count that is negative as an \<open>int\<close> makes the array larger than any allocation.\<close>

definition main_startup :: "main_env \<Rightarrow> main_event list \<times> main_result" where
  "main_startup e =
     (case parse_opts ''/etc/gpu-health/gpu-health.conf'' (me_opts e) of
        Inl code \<Rightarrow> ([], MainExit code)
      | Inr path \<Rightarrow>
          (case config_load (me_fopen e) (me_getenv e) (Some path) of
             None \<Rightarrow> ([], MainExit 1)
           | Some cfg \<Rightarrow>
               if \<not> config_validate cfg then ([], MainExit 1)
               else if \<not> me_state_dir_ok e then ([], MainExit 1)
               else if me_nvml_load e < 0 then ([], MainExit 1)
               else if me_nvml_init e \<noteq> 0 then ([EvNvmlLoad, EvNvmlUnload], MainExit 1)
               else
                 let (dl, dcgm) = load_dcgm e;
                     evs = [EvNvmlLoad, EvNvmlInit] @ dl;
                     (ret, gpu_count) = me_count e
                 in if ret \<noteq> 0 \<or> gpu_count = 0 then (evs @ [EvNvmlShutdown, EvNvmlUnload], MainExit 1)
                    else if sint gpu_count < 0 \<or> \<not> me_calloc_gpus e then (evs @ [EvNvmlShutdown, EvNvmlUnload], MainExit 1)
                    else if \<not> me_calloc_ids e then (evs @ [EvNvmlShutdown, EvNvmlUnload], MainExit 1)
                    else case main_gpus e cfg dcgm (unat gpu_count) of (evs2, r) \<Rightarrow> (evs @ evs2, r)))"

section \<open>From the running child to the exit\<close>

record serve_env =
  sv_priv :: priv_env
  sv_proc :: proc_t
  sv_now_ms :: u64
  sv_tests :: "(u64 \<times> bool \<times> bool list) list"
  sv_notify :: "string option"
  sv_filesd :: filesd_env
  sv_fs :: file_system
  sv_passes :: "pass_env list"
  sv_unlink_ok :: bool
  sv_reaped :: "nat \<Rightarrow> bool"

text \<open>What the process has done when it returns: its privileges, the address it has notified, the files
  while it served and those it leaves, the events of the shutdown and the exit code.\<close>

record main_out =
  mo_proc :: proc_t
  mo_notified :: "string option"
  mo_files_up :: file_system
  mo_files_left :: file_system
  mo_events :: "main_event list"
  mo_code :: int

definition main_serve :: "serve_env \<Rightarrow> main_state \<Rightarrow> main_out option" where
  "main_serve v ms =
     (let cfg = e_cfg (ms_ex ms);
          proc = procpriv_parent_setup (sv_priv v) (sv_proc v)
      in case startup_wait (startup_deadline (sv_now_ms v) cfg) (sv_tests v) of
           None \<Rightarrow> None
         | Some naps \<Rightarrow>
             let notified = sd_notify_ready (sv_notify v);
                 files = last (filesd_write (sv_filesd v) cfg (sv_fs v))
             in case monitor_loop (sv_passes v) (ms_parent ms) of
                  None \<Rightarrow> None
                | Some p \<Rightarrow>
                    Some \<lparr>mo_proc = proc, mo_notified = notified, mo_files_up = files,
                          mo_files_left = filesd_remove (sv_unlink_ok v) cfg files,
                          mo_events = shutdown_all (sv_reaped v) (ms_ex ms) p, mo_code = 0\<rparr>)"

end
