(* ===== verification/MainProps.thy ===== *)
theory MainProps
  imports MainLoop
begin

text \<open>
  Properties of the parent process: the descriptors over any number of respawns, the cleanup on
  every exit of the startup, the start of the poll threads and of the confined child, the bounded
  waits, and the identity of a GPU.
\<close>

section \<open>Descriptors\<close>

definition fds_inv :: "parent_t \<Rightarrow> bool" where
  "fds_inv p \<longleftrightarrow> 0 \<le> p_parent_fd p \<and> p_fds p = {p_parent_fd p}"

lemma spawn_http_child_pair:
  assumes "se_pair e = Some (a, b)" "a \<noteq> b" "a \<notin> p_fds p" "b \<notin> p_fds p" "a \<noteq> p_parent_fd p"
  shows "spawn_http_child e p =
    (case snd (write_ipc_init (p_num_gpus p) (se_writes e)) of
       None \<Rightarrow> None
     | Some r \<Rightarrow>
         if r < 0 then Some (p, - 1)
         else case se_fork e of
           None \<Rightarrow> Some (p, - 1)
         | Some pid \<Rightarrow> Some (p\<lparr>p_parent_fd := a, p_child_pid := pid,
             p_fds := insert a (if p_parent_fd p \<ge> 0 then p_fds p - {p_parent_fd p} else p_fds p)\<rparr>, 0))"
proof -
  have "insert a (insert b (p_fds p)) - {a} - {b} = p_fds p" "insert a (insert b (p_fds p)) - {b} = insert a (p_fds p)"
    "insert a (p_fds p) - {p_parent_fd p} = insert a (p_fds p - {p_parent_fd p})"
    using assms(2-5) by auto
  then show ?thesis by (simp add: spawn_http_child_def assms(1) Let_def cong: option.case_cong if_cong)
qed

lemma spawn_http_child_cases:
  assumes "spawn_http_child e p = Some (p', r)" "fresh_pair e p" "p_parent_fd p < 0 \<or> p_parent_fd p \<in> p_fds p"
  shows "(r = - 1 \<and> p' = p) \<or>
    (\<exists>fd0 fd1 pid. se_pair e = Some (fd0, fd1) \<and> r = 0 \<and> se_fork e = Some pid \<and> 0 \<le> fd0 \<and>
       p' = p\<lparr>p_parent_fd := fd0, p_child_pid := pid,
              p_fds := insert fd0 (if p_parent_fd p \<ge> 0 then p_fds p - {p_parent_fd p} else p_fds p)\<rparr>)"
proof (cases "se_pair e")
  case None
  then show ?thesis using assms(1) by (simp add: spawn_http_child_def)
next
  case (Some pair)
  obtain a b where ab: "se_pair e = Some (a, b)" using Some by (cases pair) auto
  then have fr: "0 \<le> a" "a \<noteq> b" "a \<notin> p_fds p" "b \<notin> p_fds p" "a \<noteq> p_parent_fd p"
    using assms(2,3) by (auto simp: fresh_pair_def)
  show ?thesis using assms(1) ab fr(1) unfolding spawn_http_child_pair [OF ab fr(2-5)]
    by (auto split: option.splits if_splits)
qed

lemma spawn_http_child_num: "spawn_http_child e p = Some (p', r) \<Longrightarrow> p_num_gpus p' = p_num_gpus p"
  by (auto simp: spawn_http_child_def Let_def split: option.splits prod.splits if_splits)

lemma spawn_keeps_inv:
  assumes "spawn_http_child e p = Some (p', r)" "fresh_pair e p" "fds_inv p"
  shows "fds_inv p'"
  using spawn_http_child_cases [OF assms(1,2)] assms(3) by (auto simp: fds_inv_def)

interpretation mon: invariant_system monitor_init monitor_step fds_inv
proof unfold_locales
  fix p assume "monitor_init p"
  then obtain n e where e: "fresh_pair e \<lparr>p_num_gpus = n, p_parent_fd = - 1, p_child_pid = - 1, p_fds = {}, p_running = True\<rparr>"
    "spawn_http_child e \<lparr>p_num_gpus = n, p_parent_fd = - 1, p_child_pid = - 1, p_fds = {}, p_running = True\<rparr> = Some (p, 0)"
    by (auto simp: monitor_init_def Let_def)
  from spawn_http_child_cases [OF e(2,1)] show "fds_inv p" by (auto simp: fds_inv_def)
next
  fix p u assume inv: "fds_inv p" and "monitor_step p u"
  from this(2) show "fds_inv u"
  proof (cases rule: monitor_step.cases)
    case (tick e dead)
    then show ?thesis using inv spawn_keeps_inv [of e p]
      by (auto simp: monitor_pass_def fds_inv_def split: if_splits option.splits)
  next
    case signal
    then show ?thesis using inv by (simp add: fds_inv_def)
  qed
qed

text \<open>C33. No descriptor is ever leaked: whatever sequence of child deaths, failed and successful respawns
  and signals the parent goes through, exactly one socket is open in it, the one it sends snapshots to;
  and of the sockets a respawned child keeps only its own end of the new pair. Only the socket pairs are counted: the
  inotify descriptor, opened once before the first child, stays open in the parent and is inherited by every child.\<close>

theorem respawn_leaks_no_descriptor:
  assumes "reach monitor_init monitor_step p" "fresh_pair e p" "se_pair e = Some (fd0, fd1)"
  shows "p_fds p = {p_parent_fd p} \<and> 0 \<le> p_parent_fd p \<and> child_fds (fd0, fd1) p = {fd1}"
  using mon.reach_inv [OF assms(1)] assms(2,3) by (auto simp: fds_inv_def child_fds_def fresh_pair_def)

definition demo_spawn :: "int \<Rightarrow> int \<Rightarrow> int \<Rightarrow> spawn_env" where
  "demo_spawn a b pid = \<lparr>se_pair = Some (a, b), se_writes = [IoBytes 4], se_fork = Some pid\<rparr>"

definition demo_parent :: "int \<Rightarrow> int \<Rightarrow> parent_t" where
  "demo_parent fd pid = \<lparr>p_num_gpus = 1, p_parent_fd = fd, p_child_pid = pid, p_fds = {fd}, p_running = True\<rparr>"

lemma demo_image: "conn_write_all (ipc_init_image n) [IoBytes 4] = (ipc_init_image n, Some 0, [])"
proof -
  have len: "length (ipc_init_image n) = 4" by (simp add: ipc_init_image_def eval_nat_numeral)
  then obtain b bs where "ipc_init_image n = b # bs" by (cases "ipc_init_image n") auto
  then show ?thesis using len by simp
qed

lemma demo_spawn_result:
  "fds_inv p \<Longrightarrow> a \<noteq> b \<Longrightarrow> a \<noteq> p_parent_fd p \<Longrightarrow> b \<noteq> p_parent_fd p \<Longrightarrow>
   spawn_http_child (demo_spawn a b pid) p = Some (p\<lparr>p_parent_fd := a, p_child_pid := pid, p_fds := {a}\<rparr>, 0)"
  by (auto simp: spawn_http_child_def demo_spawn_def write_ipc_init_def demo_image fds_inv_def Let_def insert_Diff_if)

lemma demo_monitor_init: "monitor_init (demo_parent 5 100)"
proof -
  let ?p0 = "\<lparr>p_num_gpus = 1, p_parent_fd = - 1, p_child_pid = - 1, p_fds = {}, p_running = True\<rparr>"
  have "spawn_http_child (demo_spawn 5 6 100) ?p0 = Some (demo_parent 5 100, 0)"
    by (simp add: spawn_http_child_def demo_spawn_def write_ipc_init_def demo_image Let_def demo_parent_def insert_Diff_if)
  moreover have "fresh_pair (demo_spawn 5 6 100) ?p0" by (simp add: fresh_pair_def demo_spawn_def)
  ultimately show ?thesis unfolding monitor_init_def Let_def by blast
qed

theorem respawn_leaks_no_descriptor_witness:
  "reach monitor_init monitor_step (demo_parent 7 101) \<and> child_fds (8, 9) (demo_parent 7 101) = {9}"
proof -
  have "monitor_pass 100 (demo_spawn 7 8 101) (demo_parent 5 100) = Some (demo_parent 7 101)"
    using demo_spawn_result [of "demo_parent 5 100" 7 8 101] by (simp add: monitor_pass_def fds_inv_def demo_parent_def)
  moreover have "fresh_pair (demo_spawn 7 8 101) (demo_parent 5 100)"
    by (simp add: fresh_pair_def demo_spawn_def demo_parent_def)
  ultimately have r: "reach monitor_init monitor_step (demo_parent 7 101)"
    using reach_step [OF reach_init [where init = monitor_init, OF demo_monitor_init] monitor_step.tick]
    by (simp add: demo_parent_def)
  have "fresh_pair (demo_spawn 8 9 102) (demo_parent 7 101)" by (simp add: fresh_pair_def demo_spawn_def demo_parent_def)
  from respawn_leaks_no_descriptor [OF r this, of 8 9] show ?thesis using r by (simp add: demo_spawn_def)
qed

section \<open>The bounded waits\<close>

lemma wait_reaches_deadline:
  assumes "k < length tests" "\<not> fst (tests ! k) < deadline"
  shows "\<exists>n\<le>k. startup_wait deadline tests = Some n \<and>
    (case tests ! n of (now, running, ready) \<Rightarrow> \<not> (now < deadline \<and> running) \<or> list_all (\<lambda>r. r) ready)"
  using assms
proof (induction k arbitrary: tests)
  case 0
  then obtain now running ready ts where "tests = (now, running, ready) # ts" by (cases tests) auto
  with 0 show ?case by simp
next
  case (Suc k)
  then obtain now running ready ts where t: "tests = (now, running, ready) # ts" by (cases tests) auto
  show ?case
  proof (cases "now < deadline \<and> running \<and> \<not> list_all (\<lambda>r. r) ready")
    case True
    from Suc.IH [of ts] Suc.prems t obtain n where "n \<le> k" "startup_wait deadline ts = Some n"
      "case ts ! n of (now, running, ready) \<Rightarrow> \<not> (now < deadline \<and> running) \<or> list_all (\<lambda>r. r) ready" by auto
    then show ?thesis using True t by (intro exI [of _ "Suc n"]) simp
  next
    case False
    then show ?thesis using t by (intro exI [of _ 0]) auto
  qed
qed

text \<open>The startup never hangs on a GPU that does not answer: as soon as one test of the wait loop sees
  the clock at the deadline, the wait is over, after at most as many naps as tests went before; it
  ends earlier exactly when a test finds every GPU ready or the program stopping.\<close>

theorem startup_wait_ends:
  assumes "k < length tests" "\<not> fst (tests ! k) < deadline"
  shows "\<exists>n\<le>k. startup_wait deadline tests = Some n \<and>
    (case tests ! n of (now, running, ready) \<Rightarrow> \<not> (now < deadline \<and> running) \<or> list_all (\<lambda>r. r) ready)"
  by (rule wait_reaches_deadline [OF assms])

theorem startup_wait_ends_witness:
  "\<exists>n\<le>1. startup_wait 1000 [(900, True, [True, False]), (1000, True, [True, False])] = Some n"
  using startup_wait_ends [of 1 "[(900, True, [True, False]), (1000, True, [True, False])]" 1000] by auto

lemma wait_child_naps: "count_list (wait_child reaped t k) EvNap \<le> k"
  by (induction reaped t k rule: wait_child.induct) auto

lemma wait_child_events: "set (wait_child reaped t k) \<subseteq> {EvWait, EvNap}"
  by (induction reaped t k rule: wait_child.induct) auto

text \<open>The shutdown is bounded and ordered: it waits for the child at most 30 naps of 100 ms, it closes
  each of its descriptors once, and the driver library is shut down once, after every poll
  thread has been stopped and joined. It never sends a second signal to a child that does not exit.\<close>

theorem shutdown_bounded_and_ordered:
  "\<exists>before after. shutdown_all reaped ex p = before @ [EvNvmlShutdown, EvNvmlUnload] @ after \<and>
     list_all (\<lambda>i. EvStop i \<in> set before \<and> EvJoin i \<in> set before) [0..<nat (p_num_gpus p)] \<and>
     EvNvmlShutdown \<notin> set (before @ after) \<and> EvNvmlUnload \<notin> set (before @ after) \<and>
     count_list (shutdown_all reaped ex p) EvNap \<le> 30 \<and>
     count_list (shutdown_all reaped ex p) (EvKill (p_child_pid p)) = (if 0 < p_child_pid p then 1 else 0)"
proof -
  define waits where "waits = wait_child reaped 0 30"
  define before where "before = map EvStop [0..<nat (p_num_gpus p)] @ map EvJoin [0..<nat (p_num_gpus p)] @
    (if p_child_pid p > 0 then EvKill (p_child_pid p) # waits @ [EvWait] else []) @
    (if p_parent_fd p \<ge> 0 then [EvCloseFd (p_parent_fd p)] else []) @
    (if e_baseline_inotify_fd ex \<ge> 0 then [EvCloseFd (e_baseline_inotify_fd ex)] else [])"
  define after where "after = (if e_dcgm_available ex \<noteq> 0 then map EvDcgm (dcgm_teardown (e_dcgm_handle ex)) @ [EvDcgmUnload] else [])"
  have eq: "shutdown_all reaped ex p = before @ [EvNvmlShutdown, EvNvmlUnload] @ after"
    by (simp add: shutdown_all_def before_def after_def waits_def Let_def)
  have w: "set waits \<subseteq> {EvWait, EvNap}" by (simp add: waits_def wait_child_events)
  have none: "count_list (map EvStop xs) (EvKill i) = 0" "count_list (map EvJoin xs) (EvKill i) = 0"
    "count_list (map EvStop xs) EvNap = 0" "count_list (map EvJoin xs) EvNap = 0" "count_list waits (EvKill i) = 0" for xs i
    using w by (auto simp: count_list_0_iff)
  have "count_list waits EvNap \<le> 30" by (simp add: waits_def wait_child_naps)
  then have "count_list (before @ [EvNvmlShutdown, EvNvmlUnload] @ after) EvNap \<le> 30"
    "count_list (before @ [EvNvmlShutdown, EvNvmlUnload] @ after) (EvKill (p_child_pid p)) = (if 0 < p_child_pid p then 1 else 0)"
    by (simp_all add: before_def after_def none dcgm_teardown_def)
  moreover have "list_all (\<lambda>i. EvStop i \<in> set before \<and> EvJoin i \<in> set before) [0..<nat (p_num_gpus p)]"
    by (auto simp: before_def list_all_iff)
  moreover have "EvNvmlShutdown \<notin> set (before @ after)" "EvNvmlUnload \<notin> set (before @ after)"
    using w by (auto simp: before_def after_def)
  ultimately show ?thesis unfolding eq by blast
qed

section \<open>The exits of the startup\<close>

definition nvml_events :: "main_event set" where
  "nvml_events = {EvNvmlLoad, EvNvmlUnload, EvNvmlInit, EvNvmlShutdown}"

text \<open>The loads and the initialisations of the driver library are undone.\<close>

definition nvml_balanced :: "main_event list \<Rightarrow> bool" where
  "nvml_balanced evs \<longleftrightarrow> count_list evs EvNvmlLoad = count_list evs EvNvmlUnload \<and>
     count_list evs EvNvmlInit = count_list evs EvNvmlShutdown \<and> count_list evs EvNvmlShutdown \<le> 1"

lemma count_nvml_none: "set evs \<inter> nvml_events = {} \<Longrightarrow> x \<in> nvml_events \<Longrightarrow> count_list evs x = 0"
  by (auto simp: count_list_0_iff)

lemma shutdown_nvml:
  "count_list (shutdown_all reaped ex p) EvNvmlLoad = 0" "count_list (shutdown_all reaped ex p) EvNvmlInit = 0"
  "count_list (shutdown_all reaped ex p) EvNvmlShutdown = 1" "count_list (shutdown_all reaped ex p) EvNvmlUnload = 1"
proof -
  have m: "count_list (map EvStop xs) x = 0" "count_list (map EvJoin xs) x = 0" "count_list (map EvDcgm ds) x = 0"
    "count_list (wait_child reaped 0 30) x = 0" if "x \<in> nvml_events" for x xs ds
    using that wait_child_events [of reaped 0 30] by (auto simp: nvml_events_def count_list_0_iff)
  show "count_list (shutdown_all reaped ex p) EvNvmlLoad = 0" "count_list (shutdown_all reaped ex p) EvNvmlInit = 0"
    "count_list (shutdown_all reaped ex p) EvNvmlShutdown = 1" "count_list (shutdown_all reaped ex p) EvNvmlUnload = 1"
    by (simp_all add: shutdown_all_def m nvml_events_def Let_def)
qed

lemma load_dcgm_nvml: "set (fst (load_dcgm e)) \<inter> nvml_events = {}"
  by (auto simp: load_dcgm_def nvml_events_def)

lemma connect_dcgm_nvml: "set (fst (connect_dcgm e a n)) \<inter> nvml_events = {}"
  by (auto simp: connect_dcgm_def nvml_events_def split: prod.splits if_splits)

lemma main_gpus_exit:
  assumes "main_gpus e cfg dcgm n = (evs, r)"
  shows "(case r of MainExit c \<Rightarrow> c = 1 \<and> count_list evs EvNvmlShutdown = 1 \<and> count_list evs EvNvmlUnload = 1
       | _ \<Rightarrow> count_list evs EvNvmlShutdown = 0 \<and> count_list evs EvNvmlUnload = 0) \<and>
    count_list evs EvNvmlLoad = 0 \<and> count_list evs EvNvmlInit = 0"
proof -
  obtain fd shut where i: "baseline_inotify_init (fst (me_inotify e)) (snd (me_inotify e)) = (fd, shut)" by force
  obtain ev a h where c: "connect_dcgm e dcgm n = (ev, a, h)" by (cases "connect_dcgm e dcgm n") auto
  let ?started = "filter (\<lambda>i. me_start e i = (True, True, True)) [0..<n]"
  define pre where "pre = map EvCloseFd shut @ ev @ map EvThread ?started"
  have "set pre \<inter> nvml_events = {}"
    using connect_dcgm_nvml [of e dcgm n] by (auto simp: pre_def c nvml_events_def)
  note pre = count_nvml_none [OF this]
  let ?p0 = "\<lparr>p_num_gpus = int n, p_parent_fd = - 1, p_child_pid = - 1, p_fds = {}, p_running = True\<rparr>"
  show ?thesis
  proof (cases "spawn_http_child (me_spawn e) ?p0")
    case None
    then have "evs = pre" "r = MainWait" using assms by (auto simp: main_gpus_def i c Let_def pre_def)
    then show ?thesis using pre by (simp add: nvml_events_def)
  next
    case (Some pr)
    then obtain p q where pr: "spawn_http_child (me_spawn e) ?p0 = Some (p, q)" by (cases pr) auto
    show ?thesis
    proof (cases "q < 0")
      case True
      then obtain ex where "evs = pre @ shutdown_all (me_reaped e) ex p" "r = MainExit 1"
        using assms pr by (auto simp: main_gpus_def i c Let_def pre_def)
      then show ?thesis using pre by (simp add: nvml_events_def shutdown_nvml)
    next
      case False
      then obtain ms where "evs = pre" "r = MainRun ms" using assms pr by (auto simp: main_gpus_def i c Let_def pre_def)
      then show ?thesis using pre by (simp add: nvml_events_def)
    qed
  qed
qed

lemma parse_opts_exit: "parse_opts path os = Inl code \<Longrightarrow> code \<in> {0, 1}"
  by (induction path os rule: parse_opts.induct) auto

lemma main_startup_path:
  assumes "parse_opts ''/etc/gpu-health/gpu-health.conf'' (me_opts e) = Inr path"
    and "load_dcgm e = (dl, dcgm)" "me_count e = (ret, cnt)"
  shows "main_startup e =
    (case config_load (me_fopen e) (me_getenv e) (Some path) of
       None \<Rightarrow> ([], MainExit 1)
     | Some cfg \<Rightarrow>
         if \<not> config_validate cfg \<or> \<not> me_state_dir_ok e \<or> me_nvml_load e < 0 then ([], MainExit 1)
         else if me_nvml_init e \<noteq> 0 then ([EvNvmlLoad, EvNvmlUnload], MainExit 1)
         else if ret \<noteq> 0 \<or> cnt = 0 \<or> sint cnt < 0 \<or> \<not> me_calloc_gpus e \<or> \<not> me_calloc_ids e
         then ([EvNvmlLoad, EvNvmlInit] @ dl @ [EvNvmlShutdown, EvNvmlUnload], MainExit 1)
         else ([EvNvmlLoad, EvNvmlInit] @ dl @ fst (main_gpus e cfg dcgm (unat cnt)), snd (main_gpus e cfg dcgm (unat cnt))))"
  using assms by (auto simp: main_startup_def Let_def case_prod_unfold split: option.split)

text \<open>C34. Every exit of the startup leaves the driver library as it found it: whichever step fails, the
  exit code is 1 (0 or 1 for the options), each load of the library is paired with an unload, and it is
  shut down exactly when it was initialised, once.\<close>

theorem startup_exit_cleans_up:
  assumes "main_startup e = (evs, MainExit code)"
  shows "code \<in> {0, 1} \<and> nvml_balanced evs"
proof (cases "parse_opts ''/etc/gpu-health/gpu-health.conf'' (me_opts e)")
  case (Inl c)
  then show ?thesis using assms parse_opts_exit [OF Inl] by (simp add: main_startup_def nvml_balanced_def)
next
  case (Inr path)
  obtain dl dcgm where d: "load_dcgm e = (dl, dcgm)" by force
  obtain ret cnt where k: "me_count e = (ret, cnt)" by force
  have dl: "count_list dl x = 0" if "x \<in> nvml_events" for x
    using count_nvml_none [OF load_dcgm_nvml [of e] that] by (simp add: d)
  note path = main_startup_path [OF Inr d k] assms
  show ?thesis
  proof (cases "config_load (me_fopen e) (me_getenv e) (Some path)")
    case None
    then show ?thesis using path by (simp add: nvml_balanced_def)
  next
    case (Some cfg)
    let ?g = "main_gpus e cfg dcgm (unat cnt)"
    consider "code = 1" "evs = []" | "code = 1" "evs = [EvNvmlLoad, EvNvmlUnload]"
      | "code = 1" "evs = [EvNvmlLoad, EvNvmlInit] @ dl @ [EvNvmlShutdown, EvNvmlUnload]"
      | "snd ?g = MainExit code" "evs = [EvNvmlLoad, EvNvmlInit] @ dl @ fst ?g"
      using path unfolding Some by (simp split: if_splits)
    then show ?thesis
    proof cases
      case 4
      then show ?thesis using main_gpus_exit [of e cfg dcgm "unat cnt", OF surjective_pairing]
        by (simp add: nvml_balanced_def dl nvml_events_def)
    qed (simp_all add: nvml_balanced_def dl nvml_events_def)
  qed
qed

definition copy_query :: "string \<Rightarrow> text_query" where
  "copy_query txt n buf = (if length txt < n then (0, txt) else (7, buf))"

definition demo_ident :: ident_env where
  "demo_ident = \<lparr>id_serial = Some (copy_query ''S1''), id_uuid = Some (copy_query ''U1''), id_name = None,
     id_gen_max = Some (0, 5), id_width_max = Some (3, 16)\<rparr>"

definition demo_main :: "u32 \<Rightarrow> main_env" where
  "demo_main n = \<lparr>me_opts = [OptC ''conf''], me_fopen = (\<lambda>f. if f = ''conf'' then Some []
       else if f = ''/var/run/gpu-health/S1.probe'' then Some demo_probe_file else None), me_getenv = (\<lambda>_. None),
     me_state_dir_ok = True, me_nvml_load = 0, me_nvml_init = 0, me_dcgm_load = 0, me_dcgm_init = 0, me_count = (0, n),
     me_calloc_gpus = True, me_calloc_ids = True, me_driver = ''550'', me_now_s = 1773584580, me_ident = (\<lambda>_. demo_ident),
     me_inotify = (3, 1), me_dcgm = demo_dcgm, me_start = (\<lambda>_. (True, True, True)), me_spawn = demo_spawn 5 6 100,
     me_reaped = (\<lambda>_. True)\<rparr>"

lemma demo_main_cfg:
  "config_load (me_fopen (demo_main n)) (me_getenv (demo_main n)) (Some ''conf'') = Some cfg_defaults" "config_validate cfg_defaults"
  by (simp_all add: demo_main_def config_load_assigns file_assigns_def fgets_lines.simps env_assigns_def List.map_filter_def
      config_validate_def cfg_defaults_def default_doubles)

theorem startup_exit_cleans_up_witness:
  "\<exists>evs. main_startup (demo_main 0) = (evs, MainExit 1) \<and> nvml_balanced evs"
proof -
  obtain evs where e: "main_startup (demo_main 0) = (evs, MainExit 1)"
    using demo_main_cfg(1) [of 0] demo_main_cfg(2) by (auto simp: main_startup_def load_dcgm_def Let_def demo_main_def)
  from startup_exit_cleans_up [OF e] e show ?thesis by blast
qed

section \<open>From the startup to the threads and the child\<close>

lemma start_collector_init:
  assumes "me_start e i = (True, True, True)" "e_cfg ex = cfg"
  shows "poll_init ex \<lparr>t_ctx = start_collector e cfg i ctx, t_running = True, t_sent = []\<rparr> \<and>
    c_gpu_index (start_collector e cfg i ctx) = c_gpu_index ctx \<and> c_serial (start_collector e cfg i ctx) = c_serial ctx"
  using assms by (auto simp: poll_init_def start_collector_def collector_start_def Let_def)

lemma init_ctx_identity:
  "c_gpu_index (init_ctx cfg fopen now d q i) = i" "c_serial (init_ctx cfg fopen now d q i) = fst (read_identity q)"
  by (simp_all add: init_ctx_def Let_def split: prod.splits)

lemma start_collector_identity:
  "c_gpu_index (start_collector e cfg i ctx) = c_gpu_index ctx" "c_serial (start_collector e cfg i ctx) = c_serial ctx"
  "c_uuid (start_collector e cfg i ctx) = c_uuid ctx" "c_gpu_model (start_collector e cfg i ctx) = c_gpu_model ctx"
  "c_driver_version (start_collector e cfg i ctx) = c_driver_version ctx"
  "c_baseline (start_collector e cfg i ctx) = c_baseline ctx" "c_probe (start_collector e cfg i ctx) = c_probe ctx"
  by (simp_all add: start_collector_def collector_start_def Let_def split: prod.splits)

lemma count_in_int_range: "0 \<le> sint (u :: u32) \<Longrightarrow> int (unat u) < 2 ^ 31"
proof -
  assume "0 \<le> sint u"
  moreover have "take_bit 32 (uint u) = uint u" using uint_lt2p [of u] by (simp add: take_bit_int_eq_self)
  then have "sint u = uint u - 2 ^ 32 * of_bool (bit (uint u) 31)"
    by (simp add: sint_uint signed_take_bit_eq_take_bit_minus)
  ultimately have "sint u = uint u" using uint_lt2p [of u] by (cases "bit (uint u) 31") simp_all
  then show ?thesis using sint_lt [of u] by simp
qed

text \<open>What a startup that succeeds leaves: the contexts of all GPUs, in their order, and a parent with
  one child for them.\<close>

lemma startup_run:
  assumes "main_startup e = (evs, MainRun ms)"
  defines "cfg \<equiv> e_cfg (ms_ex ms)" and "n \<equiv> length (ms_ctxs ms)"
  defines "p0 \<equiv> \<lparr>p_num_gpus = int n, p_parent_fd = - 1, p_child_pid = - 1, p_fds = {}, p_running = True\<rparr>"
  shows "(\<exists>path. config_load (me_fopen e) (me_getenv e) (Some path) = Some cfg) \<and> config_validate cfg \<and>
    n = unat (snd (me_count e)) \<and> 0 < n \<and> int n < 2 ^ 31 \<and>
    (\<exists>r. spawn_http_child (me_spawn e) p0 = Some (ms_parent ms, r) \<and> \<not> r < 0) \<and> p_num_gpus (ms_parent ms) = int n \<and>
    (\<forall>i<n. ms_ctxs ms ! i = start_collector e cfg i
       (init_ctx cfg (me_fopen e) (me_now_s e) (take 63 (me_driver e)) (me_ident e i) (int i)))"
proof -
  obtain dl dcgm where d: "load_dcgm e = (dl, dcgm)" by force
  obtain ret cnt where k: "me_count e = (ret, cnt)" by force
  obtain path cfg' evs2 where c: "config_load (me_fopen e) (me_getenv e) (Some path) = Some cfg'" "config_validate cfg'"
    "cnt \<noteq> 0" "\<not> sint cnt < 0" "main_gpus e cfg' dcgm (unat cnt) = (evs2, MainRun ms)"
  proof -
    obtain path where po: "parse_opts ''/etc/gpu-health/gpu-health.conf'' (me_opts e) = Inr path"
      using assms(1) by (auto simp: main_startup_def split: sum.splits)
    show thesis using assms(1) that [OF _ _ _ _ prod_eqI] unfolding main_startup_path [OF po d k]
      by (auto split: option.splits if_splits)
  qed
  let ?n = "unat cnt"
  obtain fd shut where i: "baseline_inotify_init (fst (me_inotify e)) (snd (me_inotify e)) = (fd, shut)" by force
  obtain ev av h where cd: "connect_dcgm e dcgm ?n = (ev, av, h)" by (cases "connect_dcgm e dcgm ?n") auto
  define ini where "ini = (\<lambda>i. init_ctx cfg' (me_fopen e) (me_now_s e) (take 63 (me_driver e)) (me_ident e i) (int i))"
  obtain p r where sp: "spawn_http_child (me_spawn e)
      \<lparr>p_num_gpus = int ?n, p_parent_fd = - 1, p_child_pid = - 1, p_fds = {}, p_running = True\<rparr> = Some (p, r)" and r: "\<not> r < 0" and
    ms: "ms = \<lparr>ms_ex = \<lparr>e_cfg = cfg', e_dcgm_available = av, e_dcgm_handle = h, e_baseline_inotify_fd = fd\<rparr>,
      ms_ctxs = map (\<lambda>(i, ctx). start_collector e cfg' i ctx) (zip [0..<?n] (map ini [0..<?n])), ms_parent = p\<rparr>"
    using c(5) by (auto simp: main_gpus_def i cd Let_def ini_def split: option.splits prod.splits if_splits)
  have n: "n = ?n" "cfg = cfg'" by (simp_all add: n_def cfg_def ms)
  have "int ?n < 2 ^ 31"
    using c(4) by (intro count_in_int_range) simp
  moreover have "p_num_gpus p = int ?n" using spawn_http_child_num [OF sp] by simp
  moreover have "0 < ?n" using c(3) by (simp add: unat_gt_0)
  ultimately show ?thesis using c(1,2) sp r by (auto simp: n k p0_def ms ini_def)
qed

text \<open>A startup that succeeds hands over to the models of the other parts: the configuration is a loaded
  and validated one, every collector that could be started is an initial state of the poll thread
  with the index of its GPU and the identity that was read for it, and the parent is an
  initial state of the monitor loop, with one child and one socket.\<close>

theorem startup_hands_over:
  assumes "main_startup e = (evs, MainRun ms)" "se_pair (me_spawn e) = Some (a, b)" "0 \<le> a" "0 \<le> b" "a \<noteq> b"
  shows "(\<exists>path. config_load (me_fopen e) (me_getenv e) (Some path) = Some (e_cfg (ms_ex ms))) \<and> config_validate (e_cfg (ms_ex ms)) \<and>
    length (ms_ctxs ms) = unat (snd (me_count e)) \<and> 0 < length (ms_ctxs ms) \<and> monitor_init (ms_parent ms) \<and>
    list_all (\<lambda>i. me_start e i = (True, True, True) \<longrightarrow>
        poll_init (ms_ex ms) \<lparr>t_ctx = ms_ctxs ms ! i, t_running = True, t_sent = []\<rparr> \<and>
        c_gpu_index (ms_ctxs ms ! i) = int i \<and> c_serial (ms_ctxs ms ! i) = fst (read_identity (me_ident e i)))
      [0..<length (ms_ctxs ms)]"
proof -
  note run = startup_run [OF assms(1)]
  let ?p0 = "\<lparr>p_num_gpus = int (length (ms_ctxs ms)), p_parent_fd = - 1, p_child_pid = - 1, p_fds = {}, p_running = True\<rparr>"
  obtain r where sp: "spawn_http_child (me_spawn e) ?p0 = Some (ms_parent ms, r)" "\<not> r < 0" using run by blast
  have fresh: "fresh_pair (me_spawn e) ?p0" using assms(2-5) by (simp add: fresh_pair_def)
  have "r = 0" using spawn_http_child_cases [OF sp(1) fresh] sp(2) by auto
  then have "monitor_init (ms_parent ms)" using sp fresh unfolding monitor_init_def Let_def by blast
  then show ?thesis using run start_collector_init [of e _ "ms_ex ms" "e_cfg (ms_ex ms)"]
    by (auto simp: list_all_iff start_collector_identity init_ctx_identity simp del: length_greater_0_conv)
qed

lemma demo_main_run:
  "\<exists>evs ms. main_startup (demo_main 1) = (evs, MainRun ms) \<and> e_cfg (ms_ex ms) = cfg_defaults"
proof -
  have "\<exists>evs ms. main_gpus (demo_main 1) cfg_defaults (- 1) 1 = (evs, MainRun ms) \<and> e_cfg (ms_ex ms) = cfg_defaults"
    by (simp add: main_gpus_def demo_main_def demo_spawn_def spawn_http_child_def write_ipc_init_def demo_image Let_def
        split: prod.splits)
  then show ?thesis
    using demo_main_cfg(1) [of 1] demo_main_cfg(2) by (auto simp: main_startup_def load_dcgm_def Let_def demo_main_def)
qed

theorem startup_hands_over_witness:
  "\<exists>evs ms. main_startup (demo_main 1) = (evs, MainRun ms) \<and> c_serial (ms_ctxs ms ! 0) = ''S1''"
proof -
  obtain evs ms where r: "main_startup (demo_main 1) = (evs, MainRun ms)" using demo_main_run by blast
  have "se_pair (me_spawn (demo_main 1)) = Some (5, 6)" by (simp add: demo_main_def demo_spawn_def)
  note h = startup_hands_over [OF r this]
  have "length (ms_ctxs ms) = 1" using h by (simp add: demo_main_def)
  moreover have "read_identity (me_ident (demo_main 1) 0) = (''S1'', GPU_IDENTITY_SERIAL)"
    by (simp add: read_identity_def demo_main_def demo_ident_def copy_query_def SERIAL_SIZE_def)
  moreover have "me_start (demo_main 1) 0 = (True, True, True)" by (simp add: demo_main_def)
  ultimately show ?thesis using h r by auto
qed

section \<open>The way to the exit\<close>

lemma main_startup_run_nvml:
  assumes "main_startup e = (evs, MainRun ms)"
  shows "count_list evs EvNvmlLoad = 1 \<and> count_list evs EvNvmlInit = 1 \<and>
    count_list evs EvNvmlShutdown = 0 \<and> count_list evs EvNvmlUnload = 0"
proof -
  obtain dl dcgm where d: "load_dcgm e = (dl, dcgm)" by force
  obtain ret cnt where k: "me_count e = (ret, cnt)" by force
  obtain path where po: "parse_opts ''/etc/gpu-health/gpu-health.conf'' (me_opts e) = Inr path"
    using assms by (auto simp: main_startup_def split: sum.splits)
  obtain cfg where "snd (main_gpus e cfg dcgm (unat cnt)) = MainRun ms"
    "evs = [EvNvmlLoad, EvNvmlInit] @ dl @ fst (main_gpus e cfg dcgm (unat cnt))"
    using assms unfolding main_startup_path [OF po d k] by (auto split: option.splits if_splits)
  moreover have "count_list dl x = 0" if "x \<in> nvml_events" for x
    using count_nvml_none [OF load_dcgm_nvml [of e] that] by (simp add: d)
  ultimately show ?thesis using main_gpus_exit [of e cfg dcgm "unat cnt", OF surjective_pairing]
    by (simp add: nvml_events_def)
qed

text \<open>Respawns of the child keep the number of GPUs and return when the write of the init message does.\<close>

definition spawn_returns :: "int \<Rightarrow> spawn_env \<Rightarrow> bool" where
  "spawn_returns n e \<longleftrightarrow> snd (write_ipc_init n (se_writes e)) \<noteq> None"

lemma sig_handler_num [simp]: "p_num_gpus (sig_handler b p) = p_num_gpus p"
  by (simp add: sig_handler_def)

lemma monitor_pass_num: "monitor_pass dead e p = Some p' \<Longrightarrow> p_num_gpus p' = p_num_gpus p"
  by (auto simp: monitor_pass_def spawn_http_child_num split: option.splits prod.splits if_splits)

lemma monitor_pass_returns:
  assumes "spawn_returns (p_num_gpus p) e"
  shows "\<exists>u. monitor_pass dead e p = Some u \<and> p_num_gpus u = p_num_gpus p"
proof -
  have "\<exists>u r. spawn_http_child e p = Some (u, r) \<and> p_num_gpus u = p_num_gpus p"
    using assms by (auto simp: spawn_http_child_def spawn_returns_def Let_def split: option.split prod.split)
  then show ?thesis by (auto simp: monitor_pass_def)
qed

lemma monitor_loop_ends:
  assumes "k < length vs" "pv_signal (vs ! k)" "list_all (\<lambda>v. spawn_returns (p_num_gpus p) (pv_spawn v)) vs"
  shows "\<exists>u. monitor_loop vs p = Some u \<and> p_num_gpus u = p_num_gpus p \<and> \<not> p_running u"
  using assms
proof (induction vs arbitrary: p k)
  case (Cons v vs)
  show ?case
  proof (cases "p_running (sig_handler (pv_signal v) p)")
    case True
    then have "\<not> pv_signal v" by (auto simp: sig_handler_def)
    then obtain j where k: "k = Suc j" using Cons.prems(2) by (cases k) auto
    obtain u where u: "monitor_pass (pv_dead v) (pv_spawn v) (sig_handler (pv_late_signal v) (sig_handler (pv_signal v) p)) = Some u"
      "p_num_gpus u = p_num_gpus p"
      using monitor_pass_returns [of "sig_handler (pv_late_signal v) (sig_handler (pv_signal v) p)" "pv_spawn v" "pv_dead v"]
        Cons.prems(3) by auto
    from Cons.IH [of j u] Cons.prems k u(2) obtain w where "monitor_loop vs u = Some w" "p_num_gpus w = p_num_gpus p" "\<not> p_running w"
      by auto
    then show ?thesis using True u by (simp add: Let_def)
  qed (auto simp: Let_def)
qed simp

text \<open>C11. The program stops when it is told to: once it runs, when the clock reaches the startup deadline
  and a signal arrives at some pass of the monitor loop, main returns 0, whatever children have died and
  been respawned before. By then every poll thread has been stopped and joined, the
  driver library has been shut down and unloaded exactly once over the whole run, and the target
  file is gone.\<close>

theorem main_stops_when_told:
  assumes "main_startup e = (evs, MainRun ms)"
    and "i < length (sv_tests v)" "\<not> fst (sv_tests v ! i) < startup_deadline (sv_now_ms v) (e_cfg (ms_ex ms))"
    and "k < length (sv_passes v)" "pv_signal (sv_passes v ! k)"
    and "list_all (\<lambda>w. spawn_returns (p_num_gpus (ms_parent ms)) (pv_spawn w)) (sv_passes v)"
    and "file_sd_path (e_cfg (ms_ex ms)) \<noteq> []" "sv_unlink_ok v"
  shows "\<exists>out. main_serve v ms = Some out \<and> mo_code out = 0 \<and> nvml_balanced (evs @ mo_events out) \<and>
    list_all (\<lambda>g. EvStop g \<in> set (mo_events out) \<and> EvJoin g \<in> set (mo_events out)) [0..<nat (p_num_gpus (ms_parent ms))] \<and>
    mo_files_left out (file_sd_path (e_cfg (ms_ex ms))) = None"
proof -
  obtain naps where w: "startup_wait (startup_deadline (sv_now_ms v) (e_cfg (ms_ex ms))) (sv_tests v) = Some naps"
    using wait_reaches_deadline [OF assms(2,3)] by blast
  obtain p where p: "monitor_loop (sv_passes v) (ms_parent ms) = Some p" "p_num_gpus p = p_num_gpus (ms_parent ms)"
    using monitor_loop_ends [OF assms(4-6)] by blast
  note sh = shutdown_nvml [of "sv_reaped v" "ms_ex ms" p]
  have "nvml_balanced (evs @ shutdown_all (sv_reaped v) (ms_ex ms) p)"
    using main_startup_run_nvml [OF assms(1)] sh by (simp add: nvml_balanced_def)
  moreover have "list_all (\<lambda>g. EvStop g \<in> set (shutdown_all (sv_reaped v) (ms_ex ms) p) \<and>
      EvJoin g \<in> set (shutdown_all (sv_reaped v) (ms_ex ms) p)) [0..<nat (p_num_gpus (ms_parent ms))]"
    by (auto simp: list_all_iff shutdown_all_def Let_def p(2))
  ultimately show ?thesis using assms(7,8) by (simp add: main_serve_def w p(1) filesd_remove_def Let_def)
qed

definition demo_sd_main :: main_env where
  "demo_sd_main = (demo_main 1)\<lparr>me_getenv := sd_env\<rparr>"

lemma demo_sd_cfg:
  "config_load (me_fopen demo_sd_main) (me_getenv demo_sd_main) (Some ''conf'') = Some sd_cfg" "config_validate sd_cfg"
  using sd_cfg_load by (simp_all add: demo_sd_main_def demo_main_def config_load_assigns file_assigns_def fgets_lines.simps
      config_validate_def cfg_defaults_def default_doubles sd_cfg_def)

definition demo_serve :: serve_env where
  "demo_serve = \<lparr>sv_priv = \<lparr>prctl_ok = True, capset_ok = True, seccomp_ok = True\<rparr>,
     sv_proc = \<lparr>no_new_privs = False, caps = {0}, seccomp_filter = None\<rparr>, sv_now_ms = 0,
     sv_tests = [(0, True, [False]), (- 1, True, [False])], sv_notify = None, sv_filesd = sd_ok, sv_fs = Map.empty,
     sv_passes = [\<lparr>pv_signal = False, pv_late_signal = False, pv_dead = 100, pv_spawn = demo_spawn 7 8 101\<rparr>,
       \<lparr>pv_signal = True, pv_late_signal = False, pv_dead = 0, pv_spawn = demo_spawn 9 10 102\<rparr>],
     sv_unlink_ok = True, sv_reaped = (\<lambda>_. True)\<rparr>"

theorem main_stops_when_told_witness:
  "\<exists>evs ms out. main_startup demo_sd_main = (evs, MainRun ms) \<and> main_serve demo_serve ms = Some out \<and> mo_code out = 0 \<and>
     nvml_balanced (evs @ mo_events out) \<and> mo_files_left out ''/sd/gpu.json'' = None"
proof -
  have "\<exists>evs ms. main_gpus demo_sd_main sd_cfg (- 1) 1 = (evs, MainRun ms) \<and> e_cfg (ms_ex ms) = sd_cfg"
    by (simp add: main_gpus_def demo_sd_main_def demo_main_def demo_spawn_def spawn_http_child_def write_ipc_init_def
        demo_image Let_def split: prod.splits)
  then obtain evs ms where r: "main_startup demo_sd_main = (evs, MainRun ms)" and cfg: "e_cfg (ms_ex ms) = sd_cfg"
    using demo_sd_cfg by (auto simp: main_startup_def load_dcgm_def Let_def demo_sd_main_def demo_main_def)
  have "\<not> fst (sv_tests demo_serve ! 1) < startup_deadline (sv_now_ms demo_serve) (e_cfg (ms_ex ms))"
    by (simp add: demo_serve_def)
  moreover have "list_all (\<lambda>w. spawn_returns (p_num_gpus (ms_parent ms)) (pv_spawn w)) (sv_passes demo_serve)"
    by (simp add: demo_serve_def demo_spawn_def spawn_returns_def write_ipc_init_def demo_image)
  moreover have "file_sd_path (e_cfg (ms_ex ms)) = ''/sd/gpu.json''" by (simp add: cfg sd_cfg_def)
  ultimately show ?thesis
    using main_stops_when_told [OF r, of 1 demo_serve 1] r by (auto simp: demo_serve_def)
qed

text \<open>C32. A child that reaches its accept loop is confined and configured: its filter kills every call off
  the list, its slots match the number of GPUs it was told, TLS is on when it was built in and a
  certificate is configured, and the listening socket is open.\<close>

theorem child_serves_confined:
  assumes "child_main with_tls lib pe ce cfg proc = (proc', ChildServe st fd)"
    and "sd_nr d \<notin> set (map nr_of allowed_syscalls)"
  shows "verdict proc' d = Some SECCOMP_RET_KILL_PROCESS \<and> child_init cfg st \<and> g_num_gpus st = ch_num_gpus ce \<and> 0 \<le> fd \<and>
    (with_tls \<and> tls_cert_path cfg \<noteq> [] \<longrightarrow> http_child_tls_init lib cfg = (0, True))"
proof -
  obtain p where s: "procpriv_child_setup pe proc = Some p" "p = proc'" and run: "http_child_run ce cfg = ChildServe st fd"
    and tls: "\<not> (with_tls \<and> fst (http_child_tls_init lib cfg) < 0)"
    using assms(1) by (auto simp: child_main_def split: if_splits option.splits)
  have "verdict proc' d = Some SECCOMP_RET_KILL_PROCESS"
    using s assms(2) by (auto simp: procpriv_child_setup_def install_child_seccomp_def drop_all_caps_def set_no_new_privs_def
        verdict_def child_filter_run Let_def split: if_splits)
  moreover have "child_init cfg st \<and> g_num_gpus st = ch_num_gpus ce \<and> 0 \<le> fd"
    using run by (auto simp: http_child_run_def child_init_def http_start_def split: option.splits bool.splits if_splits prod.splits)
  moreover have "http_child_tls_init lib cfg = (0, True)" if "with_tls" "tls_cert_path cfg \<noteq> []"
    using tls that by (auto simp: http_child_tls_init_def split: if_splits)
  ultimately show ?thesis by blast
qed

theorem child_serves_confined_witness:
  "\<exists>proc' st. child_main False undefined \<lparr>prctl_ok = True, capset_ok = True, seccomp_ok = True\<rparr>
      \<lparr>ch_init_reads = [IoBytes 4], ch_num_gpus = 2, ch_calloc_ok = True, ch_malloc_ok = True, ch_thread_ok = True,
       ch_listen = \<lparr>le_socket = 7, le_aton_ok = True, le_bind = 0, le_listen = 0\<rparr>\<rparr> cfg_defaults
      \<lparr>no_new_privs = False, caps = {}, seccomp_filter = None\<rparr> = (proc', ChildServe st 7) \<and>
    verdict proc' \<lparr>sd_nr = nr_of NR_openat, sd_arch = AUDIT_ARCH_X86_64\<rparr> = Some SECCOMP_RET_KILL_PROCESS"
proof -
  let ?pe = "\<lparr>prctl_ok = True, capset_ok = True, seccomp_ok = True\<rparr>"
  let ?ce = "\<lparr>ch_init_reads = [IoBytes 4], ch_num_gpus = 2, ch_calloc_ok = True, ch_malloc_ok = True, ch_thread_ok = True,
       ch_listen = \<lparr>le_socket = 7, le_aton_ok = True, le_bind = 0, le_listen = 0\<rparr>\<rparr>"
  let ?proc = "\<lparr>no_new_privs = False, caps = {}, seccomp_filter = None\<rparr>"
  obtain proc' st where c: "child_main False undefined ?pe ?ce cfg_defaults ?proc = (proc', ChildServe st 7)"
    by (simp add: child_main_def procpriv_child_setup_def drop_all_caps_def install_child_seccomp_def http_child_run_def
        numeral_eq_Suc bind_listen_def)
  have "sd_nr \<lparr>sd_nr = nr_of NR_openat, sd_arch = AUDIT_ARCH_X86_64\<rparr> \<notin> set (map nr_of allowed_syscalls)"
    by (simp add: allowed_syscalls_def)
  from child_serves_confined [OF c this] c show ?thesis by blast
qed

section \<open>Messages at the start\<close>

lemma of_le_bytes: "of_le_bytes (le_bytes k n) = n mod 256 ^ k"
proof (induction k arbitrary: n)
  case (Suc k)
  have "n mod (256 * 256 ^ k) = 256 * (n div 256 mod 256 ^ k) + n mod 256" by (rule zmod_zmult2_eq) simp
  then show ?case using Suc [of "n div 256"] by (simp add: nat_less_iff)
qed simp

lemma signed_mod:
  assumes "- (2 ^ 31) \<le> (n :: int)" "n < 2 ^ 31"
  shows "(let v = n mod 2 ^ 32 in if v < 2 ^ 31 then v else v - 2 ^ 32) = n"
proof (cases "0 \<le> n")
  case False
  then have "(n + 2 ^ 32) mod 2 ^ 32 = n + 2 ^ 32" using assms by (intro mod_pos_pos_trivial) auto
  then show ?thesis using assms False by (simp add: Let_def)
qed (use assms in \<open>simp add: Let_def\<close>)

text \<open>The child reads the number of GPUs that the parent wrote.\<close>

lemma ipc_init_round_trip:
  assumes "- (2 ^ 31) \<le> n" "n < 2 ^ 31"
  shows "ipc_init_value (ipc_init_image n) = n"
  using signed_mod [OF assms] of_le_bytes [of 4 n] by (simp add: ipc_init_value_def ipc_init_image_def)

text \<open>An abstract socket is addressed with the whole zero-filled array, so its name gets trailing
  zeros and is not the name that was asked for.\<close>

lemma sd_notify_abstract_padded:
  assumes "length name < SUN_PATH_SIZE - 2"
  shows "\<exists>zeros. sd_notify_ready (Some (CHR ''@'' # name)) = Some (CHR 0x00 # name @ zeros) \<and> zeros \<noteq> []"
  using assms by (auto simp: sd_notify_ready_def zero_fill_def SUN_PATH_SIZE_def)

text \<open>A collector that could not be started is joined all the same.\<close>

lemma shutdown_joins_unstarted:
  "i < nat (p_num_gpus p) \<Longrightarrow> EvJoin i \<in> set (shutdown_all reaped ex p)"
  by (simp add: shutdown_all_def Let_def)

section \<open>The identity of a GPU\<close>

text \<open>A query that copies a text copies all of it, or fails and leaves the buffer alone when the text
  does not fit, as NVML documents for its string queries.\<close>

definition copies_text :: "text_query \<Rightarrow> string \<Rightarrow> bool" where
  "copies_text f txt \<longleftrightarrow>
     (\<forall>n buf. if length txt < n then f n buf = (0, txt) else fst (f n buf) \<noteq> 0 \<and> snd (f n buf) = buf)"

text \<open>The GPU reports no serial number, but has a UUID.\<close>

definition only_uuid :: "ident_env \<Rightarrow> string \<Rightarrow> bool" where
  "only_uuid q uuid \<longleftrightarrow>
     (case id_serial q of None \<Rightarrow> True | Some g \<Rightarrow> fst (g SERIAL_SIZE []) \<noteq> 0 \<and> snd (g SERIAL_SIZE []) = []) \<and>
     (\<exists>f. id_uuid q = Some f \<and> copies_text f uuid)"

lemma read_identity_only_uuid:
  assumes "only_uuid q uuid"
  shows "read_identity q = (if length uuid < SERIAL_SIZE then uuid else [], GPU_IDENTITY_UUID)"
proof -
  obtain f where f: "id_uuid q = Some f" "copies_text f uuid" using assms by (auto simp: only_uuid_def)
  then have "fill (id_uuid q) SERIAL_SIZE [] = (if length uuid < SERIAL_SIZE then uuid else [])"
    by (auto simp: fill_def copies_text_def)
  then show ?thesis using assms
    by (auto simp: read_identity_def only_uuid_def split: option.splits prod.splits)
qed

lemma init_ctx_uuid:
  assumes "only_uuid q uuid" "length uuid < UUID_SIZE"
  shows "c_uuid (init_ctx cfg fopen now d q i) = uuid"
  using assms by (auto simp: init_ctx_def fill_def only_uuid_def copies_text_def Let_def split: prod.splits)

text \<open>C16. The UUID cannot stand in for a missing serial number: a UUID of 32 or more characters (an NVIDIA
  UUID has 40) does not fit the serial buffer whose size the fallback passes, the failure is not
  looked at, and the program runs with an empty serial. Two such GPUs have the same identity, label and
  baseline, although their UUIDs differ.\<close>

theorem uuid_fallback_loses_identity:
  assumes "main_startup e = (evs, MainRun ms)" "i < length (ms_ctxs ms)" "j < length (ms_ctxs ms)"
    and "only_uuid (me_ident e i) u" "only_uuid (me_ident e j) v" "SERIAL_SIZE \<le> length u" "SERIAL_SIZE \<le> length v"
    and "length u < UUID_SIZE" "length v < UUID_SIZE"
  shows "c_serial (ms_ctxs ms ! i) = [] \<and> c_serial (ms_ctxs ms ! j) = [] \<and>
    c_uuid (ms_ctxs ms ! i) = u \<and> c_uuid (ms_ctxs ms ! j) = v \<and>
    c_baseline (ms_ctxs ms ! i) = c_baseline (ms_ctxs ms ! j)"
proof -
  let ?init = "\<lambda>k. init_ctx (e_cfg (ms_ex ms)) (me_fopen e) (me_now_s e) (take 63 (me_driver e)) (me_ident e k) (int k)"
  have ctx: "ms_ctxs ms ! k = start_collector e (e_cfg (ms_ex ms)) k (?init k)" if "k < length (ms_ctxs ms)" for k
    using startup_run [OF assms(1)] that by simp
  have "read_identity (me_ident e i) = ([], GPU_IDENTITY_UUID)" "read_identity (me_ident e j) = ([], GPU_IDENTITY_UUID)"
    using read_identity_only_uuid assms(4-7) by simp_all
  moreover from this have "c_baseline (?init i) = c_baseline (?init j)" by (simp add: init_ctx_def Let_def)
  ultimately show ?thesis using assms(2,3) init_ctx_uuid [OF assms(4,8)] init_ctx_uuid [OF assms(5,9)]
    by (simp add: ctx start_collector_identity init_ctx_identity)
qed

text \<open>Two GPUs without serial numbers.\<close>

definition demo_uuids :: main_env where
  "demo_uuids = (demo_main 2)\<lparr>me_ident := (\<lambda>i. demo_ident\<lparr>id_serial := None,
     id_uuid := Some (copy_query (''GPU-8c1cde1e-1d4f-2b7c-5f10-4c8e5d9d000'' @ fmt_u i))\<rparr>)\<rparr>"

theorem uuid_fallback_loses_identity_witness:
  "\<exists>evs ms. main_startup demo_uuids = (evs, MainRun ms) \<and> c_serial (ms_ctxs ms ! 0) = [] \<and> c_serial (ms_ctxs ms ! 1) = [] \<and>
     c_uuid (ms_ctxs ms ! 0) \<noteq> c_uuid (ms_ctxs ms ! 1)"
proof -
  let ?u = "\<lambda>i. ''GPU-8c1cde1e-1d4f-2b7c-5f10-4c8e5d9d000'' @ fmt_u i"
  have "\<exists>evs ms. main_gpus demo_uuids cfg_defaults (- 1) 2 = (evs, MainRun ms)"
    by (simp add: main_gpus_def demo_uuids_def demo_main_def demo_spawn_def spawn_http_child_def write_ipc_init_def
        demo_image Let_def split: prod.splits)
  then obtain evs ms where r: "main_startup demo_uuids = (evs, MainRun ms)"
    using demo_main_cfg(1) [of 2] demo_main_cfg(2)
    by (auto simp: main_startup_def load_dcgm_def Let_def demo_uuids_def demo_main_def)
  have n: "length (ms_ctxs ms) = 2" using startup_run [OF r] by (simp add: demo_uuids_def demo_main_def)
  have d: "fmt_u 0 = ''0''" "fmt_u (Suc 0) = ''1''" by code_simp+
  have q: "only_uuid (me_ident demo_uuids i) (?u i)" for i
    by (simp add: demo_uuids_def only_uuid_def copies_text_def copy_query_def)
  have len: "SERIAL_SIZE \<le> length (?u i)" "length (?u 0) < UUID_SIZE" "length (?u 1) < UUID_SIZE" for i
    by (simp_all add: SERIAL_SIZE_def UUID_SIZE_def d)
  from uuid_fallback_loses_identity [OF r _ _ q q len(1,1,2,3)] n r show ?thesis by (auto simp: d)
qed

text \<open>The strings of a context fit their arrays when the queries write no more than they are allowed.\<close>

definition keeps_size :: "text_query option \<Rightarrow> bool" where
  "keeps_size q \<longleftrightarrow> (\<forall>f n buf. q = Some f \<longrightarrow> length buf < n \<longrightarrow> length (snd (f n buf)) < n)"

definition ident_lib_ok :: "ident_env \<Rightarrow> bool" where
  "ident_lib_ok q \<longleftrightarrow> keeps_size (id_serial q) \<and> keeps_size (id_uuid q) \<and> keeps_size (id_name q)"

lemma fill_fits: "keeps_size q \<Longrightarrow> length buf < n \<Longrightarrow> length (fill q n buf) < n"
  by (auto simp: fill_def keeps_size_def split: option.splits)

lemma read_identity_fits:
  assumes "ident_lib_ok q"
  shows "length (fst (read_identity q)) < SERIAL_SIZE"
proof (cases "id_serial q")
  case None
  then show ?thesis using assms fill_fits [of "id_uuid q" "[]" SERIAL_SIZE]
    by (simp add: read_identity_def ident_lib_ok_def SERIAL_SIZE_def)
next
  case (Some f)
  obtain ret buf where f: "f SERIAL_SIZE [] = (ret, buf)" by force
  then have "length buf < SERIAL_SIZE" using assms Some fill_fits [of "id_serial q" "[]" SERIAL_SIZE]
    by (simp add: ident_lib_ok_def fill_def SERIAL_SIZE_def)
  then show ?thesis using assms Some f fill_fits [of "id_uuid q" buf SERIAL_SIZE]
    by (simp add: read_identity_def ident_lib_ok_def)
qed

lemma init_ctx_fits:
  assumes "ident_lib_ok q"
  shows "length (c_serial (init_ctx cfg fopen now d q i)) < SERIAL_SIZE"
    "length (c_uuid (init_ctx cfg fopen now d q i)) < UUID_SIZE"
    "length (c_gpu_model (init_ctx cfg fopen now d q i)) < MODEL_SIZE"
    "length (c_driver_version (init_ctx cfg fopen now d q i)) < DRIVER_SIZE"
  using assms read_identity_fits [OF assms] fill_fits [of "id_uuid q" "[]" UUID_SIZE] fill_fits [of "id_name q" "[]" MODEL_SIZE]
  by (cases "read_identity q"; simp add: init_ctx_def ident_lib_ok_def UUID_SIZE_def MODEL_SIZE_def DRIVER_SIZE_def
      safe_strncpy_def Let_def)+

end
