(* ===== verification/Page.thy ===== *)
theory Page
  imports Metrics "HOL-Library.Sublist"
begin

text \<open>
  The rendered page as text: its lines, the series that each line names, and the lines that are on the page
  whatever the buffer cuts off. The buffer cuts the page at 256 KB; the family of the score comes early enough
  to be complete for any number of GPUs that the child accepts.
\<close>

section \<open>Lines and series\<close>

text \<open>The complete lines of a text, without their newlines; \<open>cur\<close> is the line read so far.\<close>

fun split_lines :: "string \<Rightarrow> string \<Rightarrow> string list" where
  "split_lines cur [] = []"
| "split_lines cur (c # cs) = (if c = nl then cur # split_lines [] cs else split_lines (cur @ [c]) cs)"

definition sample_lines :: "string \<Rightarrow> string list" where
  "sample_lines txt = filter (\<lambda>l. l = [] \<or> hd l \<noteq> CHR 0x23) (split_lines [] txt)"

text \<open>The series of a line: the name of the metric and the value of its first label.\<close>

definition series_key :: "string \<Rightarrow> string \<times> string" where
  "series_key l =
     (takeWhile (\<lambda>c. c \<noteq> CHR ''{'') l, takeWhile (\<lambda>c. c \<noteq> CHR 0x22) (drop 1 (dropWhile (\<lambda>c. c \<noteq> CHR 0x22) l)))"

lemma split_lines_append: "split_lines cur (a @ nl # b) = split_lines cur (a @ [nl]) @ split_lines [] b"
  by (induction a arbitrary: cur) auto

lemma split_lines_line: "nl \<notin> set l \<Longrightarrow> split_lines cur (l @ [nl]) = [cur @ l]"
  by (induction l arbitrary: cur) auto

lemma split_lines_take: "prefix (split_lines cur (take k t)) (split_lines cur t)"
  by (induction t arbitrary: cur k) (auto simp: take_Cons split: nat.splits)

definition ends_line :: "string \<Rightarrow> bool" where
  "ends_line c \<longleftrightarrow> c \<noteq> [] \<and> last c = nl"

lemma ends_lineI [simp]: "ends_line (a @ [nl])"
  by (simp add: ends_line_def)

lemma split_lines_concat: "list_all ends_line cs \<Longrightarrow> split_lines [] (concat cs) = concat (map (split_lines []) cs)"
proof (induction cs)
  case (Cons c cs)
  then have c: "butlast c @ [nl] = c" using append_butlast_last_id [of c] by (simp add: ends_line_def)
  then have e: "c @ concat cs = butlast c @ nl # concat cs" by (metis append.assoc append_Cons append_Nil)
  have "split_lines [] (c @ concat cs) = split_lines [] c @ split_lines [] (concat cs)"
    using split_lines_append [of "[]" "butlast c" "concat cs"] unfolding c e .
  then show ?case using Cons by simp
qed simp

lemma sample_lines_concat: "list_all ends_line cs \<Longrightarrow> sample_lines (concat cs) = concat (map sample_lines cs)"
  by (simp add: sample_lines_def [abs_def] split_lines_concat filter_concat comp_def)

lemma prefix_sample_lines: "prefix (sample_lines (take k t)) (sample_lines t)"
proof -
  obtain zs where "split_lines [] t = split_lines [] (take k t) @ zs" using split_lines_take [of "[]" k t] by (auto simp: prefix_def)
  then show ?thesis by (simp add: sample_lines_def)
qed

section \<open>The chunks of the page\<close>

lemma header_ends: "ends_line (m_header n t h)"
  using ends_lineI [of "''# HELP '' @ n @ '' '' @ h @ [nl] @ ''# TYPE '' @ n @ '' '' @ t"] by (simp add: m_header_def)

lemma header_no_sample: "nl \<notin> set (n @ t @ h) \<Longrightarrow> sample_lines (m_header n t h) = []"
  using split_lines_append [of "[]" "''# HELP '' @ n @ '' '' @ h" "''# TYPE '' @ n @ '' '' @ t @ [nl]"]
    split_lines_line [of "''# HELP '' @ n @ '' '' @ h" "[]"] split_lines_line [of "''# TYPE '' @ n @ '' '' @ t" "[]"]
  by (simp add: sample_lines_def m_header_def)

definition name_ok :: "string \<Rightarrow> bool" where
  "name_ok n \<longleftrightarrow> n \<noteq> [] \<and> hd n \<noteq> CHR 0x23 \<and> nl \<notin> set n \<and> CHR ''{'' \<notin> set n \<and> CHR 0x22 \<notin> set n"

lemma families_names:
  "list_all (\<lambda>f. name_ok (fam_name f) \<and> nl \<notin> set (fam_type f @ fam_help f) \<and> fam_name f \<noteq> ''gpu_health_exporter_info'') metric_families"
  by (simp add: metric_families_def metric_groups name_ok_def)

text \<open>The labels of a snapshot that a line can carry: one line, and a serial number without a quotation mark.\<close>

definition page_labels :: "gpu_snapshot_t \<Rightarrow> bool" where
  "page_labels s \<longleftrightarrow> clean_labels s \<and> CHR 0x22 \<notin> set (sn_serial s)"

lemma label_key:
  "name_ok n \<Longrightarrow> CHR 0x22 \<notin> set (sn_serial s) \<Longrightarrow> series_key (label_open n s @ rest) = (n, sn_serial s)"
  by (simp add: series_key_def label_open_def name_ok_def takeWhile_append dropWhile_append takeWhile_eq_all_conv [THEN iffD2]
      dropWhile_eq_Nil_conv [THEN iffD2])

lemma family_line_sample:
  assumes "f \<in> set metric_families" "page_labels s" "fam_line f (fam_name f) s = Some l"
  shows "ends_line l \<and> map series_key (sample_lines l) = [(fam_name f, sn_serial s)]"
proof -
  have ok: "line_ok (fam_line f)" "name_ok (fam_name f)"
    using assms(1) families_line_ok families_names by (auto simp: list_all_iff)
  obtain rest where l: "l = (label_open (fam_name f) s @ rest) @ [nl]" and r: "nl \<notin> set rest"
    using ok(1) [unfolded line_ok_def, rule_format, OF _ assms(3)] assms(2) by (auto simp: page_labels_def)
  let ?t = "label_open (fam_name f) s @ rest"
  have "nl \<notin> set ?t" using r ok(2) assms(2) by (simp add: label_open_def name_ok_def page_labels_def clean_labels_def)
  moreover have "hd ?t \<noteq> CHR 0x23" "?t \<noteq> []" using ok(2) by (simp_all add: label_open_def name_ok_def)
  ultimately have "sample_lines l = [?t]" using split_lines_line [of ?t "[]"] unfolding l by (simp add: sample_lines_def)
  moreover have "ends_line l" unfolding l by (rule ends_lineI)
  ultimately show ?thesis using label_key [OF ok(2), of s rest] assms(2) by (simp add: page_labels_def)
qed

text \<open>What the page should name: the build once, and every family for every GPU that has reported, except the fan
  of a GPU that has none.\<close>

definition has_line :: "metric_family \<Rightarrow> http_slot_t \<Rightarrow> bool" where
  "has_line f sl \<longleftrightarrow> received sl \<and> \<not> (fam_name f = ''gpu_fan_speed_ratio'' \<and> sn_fan_speed_pct (snap sl) < 0)"

definition page_series :: "http_slot_t list \<Rightarrow> (string \<times> string) list" where
  "page_series slots =
     (''gpu_health_exporter_info'', ''0.1.0'') #
     concat (map (\<lambda>f. map (\<lambda>sl. (fam_name f, sn_serial (snap sl))) (filter (has_line f) slots)) metric_families)"

lemma family_chunks_series:
  assumes "f \<in> set metric_families" "list_all (\<lambda>sl. page_labels (snap sl)) (filter received slots)"
  shows "list_all ends_line (family_chunks slots f) \<and>
    concat (map (map series_key \<circ> sample_lines) (family_chunks slots f)) =
      map (\<lambda>sl. (fam_name f, sn_serial (snap sl))) (filter (has_line f) slots)"
proof -
  have none: "fam_line f (fam_name f) s = None \<longleftrightarrow> fam_name f = ''gpu_fan_speed_ratio'' \<and> sn_fan_speed_pct s < 0" for s
    using assms(1) families_total [of s] by (simp add: list_all_iff)
  have hdr: "sample_lines (m_header (fam_name f) (fam_type f) (fam_help f)) = []"
    using assms(1) families_names by (intro header_no_sample) (auto simp: list_all_iff name_ok_def)
  have "list_all ends_line (family_lines slots f) \<and>
    concat (map (map series_key \<circ> sample_lines) (family_lines slots f)) =
      map (\<lambda>sl. (fam_name f, sn_serial (snap sl))) (filter (has_line f) slots)"
    using assms(2)
  proof (induction slots)
    case (Cons sl slots)
    then show ?case using family_line_sample [OF assms(1), of "snap sl"] none [of "snap sl"]
      by (cases "fam_line f (fam_name f) (snap sl)")
        (auto simp: family_lines_def List.map_filter_def has_line_def split: if_splits)
  qed (simp add: family_lines_def List.map_filter_def)
  then show ?thesis using hdr header_ends by (simp add: family_chunks_def)
qed

lemma global_series:
  "list_all ends_line metrics_global \<and>
   concat (map (map series_key \<circ> sample_lines) metrics_global) = [(''gpu_health_exporter_info'', ''0.1.0'')]"
proof -
  have "ends_line (metrics_global ! 1)" by (simp add: metrics_global_def ends_line_def)
  moreover have "map series_key (sample_lines (metrics_global ! 1)) = [(''gpu_health_exporter_info'', ''0.1.0'')]"
    by (simp add: metrics_global_def sample_lines_def series_key_def)
  ultimately show ?thesis using header_ends header_no_sample by (simp add: metrics_global_def)
qed

lemma concat_maps: "concat (map g (concat (map h xs))) = concat (map (\<lambda>x. concat (map g (h x))) xs)"
  by (induction xs) simp_all

lemma whole_page_series:
  assumes "list_all (\<lambda>sl. page_labels (snap sl)) (filter received slots)"
  shows "map series_key (sample_lines (concat (metrics_chunks slots))) = page_series slots"
proof -
  have fam: "list_all ends_line (family_chunks slots f)"
    "concat (map (map series_key \<circ> sample_lines) (family_chunks slots f)) =
      map (\<lambda>sl. (fam_name f, sn_serial (snap sl))) (filter (has_line f) slots)" if "f \<in> set metric_families" for f
    using family_chunks_series [OF that assms] by blast+
  have ends: "list_all ends_line (metrics_chunks slots)"
    using fam(1) global_series by (auto simp: metrics_chunks_def list_all_iff)
  have "map series_key (concat (map sample_lines cs)) = concat (map (map series_key \<circ> sample_lines) cs)" for cs
    by (simp add: map_concat)
  then have "map series_key (sample_lines (concat (metrics_chunks slots))) =
      concat (map (map series_key \<circ> sample_lines) (metrics_chunks slots))"
    unfolding sample_lines_concat [OF ends] by simp
  also have "\<dots> = page_series slots" using fam(2) global_series
    by (simp add: metrics_chunks_def concat_maps page_series_def cong: map_cong)
  finally show ?thesis .
qed

lemma distinct_pairs:
  "distinct (map fam_name fs) \<Longrightarrow> (\<And>f. distinct (g f)) \<Longrightarrow> distinct (concat (map (\<lambda>f. map (Pair (fam_name f)) (g f)) fs))"
  by (induction fs) (auto simp: distinct_map inj_on_def)

lemma page_series_distinct:
  assumes "distinct (map (\<lambda>sl. sn_serial (snap sl)) (filter received slots))"
  shows "distinct (page_series slots)"
proof -
  let ?g = "\<lambda>f. map (\<lambda>sl. sn_serial (snap sl)) (filter (has_line f) slots)"
  have "filter (has_line f) slots = filter (has_line f) (filter received slots)" for f
    by (induction slots) (auto simp: has_line_def)
  then have "distinct (?g f)" for f using assms distinct_map_filter by metis
  from distinct_pairs [OF families_distinct this]
  have "distinct (concat (map (\<lambda>f. map (\<lambda>sl. (fam_name f, sn_serial (snap sl))) (filter (has_line f) slots)) metric_families))"
    by (simp add: comp_def)
  then show ?thesis using families_names by (auto simp: page_series_def list_all_iff)
qed

text \<open>C30. The page has one series per GPU and family, and each line is labelled with its own GPU: when the GPUs
  that have reported have distinct serial numbers, no two complete lines of the page that is sent name the same series,
  however the buffer cuts it. The series are, in order, the build information and for every family the serial
  numbers of the GPUs in their order, without the fan speed of a GPU that has no fan: all of them when
  the page fits the buffer, the first ones of them otherwise. This includes the families whose values come from DCGM:
  SPEC.md says that they are absent when DCGM is not available, but the code prints them with the value 0. The labels
  are printed as they are, so the serial numbers are taken to have no quotation mark or newline.\<close>

theorem metrics_one_series_per_gpu:
  assumes "list_all (\<lambda>sl. page_labels (snap sl)) (filter received slots)"
    and "distinct (map (\<lambda>sl. sn_serial (snap sl)) (filter received slots))"
    and "page = render_metrics True cap slots"
  shows "distinct (map series_key (sample_lines page)) \<and>
    prefix (map series_key (sample_lines page)) (page_series slots) \<and>
    (page = concat (metrics_chunks slots) \<and> map series_key (sample_lines page) = page_series slots \<or>
     length page = cap - 1 \<and> cap \<le> length (concat (metrics_chunks slots)))"
proof -
  let ?t = "concat (metrics_chunks slots)"
  have page: "page = take (cap - 1) ?t" by (simp add: assms(3) render_metrics_text)
  note whole = whole_page_series [OF assms(1)]
  have pre: "prefix (map series_key (sample_lines page)) (page_series slots)"
    unfolding page whole [symmetric] by (intro map_mono_prefix prefix_sample_lines)
  moreover have "distinct (map series_key (sample_lines page))"
    using pre page_series_distinct [OF assms(2)] by (auto simp: prefix_def)
  moreover have "page = ?t \<and> map series_key (sample_lines page) = page_series slots \<or> length page = cap - 1 \<and> cap \<le> length ?t"
    using whole by (cases "length ?t \<le> cap - 1") (auto simp: page)
  ultimately show ?thesis by blast
qed

definition demo_pair :: "http_slot_t list" where
  "demo_pair = map (\<lambda>k. \<lparr>snap = zero_snapshot\<lparr>sn_serial := k\<rparr>, received = True\<rparr>) [''S0'', ''S1'']"

theorem metrics_one_series_per_gpu_witness:
  "distinct (map series_key (sample_lines (render_metrics True 4096 demo_pair)))"
  using metrics_one_series_per_gpu [OF _ _ refl, of demo_pair]
  by (simp add: demo_pair_def page_labels_def clean_labels_def zero_snapshot_def)

section \<open>Lines that are on the page\<close>

text \<open>A line is on the page when it stands there as a whole, at the start of the page or after a newline.\<close>

definition on_page :: "string \<Rightarrow> string \<Rightarrow> bool" where
  "on_page l page \<longleftrightarrow> (\<exists>pre post. page = pre @ l @ post \<and> (pre = [] \<or> last pre = nl))"

definition score_line :: "gpu_snapshot_t \<Rightarrow> string" where
  "score_line s = label_open ''gpu_health_score'' s @ ''} '' @ fmt_f 2 (sn_score s) @ [nl]"

definition stamp_line :: "gpu_snapshot_t \<Rightarrow> u64 \<Rightarrow> string" where
  "stamp_line s ms =
     label_open ''gpu_health_last_poll_timestamp'' s @ ''} '' @ fmt_f 3 (ddiv (of_c_int (uint ms)) (Fin 1000)) @ [nl]"

definition stamp_family :: metric_family where
  "stamp_family = metrics_exporter ! 1"

lemma score_family_line: "fam_line score_family (fam_name score_family) s = Some (score_line s)"
  by (simp add: score_family_def metrics_score_def sample_def score_line_def)

lemma stamp_family_line: "fam_line stamp_family (fam_name stamp_family) s = Some (stamp_line s (sn_last_poll_ms s))"
  by (simp add: stamp_family_def metrics_exporter_def sample_def stamp_line_def)

lemma stamp_family_mem: "stamp_family \<in> set metric_families"
  by (simp add: stamp_family_def metric_families_def metrics_exporter_def)

lemma family_line_mem:
  "sl \<in> set slots \<Longrightarrow> received sl \<Longrightarrow> fam_line f (fam_name f) (snap sl) = Some l \<Longrightarrow> l \<in> set (family_chunks slots f)"
  unfolding family_chunks_def family_lines_def List.map_filter_def
  by (auto simp: image_iff intro!: bexI [of _ sl])

lemma line_in_chunks:
  "f \<in> set metric_families \<Longrightarrow> l \<in> set (family_chunks slots f) \<Longrightarrow> l \<in> set (metrics_chunks slots)"
  by (auto simp: metrics_chunks_def)

lemma score_line_on_page:
  "sl \<in> set slots \<Longrightarrow> received sl \<Longrightarrow> score_line (snap sl) \<in> set (metrics_chunks slots)"
  by (rule line_in_chunks [OF score_family_mem family_line_mem [OF _ _ score_family_line]])

lemma stamp_line_in_chunks:
  "sl \<in> set slots \<Longrightarrow> received sl \<Longrightarrow> stamp_line (snap sl) (sn_last_poll_ms (snap sl)) \<in> set (metrics_chunks slots)"
  by (rule line_in_chunks [OF stamp_family_mem family_line_mem [OF _ _ stamp_family_line]])

text \<open>Every chunk ends with a newline, so a chunk within the cut is on the page.\<close>

lemma families_end:
  "list_all (\<lambda>f. \<forall>s l. fam_line f (fam_name f) s = Some l \<longrightarrow> ends_line l) metric_families"
proof -
  have "sample v n s = Some l \<Longrightarrow> ends_line l" for v n s l
    using ends_lineI [of "label_open n s @ ''} '' @ v s"] by (auto simp: sample_def)
  moreover have "info_line n s = Some l \<Longrightarrow> ends_line l" for n s l
    by (auto simp: info_line_def ends_line_def label_open_def)
  ultimately have line: "ends_line l"
    if "fam_line f \<in> insert info_line (insert fan_line (range sample))" "fam_line f (fam_name f) s = Some l" for f s l
    using that by (auto simp: fan_line_def split: if_splits)
  have "list_all (\<lambda>f. fam_line f \<in> insert info_line (insert fan_line (range sample))) metric_families"
    by (simp add: metric_families_def metric_groups bw_line_def)
  then show ?thesis unfolding list_all_iff using line by blast
qed

lemma chunks_end: "list_all ends_line (metrics_chunks slots)"
proof -
  have "list_all ends_line (family_chunks slots f)" if "f \<in> set metric_families" for f
    using families_end that header_ends
    by (auto simp: family_chunks_def family_lines_def List.map_filter_def list_all_iff split: if_splits)
  then show ?thesis using global_series by (auto simp: metrics_chunks_def list_all_iff)
qed

lemma concat_ends: "list_all ends_line cs \<Longrightarrow> concat cs = [] \<or> last (concat cs) = nl"
  by (induction cs rule: rev_induct) (auto simp: ends_line_def)

lemma on_page_early:
  assumes "metrics_chunks slots = a @ b" "l \<in> set a" "length (concat a) \<le> k"
  shows "on_page l (take k (concat (metrics_chunks slots)))"
proof -
  obtain u v where a: "a = u @ l # v" using assms(2) split_list by metis
  have "concat (metrics_chunks slots) = concat a @ concat b" using assms(1) by simp
  then have "take k (concat (metrics_chunks slots)) = concat u @ l @ concat v @ take (k - length (concat a)) (concat b)"
    using assms(3) by (simp add: a add.assoc)
  moreover have "list_all ends_line u" using chunks_end [of slots] assms(1) by (simp add: a)
  then have "concat u = [] \<or> last (concat u) = nl" by (rule concat_ends)
  ultimately show ?thesis unfolding on_page_def by blast
qed

lemma on_page_whole: "l \<in> set (metrics_chunks slots) \<Longrightarrow> length (concat (metrics_chunks slots)) \<le> k \<Longrightarrow>
    on_page l (take k (concat (metrics_chunks slots)))"
  using on_page_early [of slots "metrics_chunks slots" "[]" l k] by simp

lemma page_fits_whole: "l \<in> set (metrics_chunks slots) \<Longrightarrow> length (take k (concat (metrics_chunks slots))) < k \<Longrightarrow>
    on_page l (take k (concat (metrics_chunks slots)))"
  by (rule on_page_whole) (auto simp: min_def split: if_splits)

section \<open>The score is always on the page\<close>

text \<open>A snapshot whose strings end within their arrays, whose integers are C integers and whose score is in range.\<close>

definition c_int_range :: "int \<Rightarrow> bool" where
  "c_int_range n \<longleftrightarrow> - (2 ^ 31) \<le> n \<and> n < 2 ^ 31"

definition small_snapshot :: "gpu_snapshot_t \<Rightarrow> bool" where
  "small_snapshot s \<longleftrightarrow>
     length (sn_serial s) < 32 \<and> length (sn_uuid s) < 48 \<and> length (sn_gpu_model s) < 64 \<and> length (sn_driver_version s) < 64 \<and>
     c_int_range (sn_gpu_index s) \<and> c_int_range (sn_pcie_link_gen_max s) \<and> c_int_range (sn_pcie_link_width_max s) \<and>
     (\<exists>q. sn_score s = Fin q \<and> 0 \<le> q \<and> q \<le> 100)"

lemma length_fmt_d: "c_int_range n \<Longrightarrow> length (fmt_d n) \<le> 11"
proof -
  assume n: "c_int_range n"
  have "length (fmt_u (nat \<bar>n\<bar>)) \<le> 10" using n by (intro length_fmt_u) (auto simp: c_int_range_def)
  then show ?thesis by (auto simp: fmt_d_def)
qed

lemma length_score: "0 \<le> q \<Longrightarrow> q \<le> 100 \<Longrightarrow> length (fmt_f 2 (Fin q)) \<le> 6"
proof -
  assume q: "0 \<le> q" "q \<le> 100"
  define n where "n = nat (round_half_even (q * 100))"
  have "round_half_even (q * 100) \<le> round_half_even (of_int 10000)" using q by (intro round_half_even_mono) simp
  then have n: "n \<le> 10000" by (simp only: round_half_even_of_int n_def nat_le_iff of_nat_numeral)
  then have "n div 100 < 10 ^ 3" "n mod 100 < 10 ^ 2" by auto
  then have "length (fmt_u (n div 100)) \<le> 3" "length (fmt_u (n mod 100)) \<le> 2" by (auto intro!: length_fmt_u simp del: power_numeral)
  then show ?thesis using q by (simp add: fmt_f_def fixed_def pad_left_def n_def [symmetric] Let_def)
qed

lemma family_length:
  assumes "\<And>s l. small_snapshot s \<Longrightarrow> fam_line f (fam_name f) s = Some l \<Longrightarrow> length l \<le> n"
    and "list_all (\<lambda>sl. small_snapshot (snap sl)) (filter received slots)"
  shows "length (concat (family_lines slots f)) \<le> n * length slots"
  using assms(2)
proof (induction slots)
  case (Cons sl slots)
  then show ?case using assms(1) [of "snap sl"]
    by (cases "fam_line f (fam_name f) (snap sl)") (auto simp: family_lines_def List.map_filter_def split: if_splits)
qed (simp add: family_lines_def List.map_filter_def)

definition early_families :: "metric_family list" where
  "early_families = metrics_identity @ [score_family]"

lemma early_prefix: "metric_families = early_families @ drop 3 metric_families"
  by (simp add: metric_families_def early_families_def score_family_def metrics_identity_def metrics_score_def)

lemma early_length:
  assumes "list_all (\<lambda>sl. small_snapshot (snap sl)) (filter received slots)" "length slots \<le> 256"
  shows "length (concat (metrics_global @ concat (map (family_chunks slots) early_families))) \<le> 130000"
proof -
  obtain f1 f2 where fam: "metrics_identity = [f1, f2]" by (simp add: metrics_identity_def)
  have f: "f1 = metrics_identity ! 0" "f2 = metrics_identity ! 1" by (simp_all add: fam)
  have "length l \<le> 340" if "small_snapshot s" "fam_line f1 (fam_name f1) s = Some l" for s l
    using that length_fmt_d [of "sn_gpu_index s"] length_fmt_d [of "sn_pcie_link_gen_max s"] length_fmt_d [of "sn_pcie_link_width_max s"]
    by (auto simp: f metrics_identity_def info_line_def label_open_def label_def small_snapshot_def)
  then have a: "length (concat (family_lines slots f1)) \<le> 340 * length slots" using family_length assms(1) by blast
  have "length (fmt_d (identity_code c)) \<le> 11" for c using length_fmt_d [of "identity_code c"] by (cases c) (simp_all add: c_int_range_def)
  note code = this
  have "length l \<le> 80" if "small_snapshot s" "fam_line f2 (fam_name f2) s = Some l" for s l
    using that code [of "sn_identity_source s"]
    by (auto simp: f metrics_identity_def sample_def label_open_def small_snapshot_def)
  then have b: "length (concat (family_lines slots f2)) \<le> 80 * length slots" using family_length assms(1) by blast
  have "length l \<le> 80" if "small_snapshot s" "fam_line score_family (fam_name score_family) s = Some l" for s l
  proof -
    have "\<exists>q. sn_score s = Fin q \<and> 0 \<le> q \<and> q \<le> 100" using that(1) by (simp add: small_snapshot_def)
    then have "length (fmt_f 2 (sn_score s)) \<le> 6" by (auto simp: length_score)
    then show ?thesis using that by (auto simp: score_family_line score_line_def label_open_def small_snapshot_def)
  qed
  then have c: "length (concat (family_lines slots score_family)) \<le> 80 * length slots" using family_length assms(1) by blast
  have "length (concat metrics_global) \<le> 400" by (simp add: metrics_global_def m_header_def)
  moreover have "length (m_header (fam_name f1) (fam_type f1) (fam_help f1)) \<le> 400" "length (m_header (fam_name f2) (fam_type f2) (fam_help f2)) \<le> 400"
    "length (m_header (fam_name score_family) (fam_type score_family) (fam_help score_family)) \<le> 400"
    by (simp_all add: f metrics_identity_def score_family_def metrics_score_def m_header_def)
  ultimately show ?thesis using a b c assms(2) by (simp add: early_families_def fam family_chunks_def)
qed

lemma score_survives_cut:
  assumes "list_all (\<lambda>sl. small_snapshot (snap sl)) (filter received slots)" "length slots \<le> 256" "130000 \<le> k"
    and "sl \<in> set slots" "received sl"
  shows "on_page (score_line (snap sl)) (take k (concat (metrics_chunks slots)))"
proof (rule on_page_early)
  show "metrics_chunks slots = (metrics_global @ concat (map (family_chunks slots) early_families)) @
      concat (map (family_chunks slots) (drop 3 metric_families))"
    unfolding metrics_chunks_def by (subst early_prefix) simp
  show "score_line (snap sl) \<in> set (metrics_global @ concat (map (family_chunks slots) early_families))"
    using family_line_mem [OF assms(4,5) score_family_line] by (simp add: early_families_def)
  show "length (concat (metrics_global @ concat (map (family_chunks slots) early_families))) \<le> k"
    using early_length [OF assms(1,2)] assms(3) by linarith
qed

end
