(* ===== verification/System.thy ===== *)
theory System
  imports Reload HttpProps MainProps Page "HOL-Library.Sublist"
begin

text \<open>
  The program as a whole: the poll threads of the parent, the socket pair as a queue of bytes, the
  child, and the parent's monitor loop. A step is a pass of one poll thread with the write of its message, a
  message taken from the socket by the child's receiver, a signal, the death of the child, or its
  replacement; every interleaving of these steps is a run. The system refines a board on which each
  GPU has a growing list of published snapshots and shows one of them, and what is shown only
  moves forward in that list.
\<close>

section \<open>State and steps\<close>

text \<open>\<open>sy_bytes\<close> is what has been written to the socket of the current child and not yet read.
  \<open>sy_child\<close> is the state of the child that serves, \<open>None\<close> while there is none.\<close>

record 'b system =
  sy_threads :: "poll_thread_t list"
  sy_bytes :: "'b list"
  sy_child :: "http_state option"
  sy_parent :: parent_t

text \<open>What the write at the end of a pass from \<open>t\<close> to \<open>u\<close> leaves in the socket: a pass without a
  message writes nothing; a message is written as a whole, or the first call fails (the child is gone,
  or the descriptor is being replaced) and the error is only logged. \<open>None\<close> stands for a write that still
  waits or was cut by an error of a socket whose reader is alive, which a socket pair does not give.\<close>

definition pass_writes ::
    "(gpu_ipc_msg_t \<Rightarrow> 'b list) \<Rightarrow> bool \<Rightarrow> io_result list \<Rightarrow> poll_thread_t \<Rightarrow> poll_thread_t \<Rightarrow> 'b list option" where
  "pass_writes encode alive ws t u =
     (if t_sent u = t_sent t then Some []
      else case snapshot_send encode (t_ctx u) ws of (out, ret) \<Rightarrow>
        if ret = None then None
        else if \<not> alive then Some []
        else if ret = Some 0 then Some out
        else if out = [] then Some [] else None)"

text \<open>One turn of the child's receiver: \<open>None\<close> while the read waits for more bytes.\<close>

definition receiver_turn ::
    "nat \<Rightarrow> ('b list \<Rightarrow> gpu_ipc_msg_t) \<Rightarrow> io_result list \<Rightarrow> 'b list \<Rightarrow> http_state \<Rightarrow> (http_state \<times> 'b list) option" where
  "receiver_turn sz decode rs bytes c =
     (if fst (snd (recv_loop sz rs bytes)) = None then None
      else case snapshot_recv sz decode rs bytes of (r, left) \<Rightarrow> Some (receiver_pass r c, left))"

text \<open>The child of a spawn that succeeded: it reads the number of GPUs that the parent has written and
  serves, or exits before it does.\<close>

record boot_env =
  bo_tls :: "bool \<times> tls_lib"
  bo_priv :: priv_env
  bo_proc :: proc_t
  bo_child :: child_env

definition boot_child :: "boot_env \<Rightarrow> gpu_config_t \<Rightarrow> parent_t \<Rightarrow> http_state option" where
  "boot_child b cfg p =
     (let ce = (bo_child b)\<lparr>ch_num_gpus := ipc_init_value (ipc_init_image (p_num_gpus p))\<rparr>
      in case child_main (fst (bo_tls b)) (snd (bo_tls b)) (bo_priv b) ce cfg (bo_proc b) of
           (proc, ChildServe c fd) \<Rightarrow> Some c
         | _ \<Rightarrow> None)"

inductive sys_step ::
    "nat \<Rightarrow> (gpu_ipc_msg_t \<Rightarrow> 'b list) \<Rightarrow> ('b list \<Rightarrow> gpu_ipc_msg_t) \<Rightarrow> exporter_t \<Rightarrow> 'b system \<Rightarrow> 'b system \<Rightarrow> bool"
    for sz encode decode ex where
  sys_poll: "i < length (sy_threads s) \<Longrightarrow> t_running (sy_threads s ! i) \<Longrightarrow>
     u = poll_thread_pass ex env (sy_threads s ! i) \<Longrightarrow>
     pass_writes encode (sy_child s \<noteq> None) ws (sy_threads s ! i) u = Some out \<Longrightarrow>
     sys_step sz encode decode ex s (s\<lparr>sy_threads := (sy_threads s)[i := u], sy_bytes := sy_bytes s @ out\<rparr>)"
| sys_stop: "i < length (sy_threads s) \<Longrightarrow> u = (sy_threads s ! i)\<lparr>t_ctx := collector_stop (t_ctx (sy_threads s ! i))\<rparr> \<Longrightarrow>
     sys_step sz encode decode ex s (s\<lparr>sy_threads := (sy_threads s)[i := u]\<rparr>)"
| sys_receive: "sy_child s = Some c \<Longrightarrow> g_running c \<Longrightarrow> receiver_turn sz decode rs (sy_bytes s) c = Some (c', left) \<Longrightarrow>
     sys_step sz encode decode ex s (s\<lparr>sy_child := Some c', sy_bytes := left\<rparr>)"
| sys_sigterm: "sy_child s = Some c \<Longrightarrow> sys_step sz encode decode ex s (s\<lparr>sy_child := Some (handle_sigterm c)\<rparr>)"
| sys_child_dies: "sys_step sz encode decode ex s (s\<lparr>sy_child := None, sy_bytes := []\<rparr>)"
| sys_respawn: "sy_child s = None \<Longrightarrow> p_running (sy_parent s) \<Longrightarrow>
     monitor_pass (p_child_pid (sy_parent s)) e (sy_parent s) = Some p \<Longrightarrow>
     sys_step sz encode decode ex s
       (s\<lparr>sy_parent := p, sy_bytes := [], sy_child := if p_running p then boot_child b (e_cfg ex) p else None\<rparr>)"
| sys_signal: "sys_step sz encode decode ex s (s\<lparr>sy_parent := sig_handler True (sy_parent s)\<rparr>)"

text \<open>The system that a successful startup leaves: the threads that could be created run and have sent
  nothing, the others never run.\<close>

definition started_threads :: "main_env \<Rightarrow> main_state \<Rightarrow> poll_thread_t list" where
  "started_threads e ms =
     map (\<lambda>(i, ctx). \<lparr>t_ctx = ctx, t_running = (me_start e i = (True, True, True)), t_sent = []\<rparr>)
       (zip [0..<length (ms_ctxs ms)] (ms_ctxs ms))"

definition sys_init :: "main_env \<Rightarrow> main_state \<Rightarrow> 'b system \<Rightarrow> bool" where
  "sys_init e ms s \<longleftrightarrow>
     (\<exists>evs b. main_startup e = (evs, MainRun ms) \<and>
        s = \<lparr>sy_threads = started_threads e ms, sy_bytes = [], sy_child = boot_child b (e_cfg (ms_ex ms)) (ms_parent ms),
             sy_parent = ms_parent ms\<rparr>)"

inductive_cases sys_stepE: "sys_step sz encode decode ex s u"

section \<open>What a pass keeps\<close>

text \<open>The identity of a GPU, in its context and in a message.\<close>

type_synonym ident_t = "int \<times> string \<times> string \<times> string \<times> string"

definition ctx_ident :: "gpu_ctx_t \<Rightarrow> ident_t" where
  "ctx_ident ctx = (c_gpu_index ctx, c_serial ctx, c_uuid ctx, c_gpu_model ctx, c_driver_version ctx)"

definition msg_ident :: "gpu_ipc_msg_t \<Rightarrow> ident_t" where
  "msg_ident m = (let s = msg_snapshot m in
     (msg_gpu_index m, sn_serial s, sn_uuid s, sn_gpu_model s, sn_driver_version s))"

lemma poll_failed_ident: "poll_failed cfg r ctx = (ctx', act) \<Longrightarrow> ctx_ident ctx' = ctx_ident ctx"
  by (auto simp: poll_failed_def ctx_ident_def Let_def split: if_splits)

lemma poll_succeeded_ident:
  assumes "poll_succeeded ex env smp state ctx = (ctx', act)"
  shows "ctx_ident ctx' = ctx_ident ctx" "msg_ident (ipc_msg ctx') = ctx_ident ctx"
  using assms
  by (auto simp: poll_succeeded_def snapshot_update_def reload_baseline_def ctx_ident_def msg_ident_def ipc_msg_def
      assemble_def Let_def)

lemma poll_iter_ident:
  assumes "poll_iter ex env ctx = (ctx', act)"
  shows "ctx_ident ctx' = ctx_ident ctx \<and> (\<forall>m. act = PollSend m \<longrightarrow> m = ipc_msg ctx' \<and> msg_ident m = ctx_ident ctx)"
proof -
  have retry: "ctx_ident (ctx\<lparr>c_last_retry_ms := pe_now_retry env\<rparr>) = ctx_ident ctx" by (simp add: ctx_ident_def)
  from assms show ?thesis
  proof (cases rule: poll_iter_branch)
    case (failed ctx0 r)
    then show ?thesis using poll_failed_ident [OF failed(2)] retry by auto
  next
    case (succeeded ctx0 smp state)
    then show ?thesis using poll_succeeded_ident [OF succeeded(2)] retry by auto
  qed simp
qed

text \<open>A pass sends at most one message, the one in its context afterwards, under its own identity.\<close>

lemma pass_sends:
  assumes "u = poll_thread_pass ex env t"
  shows "ctx_ident (t_ctx u) = ctx_ident (t_ctx t) \<and>
    (t_sent u = t_sent t \<or>
     t_sent u = t_sent t @ [ipc_msg (t_ctx u)] \<and> msg_ident (ipc_msg (t_ctx u)) = ctx_ident (t_ctx t))"
proof (cases "poll_iter ex env (t_ctx t)")
  case (Pair ctx act)
  show ?thesis using poll_iter_ident [OF Pair] assms Pair
    by (cases act) (auto simp: poll_thread_pass_def)
qed

section \<open>The invariant of the system\<close>

definition thread_ok :: "main_env \<Rightarrow> main_state \<Rightarrow> nat \<Rightarrow> poll_thread_t \<Rightarrow> bool" where
  "thread_ok e ms i t \<longleftrightarrow>
     ctx_ident (t_ctx t) = ctx_ident (ms_ctxs ms ! i) \<and>
     list_all (\<lambda>m. msg_ident m = ctx_ident (ms_ctxs ms ! i)) (t_sent t) \<and>
     (if me_start e i = (True, True, True) then reach (poll_init (ms_ex ms)) (poll_step (ms_ex ms)) t
      else \<not> t_running t \<and> t_sent t = [])"

definition sys_inv :: "main_env \<Rightarrow> main_state \<Rightarrow> 'b system \<Rightarrow> bool" where
  "sys_inv e ms s \<longleftrightarrow>
     length (sy_threads s) = length (ms_ctxs ms) \<and>
     (\<forall>i<length (ms_ctxs ms). thread_ok e ms i (sy_threads s ! i)) \<and>
     (\<forall>i<length (ms_ctxs ms). c_gpu_index (ms_ctxs ms ! i) = int i) \<and>
     p_num_gpus (sy_parent s) = int (length (ms_ctxs ms)) \<and> int (length (ms_ctxs ms)) < 2 ^ 31 \<and>
     (\<forall>c. sy_child s = Some c \<longrightarrow> child_inv c \<and> g_num_gpus c = int (length (ms_ctxs ms)))"

lemma boot_child_state:
  assumes "boot_child b cfg p = Some c" "0 \<le> p_num_gpus p" "p_num_gpus p < 2 ^ 31"
  shows "c = http_start (p_num_gpus p) cfg \<and> 0 < p_num_gpus p \<and> p_num_gpus p \<le> 256"
proof -
  have "ipc_init_value (ipc_init_image (p_num_gpus p)) = p_num_gpus p"
    using assms(2,3) by (intro ipc_init_round_trip) auto
  then show ?thesis using assms(1)
    by (auto simp: boot_child_def child_main_def http_child_run_def Let_def
        split: option.splits prod.splits child_start.splits bool.splits if_splits)
qed

lemma boot_child_ok:
  assumes "boot_child b cfg p = Some c" "p_num_gpus p = int n" "int n < 2 ^ 31"
  shows "child_inv c \<and> g_num_gpus c = int n \<and> (\<forall>i<n. slot_view c i = None)"
proof -
  have c: "c = http_start (int n) cfg" "0 < int n" "int n \<le> 256"
    using boot_child_state [OF assms(1)] assms(2,3) by simp_all
  moreover have "\<forall>i<n. slot_view (http_start (int n) cfg) i = None" by (simp add: http_start_view)
  moreover have "g_num_gpus (http_start (int n) cfg) = int n" by (simp add: http_start_def)
  ultimately show ?thesis using http_start_inv [OF c(2,3), of cfg] by simp
qed

lemma thread_ok_pass:
  assumes "thread_ok e ms i t" "t_running t" "u = poll_thread_pass (ms_ex ms) env t"
  shows "thread_ok e ms i u"
proof -
  have "reach (poll_init (ms_ex ms)) (poll_step (ms_ex ms)) t" "me_start e i = (True, True, True)"
    using assms by (auto simp: thread_ok_def split: if_splits)
  moreover have "poll_step (ms_ex ms) t u" using poll_step.pass [OF assms(2)] assms(3) by simp
  ultimately have "reach (poll_init (ms_ex ms)) (poll_step (ms_ex ms)) u" "me_start e i = (True, True, True)"
    by (auto intro: reach_step)
  then show ?thesis using pass_sends [OF assms(3)] assms(1) by (auto simp: thread_ok_def)
qed

lemma thread_ok_stop:
  assumes "thread_ok e ms i t"
  shows "thread_ok e ms i (t\<lparr>t_ctx := collector_stop (t_ctx t)\<rparr>)"
proof -
  have "poll_step (ms_ex ms) t (t\<lparr>t_ctx := collector_stop (t_ctx t)\<rparr>)" by (rule poll_step.stop)
  then show ?thesis using assms by (auto simp: thread_ok_def ctx_ident_def collector_stop_def intro: reach_step)
qed

lemma sys_step_inv:
  assumes "sys_step sz encode decode (ms_ex ms) s u" "sys_inv e ms s"
  shows "sys_inv e ms u"
  using assms
proof (cases rule: sys_step.cases)
  case (sys_poll i v env ws out)
  then show ?thesis using assms(2) thread_ok_pass by (auto simp: sys_inv_def nth_list_update)
next
  case (sys_stop i v)
  then show ?thesis using assms(2) thread_ok_stop by (auto simp: sys_inv_def nth_list_update)
next
  case (sys_receive c rs c' left)
  then have "child_inv c' \<and> g_num_gpus c' = g_num_gpus c" 
    using assms(2) by (auto simp: receiver_turn_def receiver_pass_inv receiver_keeps sys_inv_def split: if_splits prod.splits)
  then show ?thesis using sys_receive assms(2) by (auto simp: sys_inv_def)
next
  case (sys_sigterm c)
  then show ?thesis using assms(2) by (auto simp: sys_inv_def child_inv_def handle_sigterm_def)
next
  case (sys_respawn e' p b)
  then have "p_num_gpus p = int (length (ms_ctxs ms))" "int (length (ms_ctxs ms)) < 2 ^ 31"
    using assms(2) monitor_pass_num by (auto simp: sys_inv_def)
  then show ?thesis using sys_respawn assms(2) boot_child_ok [of b _ p]
    by (auto simp: sys_inv_def split: if_splits)
qed (auto simp: sys_inv_def sig_handler_def)

lemma started_threads_nth:
  "i < length (ms_ctxs ms) \<Longrightarrow> started_threads e ms ! i =
     \<lparr>t_ctx = ms_ctxs ms ! i, t_running = (me_start e i = (True, True, True)), t_sent = []\<rparr>"
  by (simp add: started_threads_def)

lemma sys_init_inv:
  assumes "sys_init e ms s"
  shows "sys_inv e ms s"
proof -
  obtain evs b where m: "main_startup e = (evs, MainRun ms)" and
    s: "s = \<lparr>sy_threads = started_threads e ms, sy_bytes = [], sy_child = boot_child b (e_cfg (ms_ex ms)) (ms_parent ms),
      sy_parent = ms_parent ms\<rparr>"
    using assms by (auto simp: sys_init_def)
  note r = startup_run [OF m]
  have n: "p_num_gpus (ms_parent ms) = int (length (ms_ctxs ms))" "int (length (ms_ctxs ms)) < 2 ^ 31"
    using r by blast+
  have idx: "c_gpu_index (ms_ctxs ms ! i) = int i" if "i < length (ms_ctxs ms)" for i
    using r that by (simp add: start_collector_identity init_ctx_identity)
  have "thread_ok e ms i (started_threads e ms ! i)" if "i < length (ms_ctxs ms)" for i
  proof (cases "me_start e i = (True, True, True)")
    case True
    from start_collector_init [OF this refl, of "ms_ex ms"] have "poll_init (ms_ex ms) (started_threads e ms ! i)"
      using r that True by (simp add: started_threads_nth)
    then show ?thesis using that True by (simp add: thread_ok_def started_threads_nth reach_init)
  qed (use that in \<open>simp add: thread_ok_def started_threads_nth\<close>)
  then show ?thesis using s n idx boot_child_ok [OF _ n] by (auto simp: sys_inv_def started_threads_def)
qed

interpretation sys: invariant_system "sys_init e ms" "sys_step sz encode decode (ms_ex ms)" "sys_inv e ms"
  for e ms sz and encode :: "gpu_ipc_msg_t \<Rightarrow> 'b list" and decode
  by unfold_locales (rule sys_init_inv, assumption, rule sys_step_inv)

section \<open>What is read only at the start\<close>

text \<open>A pass keeps the probe result and the widest PCIe link of its context, and the message it sends carries them.\<close>

type_synonym boot_t = "gpu_probe_result_t \<times> int \<times> int"

definition boot_data :: "gpu_ctx_t \<Rightarrow> boot_t" where
  "boot_data ctx = (c_probe ctx, c_pcie_link_gen_max ctx, c_pcie_link_width_max ctx)"

definition shows_boot :: "boot_t \<Rightarrow> gpu_snapshot_t \<Rightarrow> bool" where
  "shows_boot d sn \<longleftrightarrow>
     (case d of (p, gen, width) \<Rightarrow>
        sn_probe_available sn = pr_available p \<and> sn_probe_stale sn = pr_stale p \<and>
        sn_pcie_link_gen_max sn = gen \<and> sn_pcie_link_width_max sn = width)"

definition boot_kept :: "boot_t \<Rightarrow> poll_thread_t \<Rightarrow> bool" where
  "boot_kept d t \<longleftrightarrow> boot_data (t_ctx t) = d \<and> list_all (\<lambda>m. shows_boot d (msg_snapshot m)) (t_sent t)"

lemma poll_failed_boot: "poll_failed cfg r ctx = (ctx', act) \<Longrightarrow> boot_data ctx' = boot_data ctx"
  by (auto simp: poll_failed_def boot_data_def Let_def split: if_splits)

lemma reload_links:
  "c_pcie_link_gen_max (reload_baseline ex env ctx) = c_pcie_link_gen_max ctx"
  "c_pcie_link_width_max (reload_baseline ex env ctx) = c_pcie_link_width_max ctx"
  by (simp_all add: reload_baseline_def Let_def)

lemma poll_succeeded_boot:
  assumes "poll_succeeded ex env smp state ctx = (ctx', act)"
  shows "boot_data ctx' = boot_data ctx" "shows_boot (boot_data ctx) (msg_snapshot (ipc_msg ctx'))"
  using assms
  by (auto simp: poll_succeeded_def snapshot_update_def reload_keeps reload_links boot_data_def shows_boot_def ipc_msg_def
      assemble_def Let_def)

lemma poll_iter_boot:
  assumes "poll_iter ex env ctx = (ctx', act)"
  shows "boot_data ctx' = boot_data ctx \<and> (\<forall>m. act = PollSend m \<longrightarrow> shows_boot (boot_data ctx) (msg_snapshot m))"
proof -
  have retry: "boot_data (ctx\<lparr>c_last_retry_ms := pe_now_retry env\<rparr>) = boot_data ctx" by (simp add: boot_data_def)
  from assms show ?thesis
  proof (cases rule: poll_iter_branch)
    case (failed ctx0 r)
    then show ?thesis using poll_failed_boot [OF failed(2)] retry by auto
  next
    case (succeeded ctx0 smp state)
    then show ?thesis using poll_succeeded_boot [OF succeeded(2)] retry by auto
  qed simp
qed

lemma boot_kept_pass:
  assumes "boot_kept d t" "u = poll_thread_pass ex env t"
  shows "boot_kept d u"
proof (cases "poll_iter ex env (t_ctx t)")
  case (Pair ctx act)
  show ?thesis using poll_iter_boot [OF Pair] assms Pair by (cases act) (auto simp: poll_thread_pass_def boot_kept_def)
qed

definition boots_kept :: "main_state \<Rightarrow> 'b system \<Rightarrow> bool" where
  "boots_kept ms s \<longleftrightarrow>
     length (sy_threads s) = length (ms_ctxs ms) \<and>
     (\<forall>i<length (ms_ctxs ms). boot_kept (boot_data (ms_ctxs ms ! i)) (sy_threads s ! i))"

interpretation boots: invariant_system "sys_init e ms" "sys_step sz encode decode (ms_ex ms)" "boots_kept ms"
  for e ms sz and encode :: "gpu_ipc_msg_t \<Rightarrow> 'b list" and decode
proof unfold_locales
  fix s :: "'b system" assume "sys_init e ms s"
  then show "boots_kept ms s"
    by (auto simp: sys_init_def boots_kept_def boot_kept_def started_threads_nth) (simp add: started_threads_def)
next
  fix s u :: "'b system" assume "boots_kept ms s" "sys_step sz encode decode (ms_ex ms) s u"
  from this(2,1) show "boots_kept ms u"
  proof (cases rule: sys_step.cases)
    case (sys_poll i v env ws out)
    then show ?thesis using \<open>boots_kept ms s\<close> boot_kept_pass by (auto simp: boots_kept_def nth_list_update)
  next
    case (sys_stop i v)
    then show ?thesis using \<open>boots_kept ms s\<close>
      by (auto simp: boots_kept_def boot_kept_def boot_data_def collector_stop_def nth_list_update)
  qed (auto simp: boots_kept_def)
qed

lemma start_collector_boot: "boot_data (start_collector e cfg i ctx) = boot_data ctx"
  by (simp add: boot_data_def start_collector_def collector_start_def Let_def split: prod.splits)

lemma init_ctx_boot:
  "boot_data (init_ctx cfg fopen now d q i) =
     (probe_load fopen now (state_dir cfg) (fst (read_identity q)) (probe_ttl_s cfg), max_link (id_gen_max q), max_link (id_width_max q))"
  by (cases "read_identity q") (simp add: boot_data_def init_ctx_def Let_def)

lemma startup_boot:
  assumes "main_startup e = (evs, MainRun ms)" "i < length (ms_ctxs ms)"
  shows "boot_data (ms_ctxs ms ! i) =
    (probe_load (me_fopen e) (me_now_s e) (state_dir (e_cfg (ms_ex ms))) (fst (read_identity (me_ident e i))) (probe_ttl_s (e_cfg (ms_ex ms))),
     max_link (id_gen_max (me_ident e i)), max_link (id_width_max (me_ident e i)))"
  using startup_run [OF assms(1)] assms(2) by (simp add: start_collector_boot init_ctx_boot)

section \<open>The board\<close>

text \<open>The abstract program: for each GPU the snapshots published so far and the position of the one
  that is shown.\<close>

record board =
  bd_published :: "gpu_snapshot_t list list"
  bd_shown :: "nat option list"

definition board_init :: "nat \<Rightarrow> board \<Rightarrow> bool" where
  "board_init n b \<longleftrightarrow> b = \<lparr>bd_published = replicate n [], bd_shown = replicate n None\<rparr>"

inductive board_step :: "board \<Rightarrow> board \<Rightarrow> bool" where
  publish: "i < length (bd_published b) \<Longrightarrow>
     board_step b (b\<lparr>bd_published := (bd_published b)[i := bd_published b ! i @ [sn]]\<rparr>)"
| show_later: "i < length (bd_published b) \<Longrightarrow> k < length (bd_published b ! i) \<Longrightarrow>
     (\<forall>j. bd_shown b ! i = Some j \<longrightarrow> j < k) \<Longrightarrow> board_step b (b\<lparr>bd_shown := (bd_shown b)[i := Some k]\<rparr>)"
| clear: "board_step b (b\<lparr>bd_shown := replicate (length (bd_published b)) None\<rparr>)"

definition board_view :: "board \<Rightarrow> nat \<Rightarrow> gpu_snapshot_t option" where
  "board_view b i = map_option (\<lambda>k. bd_published b ! i ! k) (bd_shown b ! i)"

text \<open>Nothing that is shown is taken off or moved back; every step but a clearing does so.\<close>

definition forward :: "board \<Rightarrow> board \<Rightarrow> bool" where
  "forward b b' \<longleftrightarrow>
     (\<forall>i<length (bd_shown b). \<forall>j. bd_shown b ! i = Some j \<longrightarrow> (\<exists>k. j \<le> k \<and> bd_shown b' ! i = Some k))"

lemma forward_refl: "bd_shown b' = bd_shown b \<Longrightarrow> forward b b'"
  by (simp add: forward_def)

lemma forward_trans: "forward a b \<Longrightarrow> forward b c \<Longrightarrow> length (bd_shown b) = length (bd_shown a) \<Longrightarrow> forward a c"
  unfolding forward_def by (metis le_trans)

lemma forward_show: "(\<forall>j. bd_shown b ! i = Some j \<longrightarrow> j < k) \<Longrightarrow> forward b (b\<lparr>bd_shown := (bd_shown b)[i := Some k]\<rparr>)"
proof -
  assume k: "\<forall>j. bd_shown b ! i = Some j \<longrightarrow> j < k"
  have "\<exists>l\<ge>j. (bd_shown b)[i := Some k] ! a = Some l" if "a < length (bd_shown b)" "bd_shown b ! a = Some j" for a j
    using k that less_imp_le by (cases "a = i") auto
  then show ?thesis by (auto simp: forward_def)
qed

text \<open>The published list \<open>ps\<close> of a GPU, the position shown, the slot of the child and the snapshots still
  on their way.\<close>

definition tracks :: "'a list \<Rightarrow> nat option \<Rightarrow> 'a option \<Rightarrow> 'a list \<Rightarrow> bool" where
  "tracks ps shown slot q \<longleftrightarrow>
     (case shown of
        None \<Rightarrow> slot = None \<and> subseq q ps
      | Some k \<Rightarrow> k < length ps \<and> slot = Some (ps ! k) \<and> subseq q (drop (Suc k) ps))"

lemma tracks_publish: "tracks ps shown slot q \<Longrightarrow> q' = q \<or> q' = q @ [x] \<Longrightarrow> tracks (ps @ [x]) shown slot q'"
  by (auto simp: tracks_def nth_append Suc_le_eq [symmetric] subseq_rev_drop_many split: option.splits)

lemma tracks_clear: "tracks ps None None []"
  by (simp add: tracks_def)

lemma tracks_forget: "tracks ps shown slot q \<Longrightarrow> tracks ps shown slot []"
  by (auto simp: tracks_def split: option.splits)

lemma subseq_Cons_position:
  assumes "subseq (x # q) ps"
  shows "\<exists>k<length ps. ps ! k = x \<and> subseq q (drop (Suc k) ps)"
proof -
  obtain us v vs where "ps = us @ v # vs" "x = v" "subseq q vs" using list_emb_ConsD [OF assms] by blast
  then show ?thesis by (intro exI [of _ "length us"]) auto
qed

lemma tracks_receive:
  assumes "tracks ps shown slot (x # q)"
  shows "\<exists>k<length ps. (\<forall>j. shown = Some j \<longrightarrow> j < k) \<and> tracks ps (Some k) (Some x) q"
proof (cases shown)
  case None
  then show ?thesis using assms subseq_Cons_position [of x q ps] by (auto simp: tracks_def)
next
  case (Some j)
  then have "subseq (x # q) (drop (Suc j) ps)" using assms by (simp add: tracks_def)
  from subseq_Cons_position [OF this] obtain k where k: "k < length ps - Suc j" "ps ! (Suc j + k) = x"
    "subseq q (drop (Suc (Suc j + k)) ps)"
    by (auto simp: add.commute)
  then show ?thesis using Some by (intro exI [of _ "Suc j + k"]) (auto simp: tracks_def)
qed

section \<open>The system refines the board\<close>

definition child_view :: "'b system \<Rightarrow> nat \<Rightarrow> gpu_snapshot_t option" where
  "child_view s i = (case sy_child s of None \<Rightarrow> None | Some c \<Rightarrow> slot_view c i)"

definition published :: "'b system \<Rightarrow> gpu_snapshot_t list list" where
  "published s = map (\<lambda>t. map msg_snapshot (t_sent t)) (sy_threads s)"

definition queue_of :: "gpu_ipc_msg_t list \<Rightarrow> nat \<Rightarrow> gpu_snapshot_t list" where
  "queue_of ms i = map msg_snapshot (filter (\<lambda>m. msg_gpu_index m = int i) ms)"

definition receiving :: "'b system \<Rightarrow> bool" where
  "receiving s \<longleftrightarrow> (\<exists>c. sy_child s = Some c \<and> g_running c)"

text \<open>The messages sent so far have the size that the receiver reads, and are read back as they were
  written.\<close>

definition framed :: "nat \<Rightarrow> (gpu_ipc_msg_t \<Rightarrow> 'b list) \<Rightarrow> ('b list \<Rightarrow> gpu_ipc_msg_t) \<Rightarrow> gpu_ipc_msg_t \<Rightarrow> bool" where
  "framed sz encode decode m \<longleftrightarrow> length (encode m) = sz \<and> decode (encode m) = m"

definition wire_ok :: "nat \<Rightarrow> (gpu_ipc_msg_t \<Rightarrow> 'b list) \<Rightarrow> ('b list \<Rightarrow> gpu_ipc_msg_t) \<Rightarrow> 'b system \<Rightarrow> bool" where
  "wire_ok sz encode decode s \<longleftrightarrow>
     0 < sz \<and> list_all (\<lambda>t. list_all (framed sz encode decode) (t_sent t)) (sy_threads s)"

text \<open>The messages on their way, and what they mean for the board.\<close>

definition queued ::
    "nat \<Rightarrow> (gpu_ipc_msg_t \<Rightarrow> 'b list) \<Rightarrow> ('b list \<Rightarrow> gpu_ipc_msg_t) \<Rightarrow> 'b system \<Rightarrow> gpu_ipc_msg_t list \<Rightarrow> bool" where
  "queued sz encode decode s q \<longleftrightarrow>
     (if receiving s then sy_bytes s = concat (map encode q) \<and> list_all (framed sz encode decode) q else q = [])"

definition tracking :: "'b system \<Rightarrow> board \<Rightarrow> gpu_ipc_msg_t list \<Rightarrow> bool" where
  "tracking s b q \<longleftrightarrow>
     (\<forall>i<length (published s). tracks (published s ! i) (bd_shown b ! i) (child_view s i) (queue_of q i))"

definition board_rel ::
    "nat \<Rightarrow> (gpu_ipc_msg_t \<Rightarrow> 'b list) \<Rightarrow> ('b list \<Rightarrow> gpu_ipc_msg_t) \<Rightarrow> 'b system \<Rightarrow> board \<Rightarrow> bool" where
  "board_rel sz encode decode s b \<longleftrightarrow>
     bd_published b = published s \<and> length (bd_shown b) = length (published s) \<and>
     (\<exists>q. queued sz encode decode s q \<and> tracking s b q)"

lemma wire_ok_framed:
  "wire_ok sz encode decode s \<Longrightarrow> i < length (sy_threads s) \<Longrightarrow> m \<in> set (t_sent (sy_threads s ! i)) \<Longrightarrow> framed sz encode decode m"
  by (auto simp: wire_ok_def list_all_iff)

lemma wire_okI:
  "0 < sz \<Longrightarrow> (\<And>j m. j < length (sy_threads s) \<Longrightarrow> m \<in> set (t_sent (sy_threads s ! j)) \<Longrightarrow> framed sz encode decode m) \<Longrightarrow>
   wire_ok sz encode decode s"
  unfolding wire_ok_def list_all_iff by (metis in_set_conv_nth)

lemma board_relI:
  "bd_published b = published s \<Longrightarrow> length (bd_shown b) = length (published s) \<Longrightarrow>
   queued sz encode decode s q \<Longrightarrow> tracking s b q \<Longrightarrow> board_rel sz encode decode s b"
  by (auto simp: board_rel_def)

lemma board_rel_same:
  assumes "board_rel sz encode decode s b" "published u = published s"
    and "receiving u = receiving s" "sy_bytes u = sy_bytes s" "\<forall>i<length (published s). child_view u i = child_view s i"
  shows "board_rel sz encode decode u b"
proof -
  obtain q where "queued sz encode decode s q" "tracking s b q" using assms(1) by (auto simp: board_rel_def)
  then have "queued sz encode decode u q" "tracking u b q" using assms(2-5) by (simp_all add: queued_def tracking_def)
  then show ?thesis using assms(1,2) by (intro board_relI) (simp_all add: board_rel_def)
qed

lemma list_update_map_same: "f v = f (xs ! i) \<Longrightarrow> map f (xs[i := v]) = map f xs"
  by (metis list_update_id map_update)

lemma published_update:
  "i < length (sy_threads s) \<Longrightarrow>
   published (s\<lparr>sy_threads := (sy_threads s)[i := v], sy_bytes := bs\<rparr>) = (published s)[i := map msg_snapshot (t_sent v)]"
  by (simp add: published_def map_update)

lemma sim_poll:
  assumes inv: "sys_inv e ms s" and rel: "board_rel sz encode decode s b"
    and u: "u = s\<lparr>sy_threads := (sy_threads s)[i := v], sy_bytes := sy_bytes s @ out\<rparr>" and i: "i < length (sy_threads s)"
    and v: "v = poll_thread_pass (ms_ex ms) env (sy_threads s ! i)"
    and w: "pass_writes encode (sy_child s \<noteq> None) ws (sy_threads s ! i) v = Some out" and ok: "wire_ok sz encode decode u"
  shows "\<exists>b'. (b' = b \<or> board_step b b') \<and> forward b b' \<and> board_rel sz encode decode u b'"
proof (cases "t_sent v = t_sent (sy_threads s ! i)")
  case True
  then have "published u = published s" "out = []" using w
    by (simp_all add: u published_def list_update_map_same pass_writes_def)
  then have "board_rel sz encode decode u b" using board_rel_same [OF rel, of u]
    by (simp add: u receiving_def child_view_def)
  then show ?thesis using forward_refl by blast
next
  case False
  define m where "m = ipc_msg (t_ctx v)"
  have th: "thread_ok e ms i (sy_threads s ! i)" "c_gpu_index (ms_ctxs ms ! i) = int i" using inv i by (simp_all add: sys_inv_def)
  have m: "t_sent v = t_sent (sy_threads s ! i) @ [m]" "msg_ident m = ctx_ident (t_ctx (sy_threads s ! i))"
    using pass_sends [OF v] False by (simp_all add: m_def)
  have idx: "msg_gpu_index m = int i" using m(2) th by (simp add: thread_ok_def msg_ident_def ctx_ident_def Let_def)
  have fr: "framed sz encode decode m" using wire_ok_framed [OF ok, of i m] i m(1) by (simp add: u)
  obtain q where q: "queued sz encode decode s q" "tracking s b q" using rel by (auto simp: board_rel_def)
  have "out = encode m \<or> out = []" if "receiving s"
    using w False that send_loop_complete
    by (auto simp: pass_writes_def receiving_def snapshot_send_def m_def split: prod.splits if_splits)
  then obtain q' where q': "queued sz encode decode u q'" "q' = q \<or> q' = q @ [m]"
  proof (cases "receiving s \<and> out = encode m")
    case True
    then have "queued sz encode decode u (q @ [m])" using q(1) fr by (simp add: queued_def u receiving_def)
    then show thesis using that by blast
  next
    case False
    then have "queued sz encode decode u q" using q(1) \<open>receiving s \<Longrightarrow> out = encode m \<or> out = []\<close>
      by (auto simp: queued_def u receiving_def split: if_splits)
    then show thesis using that by blast
  qed
  have pub: "published u = (published s)[i := published s ! i @ [msg_snapshot m]]" "length (published s) = length (sy_threads s)"
    using i m(1) by (simp_all add: u published_update) (simp_all add: published_def)
  have same: "receiving u = receiving s" "child_view u = child_view s" by (simp_all add: u receiving_def child_view_def fun_eq_iff)
  let ?b = "b\<lparr>bd_published := (bd_published b)[i := bd_published b ! i @ [msg_snapshot m]]\<rparr>"
  have "board_step b ?b" using i rel pub(2) by (intro board_step.publish) (simp add: board_rel_def)
  moreover have "tracks (published u ! j) (bd_shown b ! j) (child_view s j) (queue_of q' j)" if "j < length (published s)" for j
  proof (cases "j = i")
    case True
    have "queue_of q' i = queue_of q i \<or> queue_of q' i = queue_of q i @ [msg_snapshot m]"
      using q'(2) idx by (auto simp: queue_of_def)
    then show ?thesis using True that q(2) tracks_publish by (fastforce simp: pub(1) tracking_def)
  next
    case False
    then have "queue_of q' j = queue_of q j" using q'(2) idx by (auto simp: queue_of_def)
    then show ?thesis using False that q(2) by (simp add: pub(1) tracking_def)
  qed
  then have "tracking u ?b q'" using pub(1) by (simp add: tracking_def same)
  then have "board_rel sz encode decode u ?b" using rel pub(1) by (intro board_relI [OF _ _ q'(1)]) (simp_all add: board_rel_def)
  moreover have "forward b ?b" by (rule forward_refl) simp
  ultimately show ?thesis by blast
qed

lemma receiver_turn_framed:
  assumes "receiver_turn sz decode rs (concat (map encode q)) c = Some (c', left)" "0 < sz"
    and "list_all (framed sz encode decode) q"
  shows "c' = receiver_pass None c \<or> (\<exists>m q'. q = m # q' \<and> left = concat (map encode q') \<and> c' = receiver_pass (Some m) c)"
proof -
  let ?bytes = "concat (map encode q)"
  obtain got ret where r: "recv_loop sz rs ?bytes = (got, ret, left)" using assms(1)
    by (auto simp: receiver_turn_def snapshot_recv_def split: prod.splits if_splits)
  show ?thesis
  proof (cases "ret = Some 0")
    case True
    then have g: "got @ left = ?bytes" "length got = sz" using recv_loop_complete [of sz rs ?bytes got left] r by blast+
    then obtain m q' where q: "q = m # q'" using assms(2) by (cases q) auto
    then have "got @ left = encode m @ concat (map encode q')" "length (encode m) = sz" "decode (encode m) = m"
      using g assms(3) by (simp_all add: framed_def)
    then have "got = encode m" "left = concat (map encode q')" using g(2) by (simp_all add: append_eq_append_conv)
    then show ?thesis using assms(1) r True q \<open>decode (encode m) = m\<close> by (auto simp: receiver_turn_def snapshot_recv_def)
  next
    case False
    then show ?thesis using assms(1) r by (auto simp: receiver_turn_def snapshot_recv_def split: if_splits)
  qed
qed

lemma sim_stopped:
  assumes "board_rel sz encode decode s b" "\<not> receiving u" "published u = published s"
    "\<forall>i<length (published s). child_view u i = child_view s i"
  shows "board_rel sz encode decode u b"
proof -
  have "tracks (published s ! i) (bd_shown b ! i) (child_view s i) []" if "i < length (published s)" for i
    using assms(1) that tracks_forget unfolding board_rel_def tracking_def by blast
  then have "tracking u b []" using assms(3,4) by (simp add: tracking_def queue_of_def)
  then show ?thesis using assms(1-3) by (intro board_relI [of _ _ _ _ _ "[]"]) (simp_all add: board_rel_def queued_def)
qed

lemma sim_cleared:
  assumes "board_rel sz encode decode s b" "sy_bytes u = []" "published u = published s"
    "\<forall>i<length (published s). child_view u i = None"
  shows "\<exists>b'. (b' = b \<or> board_step b b') \<and> board_rel sz encode decode u b'"
proof -
  let ?b = "b\<lparr>bd_shown := replicate (length (bd_published b)) None\<rparr>"
  have "board_rel sz encode decode u ?b" using assms
    by (intro board_relI [of _ _ _ _ _ "[]"]) (simp_all add: board_rel_def queued_def tracking_def queue_of_def tracks_clear)
  then show ?thesis using board_step.clear by blast
qed

lemma sim_receive:
  assumes inv: "sys_inv e ms s" and rel: "board_rel sz encode decode s b"
    and u: "u = s\<lparr>sy_child := Some c', sy_bytes := left\<rparr>" and c: "sy_child s = Some c" "g_running c"
    and turn: "receiver_turn sz decode rs (sy_bytes s) c = Some (c', left)" and ok: "wire_ok sz encode decode u"
  shows "\<exists>b'. (b' = b \<or> board_step b b') \<and> forward b b' \<and> board_rel sz encode decode u b'"
proof -
  have rec: "receiving s" using c by (simp add: receiving_def)
  obtain q where q: "sy_bytes s = concat (map encode q)" "list_all (framed sz encode decode) q"
    "\<forall>i<length (published s). tracks (published s ! i) (bd_shown b ! i) (slot_view c i) (queue_of q i)"
    using rel rec c by (auto simp: board_rel_def queued_def tracking_def child_view_def)
  have pub: "published u = published s" by (simp add: u published_def)
  have ch: "child_inv c" "g_num_gpus c = int (length (published s))" using inv c by (simp_all add: sys_inv_def published_def)
  consider "c' = receiver_pass None c"
    | m q' where "q = m # q'" "left = concat (map encode q')" "c' = receiver_pass (Some m) c"
    using receiver_turn_framed [of sz decode rs encode q c c' left] turn ok q(1,2) by (auto simp: wire_ok_def)
  then show ?thesis
  proof cases
    case 1
    then have "board_rel sz encode decode u b"
      using sim_stopped [OF rel _ pub] c by (simp add: u receiving_def child_view_def receiver_pass_def slot_view_def)
    then show ?thesis using forward_refl by blast
  next
    case 2
    have rec': "receiving u" using c 2 by (simp add: u receiving_def receiver_pass_running)
    have view: "child_view u i = (if msg_gpu_index m = int i then Some (msg_snapshot m) else slot_view c i)"
      if "i < length (published s)" for i
      using receiver_pass_view [OF ch(1), of i m] that ch(2) by (simp add: u child_view_def 2)
    have tail: "queue_of q i = (if msg_gpu_index m = int i then [msg_snapshot m] else []) @ queue_of q' i" for i
      by (simp add: queue_of_def 2)
    have fr: "queued sz encode decode u q'" using q(2) rec' by (simp add: queued_def u 2)
    show ?thesis
    proof (cases "\<exists>i<length (published s). msg_gpu_index m = int i")
      case True
      then obtain i where i: "i < length (published s)" "msg_gpu_index m = int i" by blast
      have "tracks (published s ! i) (bd_shown b ! i) (slot_view c i) (msg_snapshot m # queue_of q' i)"
        using q(3) i tail [of i] by (metis append_Cons append_Nil)
      from tracks_receive [OF this] obtain k where k: "k < length (published s ! i)" "\<forall>j. bd_shown b ! i = Some j \<longrightarrow> j < k"
        "tracks (published s ! i) (Some k) (Some (msg_snapshot m)) (queue_of q' i)" by blast
      let ?b = "b\<lparr>bd_shown := (bd_shown b)[i := Some k]\<rparr>"
      have "board_step b ?b" using rel i k by (intro board_step.show_later) (auto simp: board_rel_def)
      moreover have "tracks (published u ! j) (bd_shown ?b ! j) (child_view u j) (queue_of q' j)" if "j < length (published s)" for j
        using rel k(3) i that q(3) tail [of j] by (cases "j = i") (auto simp: board_rel_def pub view)
      then have "tracking u ?b q'" by (simp add: tracking_def pub)
      then have "board_rel sz encode decode u ?b" using rel pub by (intro board_relI [OF _ _ fr]) (simp_all add: board_rel_def)
      ultimately show ?thesis using forward_show [OF k(2)] by blast
    next
      case False
      then have "tracks (published u ! j) (bd_shown b ! j) (child_view u j) (queue_of q' j)" if "j < length (published s)" for j
        using that q(3) tail [of j] by (auto simp: pub view)
      then have "tracking u b q'" by (simp add: tracking_def pub)
      then have "board_rel sz encode decode u b" using rel pub by (intro board_relI [OF _ _ fr]) (simp_all add: board_rel_def)
      then show ?thesis using forward_refl by blast
    qed
  qed
qed

lemma sim_sys_step:
  assumes inv: "sys_inv e ms s" and rel: "board_rel sz encode decode s b"
    and step: "sys_step sz encode decode (ms_ex ms) s u" and ok: "wire_ok sz encode decode u"
  shows "\<exists>b'. (b' = b \<or> board_step b b') \<and> (sy_child s \<noteq> None \<and> sy_child u \<noteq> None \<longrightarrow> forward b b') \<and>
    board_rel sz encode decode u b'"
  using step
proof (cases rule: sys_step.cases)
  case (sys_poll i v env ws out)
  then show ?thesis using sim_poll [OF inv rel _ _ _ _ ok] by blast
next
  case (sys_stop i v)
  then have "published u = published s" by (simp add: published_def list_update_map_same)
  then have "board_rel sz encode decode u b" using board_rel_same [OF rel, of u] sys_stop(1)
    by (auto simp: receiving_def child_view_def)
  then show ?thesis using forward_refl by blast
next
  case (sys_receive c rs c' left)
  then show ?thesis using sim_receive [OF inv rel _ _ _ _ ok] by blast
next
  case (sys_sigterm c)
  then have "board_rel sz encode decode u b" using rel
    by (intro sim_stopped [OF rel])
      (auto simp: receiving_def child_view_def published_def handle_sigterm_def slot_view_def)
  then show ?thesis using forward_refl by blast
next
  case sys_child_dies
  then have "\<exists>b'. (b' = b \<or> board_step b b') \<and> board_rel sz encode decode u b'"
    by (intro sim_cleared [OF rel]) (simp_all add: published_def child_view_def)
  then show ?thesis using sys_child_dies by auto
next
  case (sys_respawn e' p b')
  have n: "p_num_gpus p = int (length (published s))" "p_num_gpus p < 2 ^ 31"
    using inv monitor_pass_num [OF sys_respawn(4)] by (simp_all add: sys_inv_def published_def)
  then have "\<forall>i<length (published s). child_view u i = None"
    using sys_respawn(1) boot_child_ok [of b' _ p] by (auto simp: child_view_def split: option.splits if_splits)
  then have "\<exists>b'. (b' = b \<or> board_step b b') \<and> board_rel sz encode decode u b'"
    using sys_respawn(1) by (intro sim_cleared [OF rel]) (simp_all add: published_def)
  then show ?thesis using sys_respawn(2) by auto
next
  case sys_signal
  then have "board_rel sz encode decode u b" using board_rel_same [OF rel, of u]
    by (auto simp: receiving_def child_view_def published_def)
  then show ?thesis using forward_refl by blast
qed

text \<open>Messages are never taken back, so those of an earlier state are framed when those of a later one are.\<close>

lemma sys_step_sent:
  assumes "sys_step sz encode decode ex s u"
  shows "wire_ok sz encode decode u \<Longrightarrow> wire_ok sz encode decode s"
  using assms
proof (cases rule: sys_step.cases)
  case (sys_poll i v env ws out)
  assume ok: "wire_ok sz encode decode u"
  have "framed sz encode decode m" if "j < length (sy_threads s)" "m \<in> set (t_sent (sy_threads s ! j))" for j m
  proof -
    have "m \<in> set (t_sent (sy_threads u ! j))"
      using that pass_sends [OF sys_poll(4)] sys_poll(1,2) by (cases "j = i") auto
    then show ?thesis using wire_ok_framed [OF ok, of j m] that(1) sys_poll(1) by simp
  qed
  then show ?thesis using ok by (intro wire_okI) (simp_all add: wire_ok_def)
next
  case (sys_stop i v)
  assume "wire_ok sz encode decode u"
  then have "framed sz encode decode m" if "j < length (sy_threads s)" "m \<in> set (t_sent (sy_threads s ! j))" for j m
    using that wire_ok_framed [of sz encode decode u j m] sys_stop by (cases "j = i") simp_all
  then show ?thesis using \<open>wire_ok sz encode decode u\<close> by (intro wire_okI) (simp_all add: wire_ok_def)
qed (auto simp: wire_ok_def)

lemma sys_init_board:
  assumes "sys_init e ms s"
  shows "\<exists>b. board_init (length (ms_ctxs ms)) b \<and> board_rel sz encode decode s b"
proof -
  let ?n = "length (ms_ctxs ms)"
  have inv: "sys_inv e ms s" by (rule sys_init_inv [OF assms])
  obtain b where s: "sy_threads s = started_threads e ms" "sy_bytes s = []" "sy_child s = boot_child b (e_cfg (ms_ex ms)) (sy_parent s)"
    using assms by (auto simp: sys_init_def)
  have pub: "published s = replicate ?n []"
    by (rule nth_equalityI) (auto simp: published_def s(1) started_threads_def)
  have "child_view s i = None" if "i < ?n" for i
  proof (cases "sy_child s")
    case (Some c)
    then show ?thesis using that boot_child_ok [of b _ "sy_parent s" c ?n] s(3) inv by (auto simp: sys_inv_def child_view_def)
  qed (simp add: child_view_def)
  then have "board_rel sz encode decode s \<lparr>bd_published = replicate ?n [], bd_shown = replicate ?n None\<rparr>"
    using s(2) by (intro board_relI [of _ _ _ _ _ "[]"]) (simp_all add: pub queued_def tracking_def queue_of_def tracks_clear)
  then show ?thesis by (auto simp: board_init_def)
qed

interpretation sys_board: forward_simulation "sys_init e ms" "sys_step sz encode decode (ms_ex ms)"
    "board_init (length (ms_ctxs ms))" board_step
    "\<lambda>s b. wire_ok sz encode decode s \<longrightarrow> board_rel sz encode decode s b"
  for e ms sz and encode :: "gpu_ipc_msg_t \<Rightarrow> 'b list" and decode
proof unfold_locales
  fix s :: "'b system" assume "sys_init e ms s"
  then show "\<exists>b. board_init (length (ms_ctxs ms)) b \<and> (wire_ok sz encode decode s \<longrightarrow> board_rel sz encode decode s b)"
    using sys_init_board by blast
next
  fix s u :: "'b system" and b
  assume "reach (sys_init e ms) (sys_step sz encode decode (ms_ex ms)) s" and step: "sys_step sz encode decode (ms_ex ms) s u"
    and rel: "wire_ok sz encode decode s \<longrightarrow> board_rel sz encode decode s b"
  then have "sys_inv e ms s" using sys.reach_inv by blast
  then show "\<exists>b'. (b' = b \<or> board_step b b') \<and> (wire_ok sz encode decode u \<longrightarrow> board_rel sz encode decode u b')"
    using sim_sys_step [OF _ _ step] sys_step_sent [OF step] rel by blast
qed

lemma tracks_view: "tracks ps shown slot q \<Longrightarrow> map_option ((!) ps) shown = slot"
  by (auto simp: tracks_def split: option.splits)

lemma board_rel_tracks:
  "board_rel sz encode decode s b \<Longrightarrow> i < length (published s) \<Longrightarrow>
   \<exists>q. tracks (published s ! i) (bd_shown b ! i) (child_view s i) q"
  unfolding board_rel_def tracking_def by blast

lemma board_rel_view:
  assumes "board_rel sz encode decode s b" "i < length (published s)"
  shows "board_view b i = child_view s i"
proof -
  obtain q where "tracks (published s ! i) (bd_shown b ! i) (child_view s i) q" using board_rel_tracks [OF assms] by blast
  from tracks_view [OF this] show ?thesis using assms(1) by (simp add: board_view_def board_rel_def comp_def)
qed

section \<open>What a slot shows\<close>

lemma shown_was_sent:
  assumes "reach (sys_init e ms) (sys_step sz encode decode (ms_ex ms)) s" "wire_ok sz encode decode s"
    and "i < length (ms_ctxs ms)" "child_view s i = Some sn"
  shows "\<exists>m\<in>set (t_sent (sy_threads s ! i)). msg_snapshot m = sn \<and> msg_ok (ms_ex ms) m \<and>
    msg_ident m = ctx_ident (ms_ctxs ms ! i)"
proof -
  obtain b where b: "board_rel sz encode decode s b" using sys_board.sim_reach [OF assms(1)] assms(2) by blast
  have inv: "sys_inv e ms s" by (rule sys.reach_inv [OF assms(1)])
  then have len: "i < length (published s)" "i < length (sy_threads s)" and th: "thread_ok e ms i (sy_threads s ! i)"
    using assms(3) by (simp_all add: sys_inv_def published_def)
  obtain q where "tracks (published s ! i) (bd_shown b ! i) (Some sn) q" using board_rel_tracks [OF b len(1)] assms(4) by auto
  then have "sn \<in> set (published s ! i)" by (auto simp: tracks_def split: option.splits)
  then obtain m where m: "m \<in> set (t_sent (sy_threads s ! i))" "msg_snapshot m = sn" using len(2) by (auto simp: published_def)
  then have "reach (poll_init (ms_ex ms)) (poll_step (ms_ex ms)) (sy_threads s ! i)"
    using th by (auto simp: thread_ok_def split: if_splits)
  from poll.reach_inv [OF this] have "msg_ok (ms_ex ms) m" using m(1) by (auto simp: thread_inv_def list_all_iff)
  then show ?thesis using m th by (auto simp: thread_ok_def list_all_iff)
qed

text \<open>Steps in which the same child keeps serving.\<close>

definition serve_step ::
    "nat \<Rightarrow> (gpu_ipc_msg_t \<Rightarrow> 'b list) \<Rightarrow> ('b list \<Rightarrow> gpu_ipc_msg_t) \<Rightarrow> exporter_t \<Rightarrow> 'b system \<Rightarrow> 'b system \<Rightarrow> bool" where
  "serve_step sz encode decode ex s u \<longleftrightarrow>
     sys_step sz encode decode ex s u \<and> sy_child s \<noteq> None \<and> sy_child u \<noteq> None"

lemma sys_step_published:
  assumes "sys_step sz encode decode ex s u"
  shows "length (published u) = length (published s) \<and> prefix (published s ! i) (published u ! i)"
  using assms
proof (cases rule: sys_step.cases)
  case (sys_poll j v env ws out)
  then have "published u = (published s)[j := map msg_snapshot (t_sent v)]" by (simp add: published_update)
  moreover have "prefix (published s ! j) (map msg_snapshot (t_sent v))"
    using pass_sends [OF sys_poll(4)] sys_poll(2) by (auto simp: published_def)
  ultimately show ?thesis using sys_poll(2) by (cases "j = i") (simp_all add: published_def)
next
  case (sys_stop j v)
  then show ?thesis by (simp add: published_def list_update_map_same)
qed (simp_all add: published_def)

lemma serving_forward:
  assumes "(serve_step sz encode decode (ms_ex ms))\<^sup>*\<^sup>* s u"
    and "reach (sys_init e ms) (sys_step sz encode decode (ms_ex ms)) s" "board_rel sz encode decode s b"
    and "wire_ok sz encode decode u"
  shows "reach (sys_init e ms) (sys_step sz encode decode (ms_ex ms)) u \<and>
    length (published u) = length (published s) \<and> prefix (published s ! i) (published u ! i) \<and>
    (\<exists>b'. forward b b' \<and> board_rel sz encode decode u b')"
  using assms
proof (induction rule: rtranclp_induct)
  case base
  then show ?case using forward_refl by blast
next
  case (step t u)
  have st: "sys_step sz encode decode (ms_ex ms) t u" "sy_child t \<noteq> None" "sy_child u \<noteq> None"
    using step(2) by (simp_all add: serve_step_def)
  obtain b1 where b1: "reach (sys_init e ms) (sys_step sz encode decode (ms_ex ms)) t" "length (published t) = length (published s)"
    "prefix (published s ! i) (published t ! i)" "forward b b1" "board_rel sz encode decode t b1"
    using step sys_step_sent [OF st(1)] by blast
  obtain b2 where b2: "forward b1 b2" "board_rel sz encode decode u b2"
    using sim_sys_step [OF sys.reach_inv [OF b1(1)] b1(5) st(1) step.prems(3)] st(2,3) by blast
  have "forward b b2" using forward_trans [OF b1(4) b2(1)] b1(2,5) assms(3) by (simp add: board_rel_def)
  moreover have "reach (sys_init e ms) (sys_step sz encode decode (ms_ex ms)) u" by (rule reach_step [OF b1(1) st(1)])
  ultimately show ?case using b1(2,3) b2(2) sys_step_published [OF st(1), of i] prefix_order.trans by metis
qed

text \<open>A slot that shows something goes on showing something while the same child serves; a thread that has
  ended sends nothing more.\<close>

lemma serving_keeps_view:
  assumes "reach (sys_init e ms) (sys_step sz encode decode (ms_ex ms)) s"
    and "(serve_step sz encode decode (ms_ex ms))\<^sup>*\<^sup>* s u" "wire_ok sz encode decode u"
    and "i < length (ms_ctxs ms)" "child_view s i \<noteq> None"
  shows "child_view u i \<noteq> None"
proof -
  have ok: "wire_ok sz encode decode s" using assms(2,3)
    by (induction rule: converse_rtranclp_induct) (auto simp: serve_step_def dest: sys_step_sent)
  then obtain b where b: "board_rel sz encode decode s b" using sys_board.sim_reach [OF assms(1)] by blast
  obtain b' where b': "length (published u) = length (published s)" "forward b b'" "board_rel sz encode decode u b'"
    using serving_forward [OF assms(2,1) b assms(3)] by blast
  have len: "i < length (published s)" using sys.reach_inv [OF assms(1)] assms(4) by (simp add: sys_inv_def published_def)
  obtain q q' where q: "tracks (published s ! i) (bd_shown b ! i) (child_view s i) q"
    "tracks (published u ! i) (bd_shown b' ! i) (child_view u i) q'"
    using board_rel_tracks [OF b len] board_rel_tracks [OF b'(3), of i] b'(1) len by auto
  obtain j where "bd_shown b ! i = Some j" using q(1) assms(5) by (auto simp: tracks_def split: option.splits)
  then obtain k where "bd_shown b' ! i = Some k" using b'(2) b len by (auto simp: forward_def board_rel_def)
  then show ?thesis using q(2) by (auto simp: tracks_def)
qed

lemma ended_thread_frozen:
  assumes "(serve_step sz encode decode ex)\<^sup>*\<^sup>* s u" "\<not> t_running (sy_threads s ! i)" "i < length (sy_threads s)"
  shows "\<not> t_running (sy_threads u ! i) \<and> t_sent (sy_threads u ! i) = t_sent (sy_threads s ! i) \<and>
    length (sy_threads u) = length (sy_threads s)"
  using assms
proof (induction rule: rtranclp_induct)
  case (step t u)
  then have "sys_step sz encode decode ex t u" and ih: "\<not> t_running (sy_threads t ! i)" "i < length (sy_threads t)"
    "t_sent (sy_threads t ! i) = t_sent (sy_threads s ! i)" "length (sy_threads t) = length (sy_threads s)"
    by (auto simp: serve_step_def)
  from this(1) show ?case
  proof (cases rule: sys_step.cases)
    case (sys_poll j v env ws out)
    then have "j \<noteq> i" using ih(1) by auto
    then show ?thesis using sys_poll(1) ih by simp
  next
    case (sys_stop j v)
    then show ?thesis using ih by (cases "j = i") simp_all
  qed (use ih in simp_all)
qed simp

lemma sys_started:
  assumes "reach (sys_init e ms) step s"
  shows "\<exists>evs. main_startup e = (evs, MainRun ms)"
  using assms by (induction rule: reach.induct) (auto simp: sys_init_def)

text \<open>The receiver takes the messages out of the socket one by one.\<close>

lemma receiver_takes_first:
  assumes "sy_child s = Some c" "g_running c" "sy_bytes s = encode m @ rest" "framed sz encode decode m" "0 < sz"
  shows "serve_step sz encode decode ex s (s\<lparr>sy_child := Some (receiver_pass (Some m) c), sy_bytes := rest\<rparr>)"
proof -
  obtain k where sz: "sz = Suc k" using assms(5) by (cases sz) auto
  have "receiver_turn sz decode [IoBytes sz] (sy_bytes s) c = Some (receiver_pass (Some m) c, rest)"
    using assms(3,4) by (simp add: receiver_turn_def snapshot_recv_def framed_def sz)
  from sys_step.sys_receive [OF assms(1,2) this] show ?thesis using assms(1) by (simp add: serve_step_def)
qed

lemma receiver_takes_all:
  "sy_child s = Some c \<Longrightarrow> g_running c \<Longrightarrow> sy_bytes s = concat (map encode q) \<Longrightarrow> list_all (framed sz encode decode) q \<Longrightarrow>
   0 < sz \<Longrightarrow>
   (serve_step sz encode decode ex ^^ length q) s (s\<lparr>sy_child := Some (ipc_receiver_thread (map Some q) c), sy_bytes := []\<rparr>)"
proof (induction q arbitrary: s c)
  case (Cons m q)
  let ?t = "s\<lparr>sy_child := Some (receiver_pass (Some m) c), sy_bytes := concat (map encode q)\<rparr>"
  have "serve_step sz encode decode ex s ?t" using receiver_takes_first [OF Cons.prems(1,2), of encode m] Cons.prems by simp
  moreover have "(serve_step sz encode decode ex ^^ length q) ?t
      (?t\<lparr>sy_child := Some (ipc_receiver_thread (map Some q) (receiver_pass (Some m) c)), sy_bytes := []\<rparr>)"
    using Cons.prems by (intro Cons.IH) (simp_all add: receiver_pass_running)
  ultimately show ?case using Cons.prems(2) relpowp_Suc_I2 [of "serve_step sz encode decode ex" s ?t] by simp
qed (simp add: equality)

text \<open>A healthy pass sends its snapshot; once the receiver has emptied the socket, the slot of the GPU shows it.\<close>

lemma healthy_pass_sends:
  assumes "c_gpu_present (t_ctx t)" "c_gpu_available (t_ctx t)" "\<not> c_stop (t_ctx t)" "env_error env = None"
    and "u = poll_thread_pass ex env t"
  shows "t_sent u = t_sent t @ [ipc_msg (t_ctx u)] \<and> sn_last_poll_ms (msg_snapshot (ipc_msg (t_ctx u))) = pe_now_ms env"
proof -
  obtain smp state where d: "poll_device ex env (t_ctx t) = poll_succeeded ex env smp state (t_ctx t)"
    using poll_device_ok_env [OF assms(4)] by blast
  obtain ctx act where p: "poll_succeeded ex env smp state (t_ctx t) = (ctx, act)" by force
  have "poll_iter ex env (t_ctx t) = (ctx, PollSend (ipc_msg ctx))"
    using assms(1,2) d p poll_succeeded_ctx(12) [OF p] by (simp add: poll_iter_def)
  moreover have "sn_last_poll_ms (c_snapshot ctx) = pe_now_ms env" using poll_succeeded_ctx(11) [OF p] by (simp add: assemble_fields)
  ultimately show ?thesis using assms(3,5) by (simp add: poll_thread_pass_def ipc_msg_def)
qed

lemma whole_write:
  assumes "length (encode (ipc_msg ctx)) = sz" "0 < sz"
  shows "snapshot_send encode ctx [IoBytes sz] = (encode (ipc_msg ctx), Some 0)"
  using assms by (cases "encode (ipc_msg ctx)") (auto simp: snapshot_send_def)

lemma poll_reaches_slot:
  assumes reach: "reach (sys_init e ms) (sys_step sz encode decode (ms_ex ms)) s" and wire: "wire_ok sz encode decode s"
    and rec: "receiving s" and i: "i < length (sy_threads s)" "t_running (sy_threads s ! i)"
    and ok: "c_gpu_available (t_ctx (sy_threads s ! i))" "\<not> c_stop (t_ctx (sy_threads s ! i))" "env_error env = None"
    and v: "v = poll_thread_pass (ms_ex ms) env (sy_threads s ! i)" and fr: "framed sz encode decode (ipc_msg (t_ctx v))"
  shows "\<exists>u. (serve_step sz encode decode (ms_ex ms))\<^sup>*\<^sup>* s u \<and> sy_threads u = (sy_threads s)[i := v] \<and> sy_bytes u = [] \<and>
    child_view u i = Some (msg_snapshot (ipc_msg (t_ctx v))) \<and>
    sn_last_poll_ms (msg_snapshot (ipc_msg (t_ctx v))) = pe_now_ms env \<and> wire_ok sz encode decode u \<and> receiving u \<and>
    (\<forall>j<length (sy_threads s). j \<noteq> i \<and> sy_bytes s = [] \<longrightarrow> child_view u j = child_view s j)"
proof -
  define m where "m = ipc_msg (t_ctx v)"
  have inv: "sys_inv e ms s" by (rule sys.reach_inv [OF reach])
  then have th: "thread_ok e ms i (sy_threads s ! i)" "c_gpu_index (ms_ctxs ms ! i) = int i" "i < length (ms_ctxs ms)"
    using i(1) by (simp_all add: sys_inv_def)
  have "c_gpu_present (t_ctx (sy_threads s ! i))"
    using th(1) i(2) poll.reach_inv [of "ms_ex ms" "sy_threads s ! i"] by (auto simp: thread_ok_def thread_inv_def split: if_splits)
  from healthy_pass_sends [OF this ok v] have sent: "t_sent v = t_sent (sy_threads s ! i) @ [m]"
    "sn_last_poll_ms (msg_snapshot m) = pe_now_ms env"
    by (simp_all add: m_def)
  have idx: "msg_gpu_index m = int i"
    using pass_sends [OF v] sent(1) th(1,2) by (simp add: m_def thread_ok_def msg_ident_def ctx_ident_def Let_def)
  obtain c where c: "sy_child s = Some c" "g_running c" using rec by (auto simp: receiving_def)
  have ci: "child_inv c" "int i < g_num_gpus c" using inv c(1) th(3) by (simp_all add: sys_inv_def)
  obtain q where q: "sy_bytes s = concat (map encode q)" "list_all (framed sz encode decode) q"
    using sys_board.sim_reach [OF reach] wire rec by (auto simp: board_rel_def queued_def)
  have sz: "0 < sz" using wire by (simp add: wire_ok_def)
  have "pass_writes encode (sy_child s \<noteq> None) [IoBytes sz] (sy_threads s ! i) v = Some (encode m)"
    using sent(1) c(1) fr whole_write [of encode "t_ctx v" sz] sz by (simp add: pass_writes_def m_def framed_def)
  from sys_step.sys_poll [OF i v this] have st: "serve_step sz encode decode (ms_ex ms) s
      (s\<lparr>sy_threads := (sy_threads s)[i := v], sy_bytes := sy_bytes s @ encode m\<rparr>)"
    using c(1) by (simp add: serve_step_def)
  let ?s = "s\<lparr>sy_threads := (sy_threads s)[i := v], sy_bytes := sy_bytes s @ encode m\<rparr>"
  let ?c = "ipc_receiver_thread (map Some (q @ [m])) c"
  let ?u = "?s\<lparr>sy_child := Some ?c, sy_bytes := []\<rparr>"
  have "(serve_step sz encode decode (ms_ex ms) ^^ length (q @ [m])) ?s ?u"
    by (rule receiver_takes_all [OF _ c(2) _ _ sz]) (use c(1) q fr in \<open>simp_all add: m_def\<close>)
  then have "(serve_step sz encode decode (ms_ex ms))\<^sup>*\<^sup>* ?s ?u" by (rule relpowp_imp_rtranclp)
  with st have "(serve_step sz encode decode (ms_ex ms))\<^sup>*\<^sup>* s ?u" by (rule converse_rtranclp_into_rtranclp)
  moreover have "child_view ?u i = Some (msg_snapshot m)"
    using receiver_run_from [OF ci(1) c(2) refl, of "q @ [m]"] ci(2) idx
    by (simp add: child_view_def newest_msg_snoc del: map_append)
  moreover have "wire_ok sz encode decode ?u"
  proof (rule wire_okI [OF sz])
    fix j m' assume j: "j < length (sy_threads ?u)" "m' \<in> set (t_sent (sy_threads ?u ! j))"
    have "framed sz encode decode m'" if "m' \<in> set (t_sent (sy_threads s ! j))" using wire_ok_framed [OF wire _ that] j(1) by simp
    then show "framed sz encode decode m'" using j i(1) sent(1) fr by (cases "j = i") (auto simp: m_def)
  qed
  moreover have run: "receiving ?u" "int (length (sy_threads s)) = g_num_gpus c"
    using receiver_run_from [OF ci(1) c(2) refl, of "q @ [m]"] inv c(1) by (simp_all add: receiving_def sys_inv_def del: map_append)
  moreover have "child_view ?u j = child_view s j" if "j < length (sy_threads s)" "j \<noteq> i" "sy_bytes s = []" for j
  proof -
    have "q = []" using that(3) q sz by (cases q) (auto simp: framed_def)
    then show ?thesis using receiver_run_from [OF ci(1) c(2) refl, of "q @ [m]"] that(1,2) run(2) idx c(1)
      by (simp add: child_view_def newest_msg_def Let_def)
  qed
  ultimately show ?thesis using sent(2) by (intro exI [of _ ?u]) (simp add: m_def)
qed

lemma serve_reach:
  assumes "reach (sys_init e ms) (sys_step sz encode decode (ms_ex ms)) s" "(serve_step sz encode decode (ms_ex ms))\<^sup>*\<^sup>* s u"
  shows "reach (sys_init e ms) (sys_step sz encode decode (ms_ex ms)) u"
  using assms(2,1) by (induction rule: rtranclp_induct) (auto simp: serve_step_def intro: reach_step)

text \<open>One pass of each thread, after which every slot shows the snapshot of its own pass.\<close>

definition healthy_thread :: "poll_thread_t \<Rightarrow> bool" where
  "healthy_thread t \<longleftrightarrow> t_running t \<and> c_gpu_available (t_ctx t) \<and> \<not> c_stop (t_ctx t)"

definition round_passes :: "exporter_t \<Rightarrow> (nat \<Rightarrow> poll_env) \<Rightarrow> 'b system \<Rightarrow> nat \<Rightarrow> poll_thread_t" where
  "round_passes ex envs s i = poll_thread_pass ex (envs i) (sy_threads s ! i)"

lemma round_pass_time:
  assumes "reach (sys_init e ms) (sys_step sz encode decode (ms_ex ms)) s" "i < length (sy_threads s)"
    and "healthy_thread (sy_threads s ! i)" "env_error (envs i) = None"
  shows "sn_last_poll_ms (msg_snapshot (ipc_msg (t_ctx (round_passes (ms_ex ms) envs s i)))) = pe_now_ms (envs i)"
proof -
  have "thread_ok e ms i (sy_threads s ! i)" using sys.reach_inv [OF assms(1)] assms(2) by (simp add: sys_inv_def)
  then have "c_gpu_present (t_ctx (sy_threads s ! i))" using assms(3) poll.reach_inv [of "ms_ex ms" "sy_threads s ! i"]
    by (auto simp: thread_ok_def thread_inv_def healthy_thread_def split: if_splits)
  then show ?thesis using healthy_pass_sends [OF _ _ _ assms(4) refl] assms(3) by (auto simp: healthy_thread_def round_passes_def)
qed

lemma healthy_round:
  assumes "reach (sys_init e ms) (sys_step sz encode decode (ms_ex ms)) s" "wire_ok sz encode decode s" "receiving s"
    and ok: "\<forall>i<length (sy_threads s). healthy_thread (sy_threads s ! i) \<and> env_error (envs i) = None \<and>
      framed sz encode decode (ipc_msg (t_ctx (round_passes (ms_ex ms) envs s i)))"
    and "k \<le> length (sy_threads s)"
  shows "\<exists>u. (serve_step sz encode decode (ms_ex ms))\<^sup>*\<^sup>* s u \<and> wire_ok sz encode decode u \<and> receiving u \<and> (k = 0 \<or> sy_bytes u = []) \<and>
    sy_threads u = map (round_passes (ms_ex ms) envs s) [0..<k] @ drop k (sy_threads s) \<and>
    (\<forall>i<k. child_view u i = Some (msg_snapshot (ipc_msg (t_ctx (round_passes (ms_ex ms) envs s i)))))"
  using assms(5)
proof (induction k)
  case 0
  then show ?case using assms(2,3) by (intro exI [of _ s]) simp
next
  case (Suc k)
  let ?v = "round_passes (ms_ex ms) envs s"
  obtain u where u: "(serve_step sz encode decode (ms_ex ms))\<^sup>*\<^sup>* s u" "wire_ok sz encode decode u" "receiving u" "k = 0 \<or> sy_bytes u = []"
    "sy_threads u = map ?v [0..<k] @ drop k (sy_threads s)" "\<forall>i<k. child_view u i = Some (msg_snapshot (ipc_msg (t_ctx (?v i))))"
    using Suc by auto
  have k: "k < length (sy_threads s)" using Suc.prems by simp
  then have th: "k < length (sy_threads u)" "sy_threads u ! k = sy_threads s ! k" "length (sy_threads u) = length (sy_threads s)"
    using u(5) by (simp_all add: nth_append)
  have v: "?v k = poll_thread_pass (ms_ex ms) (envs k) (sy_threads u ! k)" by (simp add: round_passes_def th)
  have h: "t_running (sy_threads u ! k)" "c_gpu_available (t_ctx (sy_threads u ! k))" "\<not> c_stop (t_ctx (sy_threads u ! k))"
    "env_error (envs k) = None" "framed sz encode decode (ipc_msg (t_ctx (?v k)))"
    using ok k unfolding th by (auto simp: healthy_thread_def)
  obtain w where w: "(serve_step sz encode decode (ms_ex ms))\<^sup>*\<^sup>* u w" "sy_threads w = (sy_threads u)[k := ?v k]" "sy_bytes w = []"
    "child_view w k = Some (msg_snapshot (ipc_msg (t_ctx (?v k))))" "wire_ok sz encode decode w" "receiving w"
    "\<forall>j<length (sy_threads u). j \<noteq> k \<and> sy_bytes u = [] \<longrightarrow> child_view w j = child_view u j"
    using poll_reaches_slot [OF serve_reach [OF assms(1) u(1)] u(2,3) th(1) h(1-4) v h(5)] by blast
  have "sy_threads w = map ?v [0..<Suc k] @ drop (Suc k) (sy_threads s)"
    using w(2) u(5) k by (simp add: list_update_append Cons_nth_drop_Suc [symmetric])
  moreover have "child_view w i = Some (msg_snapshot (ipc_msg (t_ctx (?v i))))" if "i < Suc k" for i
  proof (cases "i = k")
    case False
    then have "i < k" "sy_bytes u = []" using that u(4) by auto
    then show ?thesis using w(7) u(6) False k th(3) by simp
  qed (simp add: w(4))
  ultimately show ?case using rtranclp_trans [OF u(1) w(1)] w(3,5,6) by (intro exI [of _ w]) simp
qed

text \<open>The parent starts with any number of GPUs, but no child serves more than 256: with more, every
  child that is spawned exits and is replaced, and there is never a page.\<close>

lemma too_many_gpus_never_served:
  assumes "reach (sys_init e ms) (sys_step sz encode decode (ms_ex ms)) s" "256 < length (ms_ctxs ms)"
  shows "sy_child s = None"
  using sys.reach_inv [OF assms(1)] assms(2) by (cases "sy_child s") (auto simp: sys_inv_def child_inv_def)

section \<open>A concrete run\<close>

text \<open>One GPU: a pass that sends its snapshot, its receipt, and a signal to the child.\<close>

definition demo_boot :: boot_env where
  "demo_boot = \<lparr>bo_tls = (False, \<lparr>tl_seed = 0, tl_cert = 0, tl_key = 0, tl_defaults = 0, tl_own_cert = 0\<rparr>),
     bo_priv = \<lparr>prctl_ok = True, capset_ok = True, seccomp_ok = True\<rparr>,
     bo_proc = \<lparr>no_new_privs = False, caps = {}, seccomp_filter = None\<rparr>,
     bo_child = \<lparr>ch_init_reads = [IoBytes 4], ch_num_gpus = 0, ch_calloc_ok = True, ch_malloc_ok = True, ch_thread_ok = True,
       ch_listen = \<lparr>le_socket = 7, le_aton_ok = True, le_bind = 0, le_listen = 0\<rparr>\<rparr>\<rparr>"

lemma demo_boot_child: "p_num_gpus p = 1 \<Longrightarrow> boot_child demo_boot cfg p = Some (http_start 1 cfg)"
  using ipc_init_round_trip [of 1]
  by (simp add: boot_child_def demo_boot_def child_main_def procpriv_child_setup_def drop_all_caps_def
      install_child_seccomp_def http_child_run_def numeral_eq_Suc bind_listen_def Let_def)

lemma demo_wire_ok: "wire_ok 3 demo_encode demo_decode s"
  by (rule wire_okI) (simp_all add: framed_def demo_encode_length demo_decode_encode)

lemma demo_ident_lib_ok: "\<forall>i. ident_lib_ok (me_ident (demo_main 1) i)"
  by (simp add: demo_main_def demo_ident_def ident_lib_ok_def keeps_size_def copy_query_def)

lemma cfg_defaults_no_nan: "cfg_no_nan cfg_defaults"
  by (simp add: cfg_no_nan_def cfg_table_def cfg_entry_def cfg_get_def cfg_defaults_def default_doubles)

lemma demo_start:
  obtains ms s t where "sys_init (demo_main 1) ms (s :: (gpu_ipc_msg_t \<times> nat) system)" "e_cfg (ms_ex ms) = cfg_defaults"
    "length (ms_ctxs ms) = 1" "sy_threads s = [t]" "sy_bytes s = []" "sy_child s = Some (http_start 1 cfg_defaults)"
    "t_running t" "t_sent t = []" "c_gpu_present (t_ctx t)" "c_gpu_available (t_ctx t)" "\<not> c_stop (t_ctx t)" "c_gpu_index (t_ctx t) = 0"
proof -
  obtain evs ms where r: "main_startup (demo_main 1) = (evs, MainRun ms)" "e_cfg (ms_ex ms) = cfg_defaults"
    using demo_main_run by blast
  note run = startup_run [OF r(1)]
  have n: "length (ms_ctxs ms) = 1" "p_num_gpus (ms_parent ms) = 1" using run by (simp_all add: demo_main_def)
  define t where "t = \<lparr>t_ctx = ms_ctxs ms ! 0, t_running = True, t_sent = []\<rparr>"
  define s where "s = \<lparr>sy_threads = [t], sy_bytes = [] :: (gpu_ipc_msg_t \<times> nat) list,
    sy_child = Some (http_start 1 cfg_defaults), sy_parent = ms_parent ms\<rparr>"
  have th: "started_threads (demo_main 1) ms = [t]"
  proof (rule nth_equalityI)
    show len: "length (started_threads (demo_main 1) ms) = length [t]" using n(1) by (simp add: started_threads_def)
    fix i assume "i < length (started_threads (demo_main 1) ms)"
    then have "i = 0" using len by simp
    then show "started_threads (demo_main 1) ms ! i = [t] ! i"
      using n(1) started_threads_nth [of 0 ms "demo_main 1"] by (simp add: t_def) (simp add: demo_main_def)
  qed
  have i0: "sys_init (demo_main 1) ms s" unfolding sys_init_def
    using r n demo_boot_child [of "ms_parent ms" cfg_defaults] by (intro exI [of _ evs] exI [of _ demo_boot]) (simp add: s_def th)
  have "c_gpu_present (t_ctx t)" "c_gpu_available (t_ctx t)" "\<not> c_stop (t_ctx t)" "c_gpu_index (t_ctx t) = 0"
    using run n(1) by (simp_all add: t_def start_collector_def collector_start_def demo_main_def init_ctx_identity Let_def)
  from that [OF i0 r(2) n(1) _ _ _ _ _ this, of] show thesis by (simp add: s_def) (simp add: t_def)
qed

lemma demo_system:
  obtains ms w s u m where "reach (sys_init (demo_main 1) ms) (sys_step 3 demo_encode demo_decode (ms_ex ms)) w"
    "receiving w" "sy_bytes w = demo_encode m" "reach (sys_init (demo_main 1) ms) (sys_step 3 demo_encode demo_decode (ms_ex ms)) s"
    "serve_step 3 demo_encode demo_decode (ms_ex ms) s u" "e_cfg (ms_ex ms) = cfg_defaults" "length (ms_ctxs ms) = 1"
    "map t_sent (sy_threads s) = [[m]]" "child_view s 0 = Some (msg_snapshot m)"
    "sy_child s = Some (receiver_pass (Some m) (http_start 1 cfg_defaults))"
proof (rule demo_start)
  fix ms :: main_state and t and s0 :: "(gpu_ipc_msg_t \<times> nat) system"
  let ?c = "http_start 1 cfg_defaults" and ?step = "sys_step 3 demo_encode demo_decode (ms_ex ms)"
  assume i0: "sys_init (demo_main 1) ms s0" and r: "e_cfg (ms_ex ms) = cfg_defaults" "length (ms_ctxs ms) = 1"
    and s0: "sy_threads s0 = [t]" "sy_bytes s0 = []" "sy_child s0 = Some ?c" and t: "t_running t" "t_sent t = []"
    and ctx: "c_gpu_present (t_ctx t)" "c_gpu_available (t_ctx t)" "\<not> c_stop (t_ctx t)" "c_gpu_index (t_ctx t) = 0"
  define v where "v = poll_thread_pass (ms_ex ms) (demo_env 0) t"
  define m where "m = ipc_msg (t_ctx v)"
  define s1 where "s1 = s0\<lparr>sy_threads := [v], sy_bytes := demo_encode m\<rparr>"
  define s where "s = s1\<lparr>sy_child := Some (receiver_pass (Some m) ?c), sy_bytes := []\<rparr>"
  define u where "u = s\<lparr>sy_child := Some (handle_sigterm (receiver_pass (Some m) ?c))\<rparr>"
  have sent: "t_sent v = [m]"
    using healthy_pass_sends [OF ctx(1-3), of "demo_env 0" v "ms_ex ms"] by (simp add: v_def m_def demo_env_error t)
  have idx: "msg_gpu_index m = 0"
    using pass_sends [OF v_def] sent ctx(4) by (simp add: m_def t ipc_msg_def ctx_ident_def)
  have wr: "pass_writes demo_encode True [IoBytes 3] t v = Some (demo_encode m)"
    using sent by (simp add: pass_writes_def t snapshot_send_def m_def demo_encode_def)
  have "?step s0 (s0\<lparr>sy_threads := (sy_threads s0)[0 := v], sy_bytes := sy_bytes s0 @ demo_encode m\<rparr>)"
  proof (rule sys_step.sys_poll)
    show "v = poll_thread_pass (ms_ex ms) (demo_env 0) (sy_threads s0 ! 0)" by (simp add: s0 v_def)
    show "pass_writes demo_encode (sy_child s0 \<noteq> None) [IoBytes 3] (sy_threads s0 ! 0) v = Some (demo_encode m)"
      using wr by (simp add: s0)
  qed (simp_all add: s0 t)
  then have st1: "?step s0 s1" by (simp add: s1_def s0)
  have c1: "sy_child s1 = Some ?c" "g_running ?c" "sy_bytes s1 = demo_encode m @ []"
    by (simp_all add: s1_def s0 http_start_def)
  have "framed 3 demo_encode demo_decode m" by (simp add: framed_def demo_encode_length demo_decode_encode)
  from receiver_takes_first [where encode = demo_encode, OF c1 this, of "ms_ex ms"] have st2: "?step s1 s"
    by (simp add: serve_step_def s_def)
  have "?step s u" using sys_step.sys_sigterm [of s _ 3 demo_encode demo_decode "ms_ex ms"] by (simp add: u_def s_def)
  then have sv: "serve_step 3 demo_encode demo_decode (ms_ex ms) s u" by (simp add: serve_step_def s_def u_def)
  have view: "child_view s 0 = Some (msg_snapshot m)"
    using receiver_pass_view [OF http_start_inv, of 1 0 cfg_defaults m] idx by (simp add: s_def child_view_def http_start_def)
  have snt: "map t_sent (sy_threads s) = [[m]]" using sent by (simp add: s_def s1_def)
  have r1: "reach (sys_init (demo_main 1) ms) ?step s1"
    by (rule reach_step) (rule reach_init [where init = "sys_init (demo_main 1) ms", OF i0], rule st1)
  have r2: "reach (sys_init (demo_main 1) ms) ?step s" by (rule reach_step) (rule r1, rule st2)
  have "receiving s1" "sy_bytes s1 = demo_encode m" using c1 by (simp_all add: receiving_def)
  moreover have "sy_child s = Some (receiver_pass (Some m) ?c)" by (simp add: s_def)
  ultimately show thesis using that [OF r1 _ _ r2 sv r snt view] by blast
qed

text \<open>The thread of that run is stopped and makes its last pass.\<close>

lemma demo_thread_ends:
  assumes "reach (sys_init (demo_main 1) ms) (sys_step 3 demo_encode demo_decode (ms_ex ms)) s" "map t_sent (sy_threads s) = [[m]]"
  shows "\<exists>u. reach (sys_init (demo_main 1) ms) (sys_step 3 demo_encode demo_decode (ms_ex ms)) u \<and> \<not> t_running (sy_threads u ! 0) \<and>
    published u = [[msg_snapshot m]] \<and> sy_child u = sy_child s"
proof -
  obtain t where t: "sy_threads s = [t]" "t_sent t = [m]" using assms(2) by auto
  define v where "v = t\<lparr>t_ctx := collector_stop (t_ctx t)\<rparr>"
  let ?s = "s\<lparr>sy_threads := [v]\<rparr>" and ?step = "sys_step 3 demo_encode demo_decode (ms_ex ms)"
  have "?step s (s\<lparr>sy_threads := (sy_threads s)[0 := v]\<rparr>)" by (rule sys_step.sys_stop) (simp_all add: t v_def)
  then have r: "reach (sys_init (demo_main 1) ms) ?step ?s" using reach_step [OF assms(1)] by (simp add: t)
  show ?thesis
  proof (cases "t_running v")
    case True
    define w where "w = v\<lparr>t_running := False\<rparr>"
    have w: "w = poll_thread_pass (ms_ex ms) (demo_env 0) (sy_threads ?s ! 0)"
      by (simp add: poll_thread_pass_def v_def w_def collector_stop_def)
    have "?step ?s (?s\<lparr>sy_threads := (sy_threads ?s)[0 := w], sy_bytes := sy_bytes ?s @ []\<rparr>)"
      by (rule sys_step.sys_poll [OF _ _ w]) (simp_all add: True pass_writes_def w_def)
    from reach_step [OF r this] show ?thesis by (intro exI conjI, assumption) (simp_all add: w_def v_def published_def t)
  next
    case False
    then show ?thesis using r by (intro exI [of _ ?s]) (simp add: v_def published_def t)
  qed
qed

section \<open>Properties of the system\<close>

text \<open>C1. The program is a board: over every run of the whole program, with any interleaving of the poll
  threads, the receiver, lost messages, signals, deaths and respawns of the child, there is a run of
  the board with the same published snapshots in which the child's slots are exactly what the board
  shows. So a slot always shows a snapshot that its own GPU's thread has published, and never an older
  one than before, until the child is replaced.\<close>

theorem system_refines_board:
  assumes "reach (sys_init e ms) (sys_step sz encode decode (ms_ex ms)) s" "wire_ok sz encode decode s"
  shows "\<exists>b. reach (board_init (length (ms_ctxs ms))) board_step b \<and> bd_published b = published s \<and>
    list_all (\<lambda>i. board_view b i = child_view s i) [0..<length (ms_ctxs ms)]"
proof -
  obtain b where b: "reach (board_init (length (ms_ctxs ms))) board_step b" "board_rel sz encode decode s b"
    using sys_board.sim_reach [OF assms(1)] assms(2) by blast
  have "length (published s) = length (ms_ctxs ms)" using sys.reach_inv [OF assms(1)] by (simp add: sys_inv_def published_def)
  then show ?thesis using b board_rel_view [OF b(2)] by (intro exI [of _ b]) (simp add: list_all_iff board_rel_def)
qed

theorem system_refines_board_witness:
  "\<exists>ms s. reach (sys_init (demo_main 1) ms) (sys_step 3 demo_encode demo_decode (ms_ex ms)) s \<and>
     (\<exists>b. reach (board_init 1) board_step b \<and> length (bd_published b ! 0) = 1 \<and> board_view b 0 \<noteq> None)"
proof -
  obtain ms s m where s: "reach (sys_init (demo_main 1) ms) (sys_step 3 demo_encode demo_decode (ms_ex ms)) s"
    "length (ms_ctxs ms) = 1" "map t_sent (sy_threads s) = [[m]]" "child_view s 0 = Some (msg_snapshot m)"
    by (rule demo_system)
  have "published s = [[msg_snapshot m]]" using s(3) by (auto simp: published_def)
  then show ?thesis using system_refines_board [OF s(1) demo_wire_ok] s(1,2,4) by auto
qed

text \<open>C9. What a slot shows never goes back: while the same child serves, a slot that shows a snapshot
  goes on showing that or a later one of the snapshots that the GPU's thread has published, whatever the
  threads do and whichever messages are lost.\<close>

theorem slots_never_go_back:
  assumes "reach (sys_init e ms) (sys_step sz encode decode (ms_ex ms)) s"
    and "(serve_step sz encode decode (ms_ex ms))\<^sup>*\<^sup>* s u" "wire_ok sz encode decode u"
    and "i < length (ms_ctxs ms)" "child_view s i = Some sn"
  shows "prefix (published s ! i) (published u ! i) \<and>
    (\<exists>j k. j \<le> k \<and> k < length (published u ! i) \<and> published u ! i ! j = sn \<and> child_view u i = Some (published u ! i ! k))"
proof -
  have ok: "wire_ok sz encode decode s" using assms(2,3)
    by (induction rule: converse_rtranclp_induct) (auto simp: serve_step_def dest: sys_step_sent)
  then obtain b where b: "board_rel sz encode decode s b" using sys_board.sim_reach [OF assms(1)] by blast
  obtain b' where b': "length (published u) = length (published s)" "prefix (published s ! i) (published u ! i)"
    "forward b b'" "board_rel sz encode decode u b'"
    using serving_forward [OF assms(2,1) b assms(3)] by blast
  have len: "i < length (published s)" using sys.reach_inv [OF assms(1)] assms(4) by (simp add: sys_inv_def published_def)
  obtain q q' where q: "tracks (published s ! i) (bd_shown b ! i) (Some sn) q"
    "tracks (published u ! i) (bd_shown b' ! i) (child_view u i) q'"
    using board_rel_tracks [OF b len] board_rel_tracks [OF b'(4), of i] b'(1) len assms(5) by auto
  then obtain j where j: "bd_shown b ! i = Some j" "j < length (published s ! i)" "published s ! i ! j = sn"
    by (auto simp: tracks_def split: option.splits)
  then obtain k where k: "j \<le> k" "bd_shown b' ! i = Some k" using b'(3) b len by (auto simp: forward_def board_rel_def)
  have "published u ! i ! j = sn" using b'(2) j(2,3) by (auto simp: prefix_def nth_append)
  then show ?thesis using k q(2) b'(2) by (auto simp: tracks_def)
qed

theorem slots_never_go_back_witness:
  "\<exists>ms s u. reach (sys_init (demo_main 1) ms) (sys_step 3 demo_encode demo_decode (ms_ex ms)) s \<and>
     serve_step 3 demo_encode demo_decode (ms_ex ms) s u \<and> child_view s 0 \<noteq> None \<and> child_view u 0 \<noteq> None"
proof -
  obtain ms s u and m :: gpu_ipc_msg_t where s: "reach (sys_init (demo_main 1) ms) (sys_step 3 demo_encode demo_decode (ms_ex ms)) s"
    "serve_step 3 demo_encode demo_decode (ms_ex ms) s u" "length (ms_ctxs ms) = 1" "child_view s 0 = Some (msg_snapshot m)"
    by (rule demo_system)
  then show ?thesis using slots_never_go_back [OF s(1) r_into_rtranclp [of "serve_step 3 demo_encode demo_decode (ms_ex ms)", OF s(2)] demo_wire_ok _ s(4)]
    by auto
qed

text \<open>What a slot shows fits the lines that are printed from it, so its score is on the page.\<close>

lemma max_link_range: "c_int_range (max_link q)"
proof -
  have "c_int_range (sint u)" for u :: u32 using sint_lt [of u] sint_ge [of u] by (simp add: c_int_range_def)
  then show ?thesis by (auto simp: max_link_def c_int_range_def split: option.splits)
qed

lemma shown_is_small:
  assumes "reach (sys_init e ms) (sys_step sz encode decode (ms_ex ms)) s" "wire_ok sz encode decode s"
    and "cfg_no_nan (e_cfg (ms_ex ms))" "\<forall>i. ident_lib_ok (me_ident e i)" "i < length (ms_ctxs ms)" "child_view s i = Some sn"
  shows "small_snapshot sn"
proof -
  obtain evs where start: "main_startup e = (evs, MainRun ms)" using sys_started [OF assms(1)] by blast
  note run = startup_run [OF start]
  obtain m where m: "m \<in> set (t_sent (sy_threads s ! i))" "msg_snapshot m = sn" "msg_ok (ms_ex ms) m"
    "msg_ident m = ctx_ident (ms_ctxs ms ! i)"
    using shown_was_sent [OF assms(1,2,5,6)] by blast
  obtain path where "config_load (me_fopen e) (me_getenv e) (Some path) = Some (e_cfg (ms_ex ms))" using run by blast
  then have score: "\<exists>q. sn_score sn = Fin q \<and> 0 \<le> q \<and> q \<le> 100"
    using m(2,3) config_load_in_range assms(3) by (auto simp: msg_ok_def Let_def)
  have "shows_boot (boot_data (ms_ctxs ms ! i)) sn"
    using boots.reach_inv [OF assms(1)] assms(5) m(1,2) by (auto simp: boots_kept_def boot_kept_def list_all_iff)
  then have link: "c_int_range (sn_pcie_link_gen_max sn)" "c_int_range (sn_pcie_link_width_max sn)"
    using startup_boot [OF start assms(5)] by (simp_all add: shows_boot_def max_link_range)
  have "ctx_ident (ms_ctxs ms ! i) = (int i, sn_serial sn, sn_uuid sn, sn_gpu_model sn, sn_driver_version sn)" "int i < 2 ^ 31"
    "length (sn_serial sn) < SERIAL_SIZE" "length (sn_uuid sn) < UUID_SIZE" "length (sn_gpu_model sn) < MODEL_SIZE"
    "length (sn_driver_version sn) < DRIVER_SIZE"
    using run m assms(5) init_ctx_fits [of "me_ident e i"] assms(4)
    by (simp_all add: ctx_ident_def msg_ident_def Let_def start_collector_identity init_ctx_identity)
  then show ?thesis using score link m(2-4)
    by (simp add: small_snapshot_def c_int_range_def msg_ident_def msg_ok_def Let_def SERIAL_SIZE_def UUID_SIZE_def MODEL_SIZE_def DRIVER_SIZE_def)
qed

lemma shown_score_line:
  assumes "reach (sys_init e ms) (sys_step sz encode decode (ms_ex ms)) s" "wire_ok sz encode decode s"
    and "cfg_no_nan (e_cfg (ms_ex ms))" "\<forall>i. ident_lib_ok (me_ident e i)" "sy_child s = Some c" "i < length (ms_ctxs ms)"
    and "slot_view c i = Some sn"
  shows "on_page (score_line sn) (rsp_body (handle_request True True now c ''GET'' ''/metrics''))"
proof -
  have len: "length (g_slots c) = length (ms_ctxs ms)" "length (g_slots c) \<le> 256"
    using sys.reach_inv [OF assms(1)] assms(5) by (auto simp: sys_inv_def child_inv_def)
  have "small_snapshot (snap (g_slots c ! j))" if "j < length (g_slots c)" "received (g_slots c ! j)" for j
    using shown_is_small [OF assms(1-4), of j] that len assms(5) by (simp add: child_view_def slot_view_def)
  then have "list_all (\<lambda>sl. small_snapshot (snap sl)) (filter received (g_slots c))"
    by (auto simp: list_all_iff in_set_conv_nth)
  moreover have "g_slots c ! i \<in> set (g_slots c)" "received (g_slots c ! i)" "snap (g_slots c ! i) = sn"
    using assms(6,7) len by (simp_all add: slot_view_def split: if_splits)
  moreover have "130000 \<le> METRICS_BUF_SIZE - 1" by (simp add: METRICS_BUF_SIZE_def)
  ultimately show ?thesis
    using score_survives_cut [of "g_slots c" "METRICS_BUF_SIZE - 1" "g_slots c ! i"] len(2) by (simp add: handle_request_def render_metrics_text)
qed

definition ident_fits :: "ident_t \<Rightarrow> bool" where
  "ident_fits d \<longleftrightarrow>
     (case d of (i, serial, uuid, model, driver) \<Rightarrow>
        0 \<le> i \<and> i < 2 ^ 31 \<and> length serial < SERIAL_SIZE \<and> length uuid < UUID_SIZE \<and> length model < MODEL_SIZE \<and>
        length driver < DRIVER_SIZE)"

text \<open>C12. The types of the data hold in every reachable state: when the driver's string queries write no
  more than the size they are given, the strings of every context and of every message ever sent
  end within their arrays, the index of a message is that of its thread, the ring of a running thread
  is well formed, and the child has one slot for each thread.\<close>

theorem system_well_typed:
  assumes "reach (sys_init e ms) (sys_step sz encode decode (ms_ex ms)) s" "\<forall>i. ident_lib_ok (me_ident e i)"
  shows "list_all (\<lambda>i. ident_fits (ctx_ident (t_ctx (sy_threads s ! i))) \<and>
      list_all (\<lambda>m. ident_fits (msg_ident m) \<and> msg_gpu_index m = int i) (t_sent (sy_threads s ! i)) \<and>
      (t_running (sy_threads s ! i) \<longrightarrow>
        ring_wf_cap (c_div (window_s (e_cfg (ms_ex ms))) (poll_interval_s (e_cfg (ms_ex ms)))) (c_ring (t_ctx (sy_threads s ! i)))))
      [0..<length (sy_threads s)] \<and>
    (case sy_child s of None \<Rightarrow> True | Some c \<Rightarrow> length (g_slots c) = length (sy_threads s))"
proof -
  obtain evs where m: "main_startup e = (evs, MainRun ms)" using sys_started [OF assms(1)] by blast
  note run = startup_run [OF m]
  have inv: "sys_inv e ms s" by (rule sys.reach_inv [OF assms(1)])
  have fits: "ident_fits (ctx_ident (ms_ctxs ms ! i))" if "i < length (ms_ctxs ms)" for i
    using run that init_ctx_fits [of "me_ident e i"] assms(2)
    by (simp add: ident_fits_def ctx_ident_def start_collector_identity init_ctx_identity)
  have "ident_fits (ctx_ident (t_ctx (sy_threads s ! i))) \<and>
      list_all (\<lambda>m. ident_fits (msg_ident m) \<and> msg_gpu_index m = int i) (t_sent (sy_threads s ! i)) \<and>
      (t_running (sy_threads s ! i) \<longrightarrow>
        ring_wf_cap (c_div (window_s (e_cfg (ms_ex ms))) (poll_interval_s (e_cfg (ms_ex ms)))) (c_ring (t_ctx (sy_threads s ! i))))"
    if "i < length (sy_threads s)" for i
  proof -
    have i: "i < length (ms_ctxs ms)" and th: "thread_ok e ms i (sy_threads s ! i)" and idx: "c_gpu_index (ms_ctxs ms ! i) = int i"
      using inv that by (simp_all add: sys_inv_def)
    have "msg_gpu_index m = int i" if "msg_ident m = ctx_ident (ms_ctxs ms ! i)" for m
      using that idx by (simp add: msg_ident_def ctx_ident_def Let_def)
    then show ?thesis using th fits [OF i] poll.reach_inv [of "ms_ex ms" "sy_threads s ! i"]
      by (auto simp: thread_ok_def thread_inv_def ctx_ok_def list_all_iff split: if_splits)
  qed
  moreover have "length (g_slots c) = length (sy_threads s)" if "sy_child s = Some c" for c
    using inv that by (auto simp: sys_inv_def child_inv_def)
  ultimately show ?thesis by (auto simp: list_all_iff split: option.splits)
qed

theorem system_well_typed_witness:
  "\<exists>ms s m. reach (sys_init (demo_main 1) ms) (sys_step 3 demo_encode demo_decode (ms_ex ms)) s \<and>
     map t_sent (sy_threads s) = [[m]] \<and> ident_fits (msg_ident m)"
proof -
  obtain ms s m where s: "reach (sys_init (demo_main 1) ms) (sys_step 3 demo_encode demo_decode (ms_ex ms)) s"
    "map t_sent (sy_threads s) = [[m]]"
    by (rule demo_system)
  from system_well_typed [OF s(1) demo_ident_lib_ok] s(2) have "ident_fits (msg_ident m)" by (cases "sy_threads s") auto
  then show ?thesis using s by (intro exI conjI)
qed

text \<open>C13. No message is stuck: from every reachable state in which the child receives, as many turns of its
  receiver as there are messages in the socket empty it. Each slot then shows the newest of the messages
  that were on their way to it, and what it showed before when there was none.\<close>

theorem socket_drains:
  assumes "reach (sys_init e ms) (sys_step sz encode decode (ms_ex ms)) s" "wire_ok sz encode decode s" "receiving s"
  shows "\<exists>q u. sy_bytes s = concat (map encode q) \<and>
    (serve_step sz encode decode (ms_ex ms) ^^ (length (sy_bytes s) div sz)) s u \<and>
    sy_bytes u = [] \<and> sy_threads u = sy_threads s \<and> receiving u \<and>
    list_all (\<lambda>i. child_view u i = (case newest_msg i q of None \<Rightarrow> child_view s i | Some sn \<Rightarrow> Some sn)) [0..<length (ms_ctxs ms)]"
proof -
  obtain b where b: "board_rel sz encode decode s b" using sys_board.sim_reach [OF assms(1)] assms(2) by blast
  obtain q where q: "sy_bytes s = concat (map encode q)" "list_all (framed sz encode decode) q"
    using b assms(3) by (auto simp: board_rel_def queued_def)
  obtain c where c: "sy_child s = Some c" "g_running c" using assms(3) by (auto simp: receiving_def)
  then have ci: "child_inv c" "g_num_gpus c = int (length (ms_ctxs ms))"
    using sys.reach_inv [OF assms(1)] by (simp_all add: sys_inv_def)
  have sz: "0 < sz" using assms(2) by (simp add: wire_ok_def)
  have "length (concat (map encode q)) = sz * length q" using q(2)
    by (induction q) (simp_all add: framed_def)
  then have n: "length (sy_bytes s) div sz = length q" using sz q(1) by simp
  let ?c = "ipc_receiver_thread (map Some q) c"
  let ?u = "s\<lparr>sy_child := Some ?c, sy_bytes := []\<rparr>"
  note run = receiver_run_from [OF ci(1) c(2) refl, of q]
  have "(serve_step sz encode decode (ms_ex ms) ^^ (length (sy_bytes s) div sz)) s ?u"
    unfolding n by (rule receiver_takes_all [OF c q sz])
  moreover have "receiving ?u" using run by (simp add: receiving_def)
  moreover have "list_all (\<lambda>i. child_view ?u i = (case newest_msg i q of None \<Rightarrow> child_view s i | Some sn \<Rightarrow> Some sn))
      [0..<length (ms_ctxs ms)]"
    using run ci(2) c(1) by (simp add: list_all_iff child_view_def cong: option.case_cong)
  ultimately show ?thesis using q(1) by (intro exI [of _ q] exI [of _ ?u]) simp
qed

theorem socket_drains_witness:
  "\<exists>ms w u. reach (sys_init (demo_main 1) ms) (sys_step 3 demo_encode demo_decode (ms_ex ms)) w \<and> length (sy_bytes w) = 3 \<and>
     (serve_step 3 demo_encode demo_decode (ms_ex ms) ^^ 1) w u \<and> sy_bytes u = []"
proof -
  obtain ms w m where w: "reach (sys_init (demo_main 1) ms) (sys_step 3 demo_encode demo_decode (ms_ex ms)) w" "receiving w"
    "sy_bytes w = demo_encode m"
    by (rule demo_system)
  have len: "length (sy_bytes w) = 3" by (simp add: w(3) demo_encode_length)
  obtain u where "(serve_step 3 demo_encode demo_decode (ms_ex ms) ^^ (length (sy_bytes w) div 3)) w u" "sy_bytes u = []"
    using socket_drains [OF w(1) demo_wire_ok w(2)] by (elim exE conjE) (rule that)
  then show ?thesis using w(1) len by (intro exI [of _ ms] exI [of _ w] exI [of _ u]) (simp del: relpowp.simps relpowp_1)
qed

text \<open>C14. The probe result of a GPU is the one that was found at startup, for as long as the exporter runs:
  in every reachable state the threads score with it, and whatever the page shows says of it what was
  true at startup. In particular a result is shown as stale exactly when it had outlived its time to live
  when the exporter started: a result that was fresh then is shown as fresh for ever, and the result of
  a later run of the probe is never used.\<close>

theorem probe_result_frozen_at_startup:
  assumes "reach (sys_init e ms) (sys_step sz encode decode (ms_ex ms)) s" "wire_ok sz encode decode s"
    and "i < length (ms_ctxs ms)" "cfg = e_cfg (ms_ex ms)"
    and "p = probe_load (me_fopen e) (me_now_s e) (state_dir cfg) (fst (read_identity (me_ident e i))) (probe_ttl_s cfg)"
  shows "c_probe (t_ctx (sy_threads s ! i)) = p \<and>
    (case child_view s i of None \<Rightarrow> True
     | Some sn \<Rightarrow> sn_probe_available sn = pr_available p \<and>
         (sn_probe_stale sn \<longleftrightarrow> pr_available p \<and> probe_ttl_s cfg < uint (me_now_s e) - uint (pr_probe_timestamp_s p)))"
proof -
  obtain evs where start: "main_startup e = (evs, MainRun ms)" using sys_started [OF assms(1)] by blast
  obtain path where "config_load (me_fopen e) (me_getenv e) (Some path) = Some cfg"
    using startup_run [OF start] unfolding assms(4) by blast
  from cfg_in_range_ints [OF config_load_in_range [OF this]] have ttl: "0 \<le> probe_ttl_s cfg" "probe_ttl_s cfg < 2 ^ 31" by auto
  obtain gen width where kept: "boot_kept (p, gen, width) (sy_threads s ! i)"
    using boots.reach_inv [OF assms(1)] startup_boot [OF start assms(3)] assms(3-5) by (auto simp: boots_kept_def)
  moreover have "sn_probe_available sn = pr_available p \<and> sn_probe_stale sn = pr_stale p" if "child_view s i = Some sn" for sn
    using shown_was_sent [OF assms(1-3) that] kept by (auto simp: boot_kept_def shows_boot_def list_all_iff)
  ultimately show ?thesis using probe_staleness_exact [OF assms(5) ttl]
    by (auto simp: boot_kept_def boot_data_def split: option.splits)
qed

lemma demo_main_probe:
  "probe_load (me_fopen (demo_main 1)) (me_now_s (demo_main 1)) (state_dir cfg_defaults)
     (fst (read_identity (me_ident (demo_main 1) 0))) (probe_ttl_s cfg_defaults) = demo_probe\<lparr>pr_stale := False\<rparr>"
proof -
  have "probe_load (\<lambda>_. Some demo_probe_file) 1773584580 ''/var/run/gpu-health'' ''S1'' 129600 = demo_probe\<lparr>pr_stale := False\<rparr>"
    by code_simp
  moreover have "fst (read_identity (me_ident (demo_main 1) 0)) = ''S1''"
    by (simp add: demo_main_def demo_ident_def read_identity_def copy_query_def SERIAL_SIZE_def)
  ultimately show ?thesis by (simp add: probe_load_def demo_main_def probe_path_def cfg_defaults_def)
qed

theorem probe_result_frozen_at_startup_witness:
  "\<exists>ms s sn. reach (sys_init (demo_main 1) ms) (sys_step 3 demo_encode demo_decode (ms_ex ms)) s \<and>
     child_view s 0 = Some sn \<and> sn_probe_available sn \<and> \<not> sn_probe_stale sn"
proof -
  obtain ms s and m :: gpu_ipc_msg_t where s: "reach (sys_init (demo_main 1) ms) (sys_step 3 demo_encode demo_decode (ms_ex ms)) s"
    "e_cfg (ms_ex ms) = cfg_defaults" "length (ms_ctxs ms) = 1" "child_view s 0 = Some (msg_snapshot m)"
    by (rule demo_system)
  have "sn_probe_available (msg_snapshot m) \<and> \<not> sn_probe_stale (msg_snapshot m)"
    using probe_result_frozen_at_startup [OF s(1) demo_wire_ok _ refl refl, of 0] s(2-4)
    by (simp add: demo_main_probe) (simp add: demo_probe_def demo_main_def cfg_defaults_def)
  then show ?thesis using s by (intro exI [of _ ms] exI [of _ s] exI [of _ "msg_snapshot m"]) simp
qed

end
