(* ===== verification/Calendar.thy ===== *)
theory Calendar
  imports StateFiles Metrics
begin

text \<open>
  Time stamps: \<open>time_iso8601\<close> and the line of \<open>log_msg\<close> of \<^verbatim>\<open>src/util.c\<close>, with the parts of \<open>gmtime_r\<close> and
  \<open>strftime\<close> they use. The proleptic Gregorian calendar is computed by splitting the days since the
  first of January of the year 1 into cycles of 400, 100, 4 and 1 years. The main result is that
  printing a time and reading it with \<open>parse_iso8601\<close> gives the time back.
\<close>

section \<open>Broken-down time\<close>

definition split_days :: "int \<Rightarrow> int \<times> int" where
  "split_days n =
     (let a = n div 146097; r = n mod 146097;
          b = min 3 (r div 36524); r = r - b * 36524;
          c = r div 1461; r = r mod 1461;
          e = min 3 (r div 365)
      in (400 * a + 100 * b + 4 * c + e + 1, r - 365 * e))"

definition month_of :: "bool \<Rightarrow> int \<Rightarrow> int" where
  "month_of leap yday = int (length (filter (\<lambda>m. days_before_month leap m \<le> yday) [1, 2, 3, 4, 5, 6, 7, 8, 9, 10, 11]))"

definition gmtime :: "int \<Rightarrow> tm" where
  "gmtime t =
     (let (year, yday) = split_days (t div 86400 + days_before_year 1970);
          mon = month_of (is_leap year) yday;
          s = t mod 86400
      in \<lparr>tm_year = year - 1900, tm_mon = mon, tm_mday = yday - days_before_month (is_leap year) mon + 1,
          tm_hour = s div 3600, tm_min = s div 60 mod 60, tm_sec = s mod 60\<rparr>)"

section \<open>Printing\<close>

text \<open>The format \<open>%Y-%m-%dT%H:%M:%SZ\<close>.\<close>

definition two :: "int \<Rightarrow> string" where
  "two n = pad_left 2 (fmt_u (nat n))"

definition strftime_iso :: "tm \<Rightarrow> string" where
  "strftime_iso t =
     fmt_u (nat (tm_year t + 1900)) @ ''-'' @ two (tm_mon t + 1) @ ''-'' @ two (tm_mday t) @ ''T'' @
     two (tm_hour t) @ '':'' @ two (tm_min t) @ '':'' @ two (tm_sec t) @ ''Z''"

text \<open>A result that does not fit the buffer leaves it unspecified; then \<open>None\<close>.\<close>

definition time_iso8601 :: "u64 \<Rightarrow> nat \<Rightarrow> string option" where
  "time_iso8601 epoch_s len =
     (let s = strftime_iso (gmtime (sint epoch_s)) in if length s < len then Some s else None)"

fun level_label :: "log_level_t \<Rightarrow> string" where
  "level_label LOG_DEBUG = ''DEBUG''"
| "level_label LOG_INFO = ''INFO ''"
| "level_label LOG_WARN = ''WARN ''"
| "level_label LOG_ERROR = ''ERROR''"

text \<open>What is written to the standard error for a message that is already formatted.\<close>

definition log_msg :: "log_level_t \<Rightarrow> log_level_t \<Rightarrow> int \<Rightarrow> string \<Rightarrow> string" where
  "log_msg g_log_level level tv_sec msg =
     (if log_level_code level < log_level_code g_log_level then []
      else ''['' @ level_label level @ ''] '' @ strftime_iso (gmtime tv_sec) @ '' '' @ msg @ [nl])"

section \<open>The calendar\<close>

lemma min_div:
  fixes m r :: int
  assumes "0 < m" "0 \<le> r" "r < 4 * m + 1"
  shows "let q = min 3 (r div m) in 0 \<le> q \<and> q \<le> 3 \<and> 0 \<le> r - q * m \<and> r - q * m \<le> m \<and> (r - q * m = m \<longrightarrow> q = 3)"
proof (cases "r div m \<le> 2")
  case True
  have "r - r div m * m = r mod m" by (rule minus_div_mult_eq_mod)
  moreover have "0 \<le> r mod m" "r mod m < m" "0 \<le> r div m" using assms by (simp_all add: pos_imp_zdiv_nonneg_iff)
  ultimately show ?thesis using True by (simp add: Let_def min_def)
next
  case False
  then have "3 * m \<le> r div m * m" using assms(1) by (intro mult_right_mono) auto
  also have "\<dots> \<le> r" using assms(1) div_mult_mod_eq [of r m] pos_mod_sign [of m r] by linarith
  finally show ?thesis using False assms by (simp add: Let_def min_def)
qed

lemma split_days_parts:
  fixes n :: int
  obtains a b c e yday where "split_days n = (400 * a + 100 * b + 4 * c + e + 1, yday)"
    "n = 146097 * a + 36524 * b + 1461 * c + 365 * e + yday"
    "0 \<le> b" "b \<le> 3" "0 \<le> c" "c \<le> 24" "0 \<le> e" "e \<le> 3" "0 \<le> yday" "yday \<le> 365"
    "yday = 365 \<longrightarrow> e = 3 \<and> (c = 24 \<longrightarrow> b = 3)"
proof -
  define a r where "a = n div 146097" and "r = n mod 146097"
  have r: "0 \<le> r" "r < 146097" "n = 146097 * a + r" by (simp_all add: a_def r_def)
  define b where "b = min 3 (r div 36524)"
  define s where "s = r - b * 36524"
  have b: "0 \<le> b" "b \<le> 3" "0 \<le> s" "s \<le> 36524" "s = 36524 \<longrightarrow> b = 3"
    using min_div [of 36524 r] r(1,2) unfolding s_def b_def by (simp_all add: Let_def)
  define c u where "c = s div 1461" and "u = s mod 1461"
  have c: "0 \<le> c" "c \<le> 24" "0 \<le> u" "u < 1461" "s = 1461 * c + u" 
    using b(3,4) zdiv_mono1 [of s 36524 1461] pos_mod_bound [of 1461 s] div_mult_mod_eq [of s 1461]
    unfolding c_def u_def by (simp_all add: pos_imp_zdiv_nonneg_iff)
  define e where "e = min 3 (u div 365)"
  have e: "0 \<le> e" "e \<le> 3" "0 \<le> u - 365 * e" "u - 365 * e \<le> 365" "u - 365 * e = 365 \<longrightarrow> e = 3"
    using min_div [of 365 u] c(3,4) unfolding e_def by (simp_all add: Let_def mult.commute)
  have top: "u - 365 * e = 365 \<longrightarrow> e = 3 \<and> (c = 24 \<longrightarrow> b = 3)"
    using e(5) c(5) b(4,5) by auto
  have "split_days n = (400 * a + 100 * b + 4 * c + e + 1, u - 365 * e)"
    unfolding split_days_def Let_def a_def r_def b_def s_def c_def u_def e_def by (rule refl)
  moreover have "n = 146097 * a + 36524 * b + 1461 * c + 365 * e + (u - 365 * e)"
    using r(3) c(5) unfolding s_def by simp
  ultimately show thesis by (rule that) (fact b(1) b(2) c(1) c(2) e(1) e(2) e(3) e(4) top)+
qed

lemma cycle_divs:
  fixes a b c e :: int
  assumes "0 \<le> b" "b \<le> 3" "0 \<le> c" "c \<le> 24" "0 \<le> e" "e \<le> 3"
  shows "(400 * a + 100 * b + 4 * c + e) div 4 = 100 * a + 25 * b + c"
    "(400 * a + 100 * b + 4 * c + e) div 100 = 4 * a + b" "(400 * a + 100 * b + 4 * c + e) div 400 = a"
  using assms
  by (auto intro: int_div_pos_eq [of _ _ _ e] int_div_pos_eq [of _ _ _ "4 * c + e"] int_div_pos_eq [of _ _ _ "100 * b + 4 * c + e"])

lemma is_leap_cycle:
  fixes a b c e :: int
  assumes "0 \<le> b" "b \<le> 3" "0 \<le> c" "c \<le> 24" "e = 3" "c = 24 \<longrightarrow> b = 3"
  shows "is_leap (400 * a + 100 * b + 4 * c + e + 1)"
proof (cases "c = 24")
  case True
  have y: "400 * a + 100 * b + 4 * c + e + 1 = 400 * (a + 1)" using True assms by simp
  have "(400 :: int) dvd 400 * (a + 1)" "(4 :: int) dvd 400" by simp_all
  then have "(400 * (a + 1)) mod 4 = 0" "(400 * (a + 1)) mod 400 = 0" by (auto simp: mod_eq_0_iff_dvd intro: dvd_trans)
  then show ?thesis unfolding y is_leap_def by blast
next
  case False
  have "(400 * a + 100 * b + 4 * c + e + 1) mod 100 = 4 * c + 4"
    using assms False by (intro int_mod_pos_eq [of _ _ "4 * a + b"]) auto
  moreover have "(400 * a + 100 * b + 4 * c + e + 1) mod 4 = 0"
    using assms by (intro int_mod_pos_eq [of _ _ "100 * a + 25 * b + c + 1"]) auto
  ultimately show ?thesis unfolding is_leap_def using assms(3) by (metis add_nonneg_pos less_irrefl zero_less_numeral mult_nonneg_nonneg zero_le_numeral)
qed

lemma split_days_year:
  assumes "split_days n = (year, yday)"
  shows "days_before_year year + yday = n" "0 \<le> yday" "yday \<le> (if is_leap year then 365 else 364)"
proof -
  obtain a b c e yd where p: "split_days n = (400 * a + 100 * b + 4 * c + e + 1, yd)"
    "n = 146097 * a + 36524 * b + 1461 * c + 365 * e + yd"
    "0 \<le> b" "b \<le> 3" "0 \<le> c" "c \<le> 24" "0 \<le> e" "e \<le> 3" "0 \<le> yd" "yd \<le> 365"
    "yd = 365 \<longrightarrow> e = 3 \<and> (c = 24 \<longrightarrow> b = 3)" by (rule split_days_parts [of n])
  have y: "year = 400 * a + 100 * b + 4 * c + e + 1" "yday = yd" using assms p(1) by simp_all
  show "days_before_year year + yday = n"
    using p(2) unfolding y days_before_year_def by (simp add: cycle_divs [OF p(3-8)])
  show "0 \<le> yday" using p(9) y by simp
  show "yday \<le> (if is_leap year then 365 else 364)"
    using p(10,11) is_leap_cycle [OF p(3-6), of e a] y by force
qed

lemma month_of_range:
  assumes "0 \<le> yday" "yday \<le> (if leap then 365 else 364)"
  shows "0 \<le> month_of leap yday" "month_of leap yday \<le> 11"
    "0 \<le> yday - days_before_month leap (month_of leap yday)" "yday - days_before_month leap (month_of leap yday) \<le> 30"
  using assms unfolding month_of_def days_before_month_def by (cases leap; simp split: if_splits)+

lemma hms:
  fixes d k :: int
  shows "((d * 24 + k div 3600) * 60 + k div 60 mod 60) * 60 + k mod 60 = d * 86400 + k"
proof -
  define q where "q = k div 60"
  have "k div 3600 = q div 60" using zdiv_zmult2_eq [of 60 k 60] by (simp add: q_def)
  moreover have "q div 60 * 60 + q mod 60 = q" "q * 60 + k mod 60 = k" by (simp_all add: q_def)
  ultimately show ?thesis unfolding q_def [symmetric] by (simp add: algebra_simps)
qed

lemma timegm_gmtime: "timegm (gmtime t) = t"
proof -
  define d k where "d = t div 86400" and "k = t mod 86400"
  obtain year yday where s: "split_days (d + days_before_year 1970) = (year, yday)" by force
  have y: "days_before_year year + yday = d + days_before_year 1970" by (rule split_days_year [OF s])
  have g: "gmtime t = \<lparr>tm_year = year - 1900, tm_mon = month_of (is_leap year) yday,
      tm_mday = yday - days_before_month (is_leap year) (month_of (is_leap year) yday) + 1,
      tm_hour = k div 3600, tm_min = k div 60 mod 60, tm_sec = k mod 60\<rparr>"
    unfolding gmtime_def d_def [symmetric] k_def [symmetric] s Let_def by simp
  have "days_before_year year - days_before_year 1970 + yday = d" using y by linarith
  then have "timegm (gmtime t) = ((d * 24 + k div 3600) * 60 + k div 60 mod 60) * 60 + k mod 60"
    unfolding timegm_def g Let_def by (simp add: algebra_simps)
  then show ?thesis unfolding hms by (simp add: d_def k_def)
qed

section \<open>Reading back\<close>

lemma digits_val_nonneg: "list_all isdigit ds \<Longrightarrow> 0 \<le> digits_val ds"
proof (induction ds rule: rev_induct)
  case (snoc d ds)
  then show ?case by (simp add: digits_val_def isdigit_def digit_val_def)
qed (simp add: digits_val_def)

lemma sp_digits_exact:
  assumes "ds \<noteq> []" "list_all isdigit ds" "length ds \<le> n" "0 \<le> v" "\<not> isdigit c"
    and "v * 10 ^ length ds + digits_val ds \<le> hi"
  shows "sp_digits n hi v (ds @ c # rest) = (v * 10 ^ length ds + digits_val ds, c # rest)"
  using assms
proof (induction ds arbitrary: n v)
  case (Cons d ds)
  have val: "digits_val (d # ds) = digit_val d * 10 ^ length ds + digits_val ds"
    using digits_val_append [of "[d]" ds] by (simp add: digits_val_def)
  have eq: "v * 10 ^ length (d # ds) + digits_val (d # ds) = (v * 10 + digit_val d) * 10 ^ length ds + digits_val ds"
    by (simp add: val algebra_simps)
  have d: "0 \<le> digit_val d" using Cons.prems(2) by (simp add: isdigit_def digit_val_def)
  show ?case
  proof (cases "ds = []")
    case True
    then show ?thesis using Cons.prems(5) eq by (simp add: Let_def digits_val_def)
  next
    case False
    then have "1 \<le> length ds" by (cases ds) auto
    have nn: "0 \<le> v * 10 + digit_val d" using Cons.prems(4) d by simp
    have "(v * 10 + digit_val d) * 10 ^ 1 \<le> (v * 10 + digit_val d) * 10 ^ length ds"
      using \<open>1 \<le> length ds\<close> nn by (intro mult_left_mono power_increasing) auto
    moreover have "0 \<le> digits_val ds" by (rule digits_val_nonneg) (use Cons.prems(2) in simp)
    ultimately have le: "(v * 10 + digit_val d) * 10 \<le> hi" using Cons.prems(6) unfolding eq by simp
    have "isdigit (hd ds)" using False Cons.prems(2) by (cases ds) auto
    moreover have "1 < n" using Cons.prems(3) \<open>1 \<le> length ds\<close> by simp
    ultimately have "sp_digits n hi v (d # ds @ c # rest) = sp_digits (n - 1) hi (v * 10 + digit_val d) (ds @ c # rest)"
      using le False by (simp add: Let_def)
    also have "\<dots> = ((v * 10 + digit_val d) * 10 ^ length ds + digits_val ds, c # rest)"
      using Cons.prems False nn eq by (intro Cons.IH) auto
    finally show ?thesis unfolding eq by simp
  qed
qed simp

lemma sp_field_exact:
  assumes "ds \<noteq> []" "list_all isdigit ds" "length ds \<le> n" "\<not> isdigit c" "lo \<le> digits_val ds" "digits_val ds \<le> hi"
  shows "sp_field lo hi n c (ds @ c # rest) = Some (digits_val ds, rest)"
proof -
  have hd: "isdigit (hd ds)" using assms(1,2) by (cases ds) auto
  then have "hd ds \<noteq> CHR '' ''" by (auto simp: isdigit_def ccode_def)
  then have "dropWhile (\<lambda>c. c = CHR '' '') (ds @ c # rest) = ds @ c # rest" using assms(1) by (cases ds) auto
  moreover have "sp_digits n hi 0 (ds @ c # rest) = (digits_val ds, c # rest)"
    using sp_digits_exact [OF assms(1-3) _ assms(4), of 0 hi] assms(6) by simp
  ultimately have "sp_number lo hi n (ds @ c # rest) = Some (digits_val ds, c # rest)"
    using assms(1,5,6) hd by (simp add: sp_number_def)
  then show ?thesis by (simp add: sp_field_def sp_char_def)
qed

lemma two_field:
  assumes "0 \<le> v" "v < 100" "\<not> isdigit c" "lo \<le> v" "v \<le> hi"
  shows "sp_field lo hi 2 c (two v @ c # rest) = Some (v, rest)"
proof -
  have "nat v < 10 ^ 2" using assms(1,2) by simp
  note t = pad_left_fmt_u [OF this]
  then have "two v \<noteq> []" unfolding two_def by (metis list.size(3) zero_neq_numeral pos2)
  with t show ?thesis using sp_field_exact [of "two v" 2 c lo hi rest] assms
    by (simp add: two_def list_all_iff)
qed

lemma year_field:
  assumes "1000 \<le> y" "y \<le> 9999"
  shows "sp_field 0 9999 4 (CHR ''-'') (fmt_u (nat y) @ CHR ''-'' # rest) = Some (y, rest)"
proof -
  have "length (fmt_u (nat y)) \<le> 4" using assms(2) by (intro length_fmt_u) auto
  then show ?thesis
    using sp_field_exact [of "fmt_u (nat y)" 4 "CHR ''-''" 0 9999 rest] assms fmt_u_digits [of "nat y"]
    by (simp add: digits_val_fmt_u list_all_iff isdigit_def ccode_def)
qed

lemma strptime_strftime:
  assumes "1000 \<le> tm_year t + 1900" "tm_year t + 1900 \<le> 9999" "0 \<le> tm_mon t" "tm_mon t \<le> 11" "1 \<le> tm_mday t"
    "tm_mday t \<le> 31" "0 \<le> tm_hour t" "tm_hour t \<le> 23" "0 \<le> tm_min t" "tm_min t \<le> 59" "0 \<le> tm_sec t" "tm_sec t \<le> 59"
  shows "strptime_iso (strftime_iso t) = Some (t, [])"
proof -
  have nd: "\<not> isdigit CHR ''-''" "\<not> isdigit CHR ''T''" "\<not> isdigit CHR '':''" "\<not> isdigit CHR ''Z''"
    by (simp_all add: isdigit_def ccode_def)
  show ?thesis using assms nd unfolding strptime_iso_def strftime_iso_def
    by (simp add: year_field two_field)
qed

lemma gmtime_fields:
  assumes "g = gmtime t"
  shows "0 \<le> tm_mon g" "tm_mon g \<le> 11" "1 \<le> tm_mday g" "tm_mday g \<le> 31" "0 \<le> tm_hour g" "tm_hour g \<le> 23"
    "0 \<le> tm_min g" "tm_min g \<le> 59" "0 \<le> tm_sec g" "tm_sec g \<le> 59"
proof -
  define k where "k = t mod 86400"
  have k: "0 \<le> k" "k \<le> 86399" using pos_mod_bound [of 86400 t] by (simp_all add: k_def)
  have h: "0 \<le> k div 3600" "k div 3600 \<le> 23" using k zdiv_mono1 [of k 86399 3600] by (simp_all add: pos_imp_zdiv_nonneg_iff)
  have sixty: "0 \<le> x mod 60" "x mod 60 \<le> 59" for x :: int using pos_mod_bound [of 60 x] by simp_all
  obtain year yday where s: "split_days (t div 86400 + days_before_year 1970) = (year, yday)" by force
  note m = month_of_range [OF split_days_year(2,3) [OF s]]
  have g: "g = \<lparr>tm_year = year - 1900, tm_mon = month_of (is_leap year) yday,
      tm_mday = yday - days_before_month (is_leap year) (month_of (is_leap year) yday) + 1,
      tm_hour = k div 3600, tm_min = k div 60 mod 60, tm_sec = k mod 60\<rparr>"
    unfolding assms gmtime_def k_def [symmetric] s Let_def by simp
  show "0 \<le> tm_mon g" "tm_mon g \<le> 11" using m(1,2) unfolding g by simp_all
  show "1 \<le> tm_mday g" "tm_mday g \<le> 31" using m(3,4) unfolding g by simp_all
  show "0 \<le> tm_hour g" "tm_hour g \<le> 23" using h unfolding g by simp_all
  show "0 \<le> tm_min g" "tm_min g \<le> 59" "0 \<le> tm_sec g" "tm_sec g \<le> 59"
    using sixty [of "k div 60"] sixty [of k] unfolding g by simp_all
qed

lemma div_step:
  fixes y m :: int
  assumes "1 < m"
  shows "y div m = (y - 1) div m + (if y mod m = 0 then 1 else 0)"
proof (cases "y mod m = 0")
  case True
  then have "y - 1 = (y div m - 1) * m + (m - 1)" using div_mult_mod_eq [of y m] by (simp add: algebra_simps)
  then have "(y - 1) div m = y div m - 1" using assms
    by (intro int_div_pos_eq [of _ _ _ "m - 1"]) (auto simp: mult.commute)
  then show ?thesis using True by simp
next
  case False
  then have "0 < y mod m" using assms pos_mod_sign [of m y] by linarith
  moreover have "y mod m - 1 < m" using assms pos_mod_bound [of m y] by linarith
  moreover have "y - 1 = m * (y div m) + (y mod m - 1)" by simp
  ultimately have "(y - 1) div m = y div m" by (intro int_div_pos_eq) auto
  then show ?thesis using False by simp
qed

lemma year_step:
  fixes y a b c :: int
  assumes "a' = a + (if P then 1 else 0)" "b' = b + (if Q then 1 else 0)" "c' = c + (if R then 1 else 0)" "R \<Longrightarrow> Q" "Q \<Longrightarrow> P"
  shows "365 * y + a' - b' + c' = 365 * (y - 1) + a - b + c + (if P \<and> (\<not> Q \<or> R) then 366 else 365)"
  using assms(4,5) unfolding assms(1-3) by (cases P; cases Q; cases R) simp_all

lemma days_before_next_year: "days_before_year (year + 1) = days_before_year year + (if is_leap year then 366 else 365)"
proof -
  have "(100 :: int) dvd 400" "(4 :: int) dvd 100" by simp_all
  then have d: "year mod 400 = 0 \<Longrightarrow> year mod 100 = 0" "year mod 100 = 0 \<Longrightarrow> year mod 4 = 0"
    unfolding mod_eq_0_iff_dvd by (blast intro: dvd_trans)+
  show ?thesis unfolding days_before_year_def is_leap_def add_diff_cancel_right'
  proof (rule year_step)
    show "year mod 100 = 0" if "year mod 400 = 0" using that by (rule d(1))
    show "year mod 4 = 0" if "year mod 100 = 0" using that by (rule d(2))
  qed (rule div_step, simp)+
qed

lemma year_mono:
  fixes y z a b c :: int
  assumes "y \<le> z" "b' - b \<le> z - y" "a \<le> a'" "c \<le> c'"
  shows "365 * (y - 1) + a - b + c \<le> 365 * (z - 1) + a' - b' + c'"
proof -
  have "0 \<le> 364 * (z - y)" using assms(1) by simp
  then show ?thesis using assms(2-4) by (simp add: algebra_simps)
qed

lemma days_before_year_mono:
  assumes "y \<le> z"
  shows "days_before_year y \<le> days_before_year z"
proof -
  have "(z - 1) div 100 \<le> ((y - 1) + (z - y) * 100) div 100" using assms by (intro zdiv_mono1) auto
  also have "\<dots> = (z - y) + (y - 1) div 100" by (rule div_mult_self1) simp
  finally have "(z - 1) div 100 - (y - 1) div 100 \<le> z - y" by simp
  moreover have "(y - 1) div 4 \<le> (z - 1) div 4" "(y - 1) div 400 \<le> (z - 1) div 400"
    using assms by (simp_all add: zdiv_mono1)
  ultimately show ?thesis unfolding days_before_year_def by (intro year_mono assms)
qed

lemma gmtime_year:
  assumes "0 \<le> t" "t < 253402300800"
  shows "1970 \<le> tm_year (gmtime t) + 1900" "tm_year (gmtime t) + 1900 \<le> 9999"
proof -
  define d where "d = t div 86400"
  have d: "0 \<le> d" "d \<le> 2932896"
    using assms zdiv_mono1 [of t 253402300799 86400] by (simp_all add: d_def pos_imp_zdiv_nonneg_iff)
  obtain year yday where s: "split_days (d + days_before_year 1970) = (year, yday)" by force
  have y: "tm_year (gmtime t) + 1900 = year" unfolding gmtime_def d_def [symmetric] s Let_def by simp
  note sd = split_days_year [OF s]
  have vals: "days_before_year 1970 = 719162" "days_before_year 10000 = 3652059" by (simp_all add: days_before_year_def)
  have "days_before_year (year + 1) = days_before_year year + (if is_leap year then 366 else 365)"
    by (rule days_before_next_year)
  then have "days_before_year 1970 < days_before_year (year + 1)" using sd d vals by (auto split: if_splits)
  then have "\<not> year + 1 \<le> 1970" using days_before_year_mono [of "year + 1" 1970] by linarith
  then show "1970 \<le> tm_year (gmtime t) + 1900" unfolding y by linarith
  have "days_before_year year < days_before_year 10000" using sd(1,2) d vals by linarith
  then have "\<not> 10000 \<le> year" using days_before_year_mono [of 10000 year] by linarith
  then show "tm_year (gmtime t) + 1900 \<le> 9999" unfolding y by linarith
qed

text \<open>Printing a time up to the year 9999 and reading it gives the time back.\<close>

lemma iso8601_round_trip:
  assumes "0 \<le> t" "t < 253402300800"
  shows "parse_iso8601 (strftime_iso (gmtime t)) = word_of_int t" "length (strftime_iso (gmtime t)) \<le> 20"
proof -
  have y: "1000 \<le> tm_year (gmtime t) + 1900" "tm_year (gmtime t) + 1900 \<le> 9999"
    using gmtime_year [OF assms] by linarith+
  note f = gmtime_fields [OF refl, of t]
  have "strptime_iso (strftime_iso (gmtime t)) = Some (gmtime t, [])" by (rule strptime_strftime) (fact y f)+
  then show "parse_iso8601 (strftime_iso (gmtime t)) = word_of_int t" using assms(1) by (simp add: parse_iso8601_def timegm_gmtime)
  have two: "length (two v) = 2" if "0 \<le> v" "v < 100" for v
    using pad_left_fmt_u [of "nat v" 2] that by (simp add: two_def)
  have "length (fmt_u (nat (tm_year (gmtime t) + 1900))) \<le> 4" using y by (intro length_fmt_u) auto
  then show "length (strftime_iso (gmtime t)) \<le> 20" using f by (simp add: strftime_iso_def two)
qed

definition stamp_char :: "char \<Rightarrow> bool" where
  "stamp_char c \<longleftrightarrow> 45 \<le> ccode c \<and> ccode c \<le> 90"

lemma strftime_chars: "list_all stamp_char (strftime_iso g)" "strftime_iso g \<noteq> []"
proof -
  have d: "isdigit c \<Longrightarrow> stamp_char c" for c by (simp add: isdigit_def stamp_char_def)
  have "stamp_char CHR ''0''" "stamp_char CHR ''-''" "stamp_char CHR ''T''" "stamp_char CHR '':''" "stamp_char CHR ''Z''"
    by (simp_all add: stamp_char_def ccode_def)
  moreover have "list_all stamp_char (fmt_u n)" for n using fmt_u_digits [of n] d by (auto simp: list_all_iff)
  moreover have "list_all stamp_char (replicate k CHR ''0'')" for k using calculation(1) by (simp add: list_all_iff)
  ultimately show "list_all stamp_char (strftime_iso g)" by (simp add: strftime_iso_def two_def pad_left_def)
qed (simp add: strftime_iso_def)

end
