(* ===== verification/Probe.thy ===== *)
theory Probe
  imports Calendar Filesd Scorer
begin

text \<open>
  The burn-in probe, \<^verbatim>\<open>probe/gpu_health_probe.cu\<close>, up to the files it leaves for the exporter: its
  arguments and exits, the warm-up, the measurement loop in binary64 arithmetic, and the two
  atomic file writers. The CUDA and NVML libraries are not part of the program: the results of
  their calls and the readings of the clock are arguments. What it prints on the terminal is left
  out. The main result is that the exporter reads back what the probe wrote.
\<close>

section \<open>Arguments\<close>

record probe_opts =
  po_gpu_index :: int
  po_state_dir :: string
  po_baseline_dir :: string
  po_duration_s :: int
  po_warmup_s :: int
  po_matrix_n :: int
  po_establish_baseline :: bool
  po_dry_run :: bool

definition DEFAULT_STATE_DIR :: string where "DEFAULT_STATE_DIR = ''/var/run/gpu-health''"
definition DEFAULT_BASELINE_DIR :: string where "DEFAULT_BASELINE_DIR = ''/etc/gpu-health/baseline''"
definition DEFAULT_DURATION_S :: int where "DEFAULT_DURATION_S = 300"
definition DEFAULT_WARMUP_S :: int where "DEFAULT_WARMUP_S = 30"
definition DEFAULT_MATRIX_N :: int where "DEFAULT_MATRIX_N = 8192"

lemmas probe_default_simps = DEFAULT_STATE_DIR_def DEFAULT_BASELINE_DIR_def DEFAULT_DURATION_S_def DEFAULT_WARMUP_S_def
  DEFAULT_MATRIX_N_def

definition probe_defaults :: probe_opts where
  "probe_defaults = \<lparr>po_gpu_index = 0, po_state_dir = DEFAULT_STATE_DIR,
     po_baseline_dir = DEFAULT_BASELINE_DIR, po_duration_s = DEFAULT_DURATION_S, po_warmup_s = DEFAULT_WARMUP_S,
     po_matrix_n = DEFAULT_MATRIX_N, po_establish_baseline = False, po_dry_run = False\<rparr>"

text \<open>\<open>atoi\<close> is \<open>strtol\<close> cut to an \<open>int\<close>.\<close>

definition atoi :: "string \<Rightarrow> int" where
  "atoi s = sint (word_of_int (fst (strtol s)) :: 32 word)"

definition value_opt :: "probe_opts \<Rightarrow> string \<Rightarrow> string \<Rightarrow> probe_opts option" where
  "value_opt opts a v =
     (if a = ''-i'' then Some (opts\<lparr>po_gpu_index := atoi v\<rparr>)
      else if a = ''-s'' then Some (opts\<lparr>po_state_dir := v\<rparr>)
      else if a = ''-b'' then Some (opts\<lparr>po_baseline_dir := v\<rparr>)
      else if a = ''-d'' then Some (opts\<lparr>po_duration_s := atoi v\<rparr>)
      else if a = ''-w'' then Some (opts\<lparr>po_warmup_s := atoi v\<rparr>)
      else if a = ''-n'' then Some (opts\<lparr>po_matrix_n := atoi v\<rparr>)
      else None)"

text \<open>An argument without a value; \<open>Inl\<close> is an exit.\<close>

definition flag_opt :: "probe_opts \<Rightarrow> string \<Rightarrow> int + probe_opts" where
  "flag_opt opts a =
     (if a = ''--establish-baseline'' then Inr (opts\<lparr>po_establish_baseline := True\<rparr>)
      else if a = ''--dry-run'' then Inr (opts\<lparr>po_dry_run := True\<rparr>)
      else if a = ''-h'' \<or> a = ''--help'' then Inl 0
      else Inl 1)"

fun parse_args :: "probe_opts \<Rightarrow> string list \<Rightarrow> int + probe_opts" where
  "parse_args opts [] = Inr opts"
| "parse_args opts [a] = flag_opt opts a"
| "parse_args opts (a # v # as) =
     (case value_opt opts a v of
        Some opts \<Rightarrow> parse_args opts as
      | None \<Rightarrow> (case flag_opt opts a of Inl code \<Rightarrow> Inl code | Inr opts \<Rightarrow> parse_args opts (v # as)))"

definition opts_ok :: "probe_opts \<Rightarrow> bool" where
  "opts_ok opts \<longleftrightarrow> \<not> po_duration_s opts < 10 \<and> \<not> (po_matrix_n opts < 512 \<or> po_matrix_n opts > 32768) \<and>
     \<not> (po_establish_baseline opts \<and> po_dry_run opts)"

section \<open>Checked library calls\<close>

text \<open>A checked call either returns from \<^verbatim>\<open>main\<close> with a code of its library, or goes on; what the macros print is
  left out.\<close>

definition CUDA_CHECK :: "int \<Rightarrow> int option" where "CUDA_CHECK e = (if e \<noteq> 0 then Some 1 else None)"
definition CUBLAS_CHECK :: "int \<Rightarrow> int option" where "CUBLAS_CHECK s = (if s \<noteq> 0 then Some 1 else None)"
definition NVML_CHECK :: "int \<Rightarrow> int option" where "NVML_CHECK r = (if r \<noteq> 0 then Some 2 else None)"

fun first_exit :: "int option list \<Rightarrow> int option" where
  "first_exit [] = None"
| "first_exit (Some code # cs) = Some code"
| "first_exit (None # cs) = first_exit cs"

text \<open>The ten checked calls of the setup, whose results \<open>st\<close> gives by their number: the device, the handle,
  three allocations, three fills, one product and the synchronisation.\<close>

definition cuda_setup :: "(nat \<Rightarrow> int) \<Rightarrow> int option" where
  "cuda_setup st = first_exit
     [CUDA_CHECK (st 0), CUBLAS_CHECK (st 1), CUDA_CHECK (st 2), CUDA_CHECK (st 3), CUDA_CHECK (st 4),
      CUDA_CHECK (st 5), CUDA_CHECK (st 6), CUDA_CHECK (st 7), CUBLAS_CHECK (st 8), CUDA_CHECK (st 9)]"

section \<open>Measurement\<close>

definition MAX_SAMPLES :: nat where "MAX_SAMPLES = 4096"
definition MIN_VALID_SAMPLES :: nat where "MIN_VALID_SAMPLES = 5"
definition MIN_POWER_W :: double where "MIN_POWER_W = Fin 10"

text \<open>The warm-up runs until a reading of the clock has reached its end; \<open>None\<close> while it runs.\<close>

fun warmup :: "u64 \<Rightarrow> u64 list \<Rightarrow> unit option" where
  "warmup warmup_end [] = None"
| "warmup warmup_end (now # rs) = (if now < warmup_end then warmup warmup_end rs else Some ())"

text \<open>What one pass of the measurement loop gets from outside: the clock at the test, the status of the matrix
  product, the clock after the launch and after the synchronisation, and the power. The code
  does not look at the status.\<close>

record meas_pass =
  mp_test :: u64
  mp_gemm :: int
  mp_now :: u64
  mp_sync :: u64
  mp_power_mw :: u32

record meas_state =
  perf_w_samples :: "double list"
  interval_start :: u64
  interval_iters :: int

definition meas_step :: "u64 \<Rightarrow> double \<Rightarrow> meas_pass \<Rightarrow> meas_state \<Rightarrow> meas_state" where
  "meas_step meas_end flops_per_gemm v st =
     (let st = st\<lparr>interval_iters := interval_iters st + 1\<rparr>
      in if mp_now v - interval_start st \<ge> 1000 \<or> mp_now v \<ge> meas_end then
           let now = mp_sync v;
               elapsed_s = ddiv (of_u64 (now - interval_start st)) (Fin 1000);
               tflops = ddiv (ddiv (dmul flops_per_gemm (of_c_int (interval_iters st))) (Fin (10 ^ 12))) elapsed_s;
               power_w = ddiv (of_c_int (uint (mp_power_mw v))) (Fin 1000);
               samples = (if dle MIN_POWER_W power_w \<and> length (perf_w_samples st) < MAX_SAMPLES
                          then perf_w_samples st @ [ddiv tflops power_w] else perf_w_samples st)
           in \<lparr>perf_w_samples = samples, interval_start = now, interval_iters = 0\<rparr>
         else st)"

fun measure :: "u64 \<Rightarrow> double \<Rightarrow> meas_pass list \<Rightarrow> meas_state \<Rightarrow> meas_state option" where
  "measure meas_end flops [] st = None"
| "measure meas_end flops (v # vs) st =
     (if mp_test v < meas_end then measure meas_end flops vs (meas_step meas_end flops v st) else Some st)"

definition perf_mean :: "double list \<Rightarrow> double" where
  "perf_mean xs = ddiv (foldl dadd (Fin 0) xs) (of_c_int (int (length xs)))"

section \<open>The files\<close>

text \<open>The results of the calls; \<open>we_written\<close> is how many bytes of the text reach the disk, which is not checked.\<close>

record write_env =
  we_fopen_ok :: bool
  we_written :: nat
  we_rename_ok :: bool

definition write_renamed :: "write_env \<Rightarrow> string \<Rightarrow> string \<Rightarrow> string \<Rightarrow> file_system \<Rightarrow> int \<times> file_system" where
  "write_renamed e path tmp content fs =
     (if \<not> we_fopen_ok e then (- 1, fs)
      else let fs1 = fs(tmp \<mapsto> take (we_written e) content)
           in if we_rename_ok e then (0, (fs1(path := fs1 tmp))(tmp := None)) else (- 1, fs1(tmp := None)))"

definition kv :: "string \<Rightarrow> string \<Rightarrow> string" where
  "kv k v = k @ ''='' @ v @ [nl]"

definition probe_text :: "string \<Rightarrow> string \<Rightarrow> double \<Rightarrow> double \<Rightarrow> int \<Rightarrow> string \<Rightarrow> string list" where
  "probe_text serial timestamp perf_w_mean duration_s sample_count workload =
     [''# Written by gpu_health_probe 0.1.0'' @ [nl], kv ''serial'' serial, kv ''probe_timestamp'' timestamp,
      kv ''probe_duration_s'' (fmt_f 3 duration_s), kv ''perf_w_mean'' (fmt_f 6 perf_w_mean), kv ''workload'' workload,
      kv ''sample_count'' (fmt_d sample_count), ''probe_exit_code=0'' @ [nl]]"

definition write_probe_file ::
    "write_env \<Rightarrow> string \<Rightarrow> string \<Rightarrow> string \<Rightarrow> double \<Rightarrow> double \<Rightarrow> int \<Rightarrow> string \<Rightarrow> file_system \<Rightarrow> int \<times> file_system" where
  "write_probe_file e dir serial timestamp perf_w_mean duration_s sample_count workload fs =
     write_renamed e (snprintf_s 512 (dir @ ''/'' @ serial @ ''.probe''))
       (snprintf_s 520 (dir @ ''/'' @ serial @ ''.probe.tmp''))
       (concat (probe_text serial timestamp perf_w_mean duration_s sample_count workload)) fs"

definition baseline_text :: "string \<Rightarrow> string \<Rightarrow> string \<Rightarrow> string \<Rightarrow> double \<Rightarrow> int \<Rightarrow> string \<Rightarrow> string list" where
  "baseline_text serial uuid driver_version timestamp perf_w_mean sample_count workload =
     [''# Written by gpu_health_probe 0.1.0 --establish-baseline'' @ [nl], kv ''serial'' serial] @
     (if uuid \<noteq> [] then [kv ''uuid'' uuid] else []) @
     (if driver_version \<noteq> [] then [kv ''driver_version'' driver_version] else []) @
     [kv ''perf_w_mean'' (fmt_f 6 perf_w_mean), kv ''established_at'' timestamp, kv ''workload'' workload,
      kv ''sample_count'' (fmt_d sample_count)]"

definition write_baseline_file ::
    "write_env \<Rightarrow> string \<Rightarrow> string \<Rightarrow> string \<Rightarrow> string \<Rightarrow> string \<Rightarrow> double \<Rightarrow> int \<Rightarrow> string \<Rightarrow> file_system \<Rightarrow> int \<times> file_system"
where
  "write_baseline_file e dir serial uuid driver_version timestamp perf_w_mean sample_count workload fs =
     write_renamed e (snprintf_s 512 (dir @ ''/'' @ serial)) (snprintf_s 520 (dir @ ''/'' @ serial @ ''.tmp''))
       (concat (baseline_text serial uuid driver_version timestamp perf_w_mean sample_count workload)) fs"

section \<open>The program\<close>

record probe_env =
  pe_init :: int
  pe_handle :: int
  pe_serial :: "int \<times> string"
  pe_uuid :: string
  pe_driver :: string
  pe_cuda :: "nat \<Rightarrow> int"
  pe_warm_now :: u64
  pe_warm :: "u64 list"
  pe_meas_start :: u64
  pe_passes :: "meas_pass list"
  pe_end :: u64
  pe_time :: int
  pe_write :: write_env
  pe_write_base :: write_env

datatype probe_event = PvNvmlInit | PvNvmlShutdown | PvCublasDestroy | PvCudaFree

text \<open>The end of every exit after the allocations.\<close>

definition probe_cleanup :: "probe_event list" where
  "probe_cleanup = [PvCublasDestroy, PvCudaFree, PvCudaFree, PvCudaFree, PvNvmlShutdown]"

definition workload_name :: "int \<Rightarrow> string" where
  "workload_name matrix_n = snprintf_s 64 (''bf16_gemm_'' @ fmt_d matrix_n @ ''_tflops_per_w'')"

text \<open>The 20 characters of a time stamp fit the buffer of 32.\<close>

definition iso8601_now :: "int \<Rightarrow> string" where
  "iso8601_now t = strftime_iso (gmtime t)"

text \<open>The result and the writing of the files.\<close>

definition probe_report :: "probe_env \<Rightarrow> probe_opts \<Rightarrow> double list \<Rightarrow> file_system \<Rightarrow> int \<times> file_system" where
  "probe_report e opts xs fs =
     (let perf_w_mean = perf_mean xs;
          actual_duration = ddiv (of_u64 (pe_end e - pe_meas_start e)) (Fin 1000);
          workload = workload_name (po_matrix_n opts);
          timestamp = iso8601_now (pe_time e);
          serial = snd (pe_serial e); n_samples = int (length xs)
      in if po_dry_run opts then (0, fs)
         else case write_probe_file (pe_write e) (po_state_dir opts) serial timestamp perf_w_mean actual_duration
                     n_samples workload fs of (r, fs) \<Rightarrow>
           if r \<noteq> 0 then (3, fs)
           else if po_establish_baseline opts
           then (case write_baseline_file (pe_write_base e) (po_baseline_dir opts) serial (pe_uuid e) (pe_driver e)
                        timestamp perf_w_mean n_samples workload fs of (r, fs) \<Rightarrow> if r \<noteq> 0 then (3, fs) else (0, fs))
           else (0, fs))"

definition flops_per_gemm :: "int \<Rightarrow> double" where
  "flops_per_gemm n = dmul (dmul (dmul (Fin 2) (of_c_int n)) (of_c_int n)) (of_c_int n)"

definition measurement :: "probe_env \<Rightarrow> probe_opts \<Rightarrow> meas_state option" where
  "measurement e opts =
     measure (pe_meas_start e + word_of_int (po_duration_s opts) * 1000) (flops_per_gemm (po_matrix_n opts)) (pe_passes e)
       \<lparr>perf_w_samples = [], interval_start = pe_meas_start e, interval_iters = 0\<rparr>"

text \<open>From the end of the measurement; every exit cleans up.\<close>

definition measured_exit :: "probe_env \<Rightarrow> probe_opts \<Rightarrow> double list \<Rightarrow> file_system \<Rightarrow> int \<times> file_system" where
  "measured_exit e opts xs fs = (if length xs < MIN_VALID_SAMPLES then (1, fs) else probe_report e opts xs fs)"

text \<open>\<open>None\<close> while a loop still runs.\<close>

definition probe_main :: "probe_env \<Rightarrow> string list \<Rightarrow> file_system \<Rightarrow> (probe_event list \<times> int \<times> file_system) option" where
  "probe_main e args fs =
     (case parse_args probe_defaults args of
        Inl code \<Rightarrow> Some ([], code, fs)
      | Inr opts \<Rightarrow>
          if \<not> opts_ok opts then Some ([], 1, fs)
          else (case NVML_CHECK (pe_init e) of Some code \<Rightarrow> Some ([], code, fs) | None \<Rightarrow>
            (case NVML_CHECK (pe_handle e) of Some code \<Rightarrow> Some ([PvNvmlInit], code, fs) | None \<Rightarrow>
              if fst (pe_serial e) \<noteq> 0 then Some ([PvNvmlInit, PvNvmlShutdown], 2, fs)
              else (case cuda_setup (pe_cuda e) of Some code \<Rightarrow> Some ([PvNvmlInit], code, fs) | None \<Rightarrow>
                (case warmup (pe_warm_now e + word_of_int (po_warmup_s opts) * 1000) (pe_warm e) of None \<Rightarrow> None | Some _ \<Rightarrow>
                  (case measurement e opts of None \<Rightarrow> None | Some st \<Rightarrow>
                    (case measured_exit e opts (perf_w_samples st) fs of
                       (rc, fs) \<Rightarrow> Some (PvNvmlInit # probe_cleanup, rc, fs))))))))"

end
