(* ===== verification/ProbeProps.thy ===== *)
theory ProbeProps
  imports Probe
begin

text \<open>
  What the exporter reads of the files that the probe has written: every field of the two files is read
  back, and a baseline and a probe result of the same run show no drift.
\<close>

section \<open>Lines\<close>

text \<open>Text without white space and NUL bytes, as serial numbers, versions and numbers are.\<close>

definition word_text :: "string \<Rightarrow> bool" where
  "word_text v \<longleftrightarrow> list_all (\<lambda>c. ccode c \<noteq> 0 \<and> \<not> isspace c) v"

lemma word_text_append [simp]: "word_text (a @ b) \<longleftrightarrow> word_text a \<and> word_text b"
  by (simp add: word_text_def)

lemma word_text_take: "word_text v \<Longrightarrow> word_text (take n v)"
  by (auto simp: word_text_def list_all_iff dest: in_set_takeD)

lemma isspace_nl: "isspace nl" "ccode nl \<noteq> 0" "ccode nl = 10"
  by (simp_all add: isspace_def ccode_def)

lemma word_text_no_nl: "word_text v \<Longrightarrow> list_all (\<lambda>c. ccode c \<noteq> 10) v"
  by (auto simp: word_text_def list_all_iff isspace_def)

lemma word_text_drop:
  assumes "word_text v"
  shows "dropWhile isspace (v @ r) = (if v = [] then dropWhile isspace r else v @ r)" "dropWhile isspace (rev v) = rev v"
proof -
  have "\<not> isspace (hd w)" if "w \<noteq> []" "set w = set v" for w
    using assms hd_in_set [OF that(1)] that(2) by (simp add: word_text_def list_all_iff)
  from this [of v] this [of "rev v"]
  show "dropWhile isspace (v @ r) = (if v = [] then dropWhile isspace r else v @ r)" "dropWhile isspace (rev v) = rev v"
    by (auto simp: dropWhile_eq_self_iff hd_append)
qed

lemma str_trim_word: "word_text v \<Longrightarrow> str_trim v = v"
  using word_text_drop(1) [of v "[]"] word_text_drop(2) [of v] by (simp add: str_trim_def Let_def)

lemma str_trim_line: "word_text v \<Longrightarrow> v \<noteq> [] \<Longrightarrow> str_trim (v @ [nl]) = v"
  using word_text_drop(1) [of v "[nl]"] word_text_drop(2) [of v] isspace_nl(1) by (simp add: str_trim_def Let_def)

lemma split_kv_kv:
  assumes "word_text k" "word_text v" "k \<noteq> []" "hd k \<noteq> CHR ''#''" "CHR ''='' \<notin> set k"
  shows "split_kv (kv k v) = Some (k, v)"
proof -
  have eq: "word_text (k @ ''='' @ v)" using assms(1,2) by (simp add: word_text_def isspace_def ccode_def)
  then have "c_str (kv k v) = (k @ ''='' @ v) @ [nl]"
    using isspace_nl(2) by (simp add: kv_def c_str_def takeWhile_eq_all_conv word_text_def list_all_iff)
  moreover have "str_trim ((k @ ''='' @ v) @ [nl]) = k @ ''='' @ v" by (rule str_trim_line [OF eq]) simp
  moreover have "takeWhile (\<lambda>c. c \<noteq> CHR ''='') (k @ CHR ''='' # v) = k" "dropWhile (\<lambda>c. c \<noteq> CHR ''='') (k @ CHR ''='' # v) = CHR ''='' # v"
    using assms(5) by (auto simp: takeWhile_append dropWhile_append takeWhile_eq_all_conv)
  moreover have "\<not> is_comment (k @ ''='' @ v)" using assms(3,4) by (cases k) (auto simp: is_comment_def)
  ultimately show ?thesis using assms(1,2) by (simp add: split_kv_def split_eq_def str_trim_word Let_def)
qed

text \<open>A file of short lines is read line by line.\<close>

definition text_line :: "string \<Rightarrow> bool" where
  "text_line l \<longleftrightarrow> (\<exists>b. l = b @ [nl] \<and> list_all (\<lambda>c. ccode c \<noteq> 10) b \<and> length b < 511)"

lemma fgets_line: "list_all (\<lambda>c. ccode c \<noteq> 10) b \<Longrightarrow> length b < n \<Longrightarrow> fgets n (b @ nl # rest) = (b @ [nl], rest)"
proof (induction b arbitrary: n)
  case Nil
  then show ?case by (cases n) (simp_all add: isspace_nl)
next
  case (Cons c b)
  then show ?case by (cases n) simp_all
qed

lemma fgets_lines_concat: "list_all text_line ls \<Longrightarrow> fgets_lines 512 (concat ls) = ls"
proof (induction ls)
  case (Cons l ls)
  then obtain b where b: "l = b @ [nl]" "list_all (\<lambda>c. ccode c \<noteq> 10) b" "length b < 511" by (auto simp: text_line_def)
  then show ?case using Cons by (subst fgets_lines.simps) (simp add: fgets_line)
qed (simp add: fgets_lines.simps)

lemma text_line_kv: "word_text k \<Longrightarrow> word_text v \<Longrightarrow> length k + length v < 510 \<Longrightarrow> text_line (kv k v)"
  using word_text_no_nl [of k] word_text_no_nl [of v]
  by (auto simp: text_line_def kv_def ccode_def intro!: exI [of _ "k @ ''='' @ v"])

section \<open>Numbers\<close>

lemma word_text_digits: "\<forall>c\<in>set s. isdigit c \<or> c = CHR ''.'' \<Longrightarrow> word_text s"
  by (auto simp: word_text_def list_all_iff isdigit_def isspace_def ccode_def)

lemma word_text_fmt_u: "word_text (fmt_u n)"
  by (rule word_text_digits) (use fmt_u_digits in blast)

lemma word_text_stamp: "word_text (strftime_iso g)"
  using strftime_chars(1) [of g] by (auto simp: word_text_def list_all_iff stamp_char_def isspace_def)

lemma not_tiny:
  assumes "1 / 10 ^ 6 \<le> q"
  shows "\<not> tiny q" "0 < rnd q"
proof -
  define k where "k = ilog2 q"
  have q: "0 < q" using assms by (rule less_le_trans [rotated]) simp
  have b: "2 powi k \<le> q" "q < 2 powi (k + 1)" using ilog2_bounds [OF q] by (simp_all add: k_def)
  have "(2 :: rat) powi (- 20) \<le> 1 / 10 ^ 6" by (simp add: power_int_minus)
  also have "\<dots> < 2 powi (k + 1)" using assms b(2) by simp
  finally have "(2 :: rat) powi (- 20) < 2 powi (k + 1)" .
  then have k: "- 20 \<le> k" using two_powi_le [of "k + 1" "- 20"] by linarith
  have "ulp_exp q \<le> k" using k q by (simp add: ulp_exp_def k_def)
  from rnd_ge_power [OF b(1) this] show "0 < rnd q" using two_powi_pos [of k] by linarith
  have "of_int (2 ^ 52) \<le> q / 2 powi (k - 52)"
    using b(1) by (simp add: power_int_diff pos_le_divide_eq)
  from round_half_even_mono [OF this] have "2 ^ 52 \<le> round_half_even (q / 2 powi (k - 52))"
    unfolding round_half_even_of_int .
  then have "(of_int (2 ^ 52) :: rat) \<le> of_int (round_half_even (q / 2 powi (k - 52)))" by (simp only: of_int_le_iff)
  then have "of_int (2 ^ 52) * 2 powi (k - 52) \<le> of_int (round_half_even (q / 2 powi (k - 52))) * (2 powi (k - 52) :: rat)"
    by (rule mult_right_mono) (simp add: less_imp_le [OF two_powi_pos])
  moreover have "of_int (2 ^ 52) * (2 :: rat) powi (k - 52) = 2 powi k" by (simp add: power_int_diff)
  moreover have "(2 :: rat) powi (- 1022) \<le> 2 powi k" unfolding two_powi_le using k by simp
  ultimately have "(2 :: rat) powi (- 1022) \<le> of_int (round_half_even (q / 2 powi (k - 52))) * 2 powi (k - 52)" by linarith
  then show "\<not> tiny q" using q unfolding tiny_def Let_def k_def by simp
qed

text \<open>A non-negative number printed with up to six decimals is read as the nearest double of the printed
  decimal.\<close>

lemma rounded_cases:
  assumes "0 \<le> q" "q \<le> of_int h" "p \<le> 6"
  shows "rounded p q = 0 \<or> 1 / 10 ^ 6 \<le> rounded p q" "0 \<le> rounded p q" "rounded p q \<le> of_int h"
proof -
  let ?k = "round_half_even (q * 10 ^ p)"
  have "round_half_even (of_int 0) \<le> ?k" using assms(1) by (intro round_half_even_mono) simp
  then have k0: "0 \<le> ?k" unfolding round_half_even_of_int .
  have "?k \<le> round_half_even (of_int (h * 10 ^ p))" using assms(2) by (intro round_half_even_mono) simp
  then have kh: "?k \<le> h * 10 ^ p" unfolding round_half_even_of_int .
  have p: "(0 :: rat) < 10 ^ p" "(10 :: rat) ^ p \<le> 10 ^ 6"
    using power_increasing [OF assms(3), of "10 :: rat"] by simp_all
  show "0 \<le> rounded p q" using k0 p(1) by (simp add: rounded_def)
  have "(of_int ?k :: rat) \<le> of_int (h * 10 ^ p)" using kh by (simp only: of_int_le_iff)
  then show "rounded p q \<le> of_int h" using p(1) by (simp add: rounded_def pos_divide_le_eq)
  show "rounded p q = 0 \<or> 1 / 10 ^ 6 \<le> rounded p q"
  proof (cases "?k = 0")
    case False
    then have "(of_int 1 :: rat) \<le> of_int ?k" using k0 by (simp only: of_int_le_iff)
    then have "1 / 10 ^ p \<le> rounded p q" using p(1) by (simp add: rounded_def divide_right_mono)
    moreover have "(1 :: rat) / 10 ^ 6 \<le> 1 / 10 ^ p" using p by (intro divide_left_mono) auto
    ultimately show ?thesis by linarith
  qed (simp add: rounded_def)
qed

lemma parse_double_fmt_f:
  assumes "0 \<le> q" "q \<le> of_int h" "0 \<le> h" "h \<le> 2 ^ 53" "p \<le> 6"
  shows "parse_double (fmt_f p (Fin q)) (Fin 0) (Fin (of_int h)) = Some (Fin (rnd (rounded p q)))"
proof -
  note r = rounded_cases [OF assms(1,2,5)]
  have h: "f64 (of_int h)" using assms(3,4) by (intro f64_of_int) simp
  have "(of_int h :: rat) \<le> of_int (2 ^ 53)" using assms(4) by (simp only: of_int_le_iff)
  also have "\<dots> \<le> 2 ^ 1023" using power_increasing [of 53 1023 "2 :: rat"] by simp
  finally have hb: "\<bar>of_int h :: rat\<bar> \<le> 2 ^ 1023" using assms(3) by simp
  obtain v where v: "fl (rounded p q) = Fin v" "v = rnd (rounded p q)" "0 \<le> v" "v \<le> of_int h"
    using fl_bounded [OF f64_zero h r(2,3) _ hb] by auto
  have "\<not> tiny (rounded p q)" using r(1) not_tiny(1) by (auto simp: tiny_def)
  then have "strtod (fmt_f p (Fin q)) = (Fin v, Some [], False)"
    using fmt_f_reads_back [of p q] v(1) by (simp add: strtod_round_def)
  moreover have "fmt_f p (Fin q) \<noteq> []" using assms(1) fixed_reads_back [of q p] by (simp add: fmt_f_def)
  ultimately show ?thesis using v by (simp add: parse_double_def)
qed

lemma perf_text:
  assumes "1 / 10 ^ 6 \<le> q" "q \<le> 10 ^ 9"
  shows "parse_double (fmt_f 6 (Fin q)) (Fin 0) (Fin 1000000000) = Some (Fin (rnd (rounded 6 q)))" "0 < rnd (rounded 6 q)"
proof -
  have q: "0 \<le> q" using assms(1) by (rule order_trans [rotated]) simp
  show "parse_double (fmt_f 6 (Fin q)) (Fin 0) (Fin 1000000000) = Some (Fin (rnd (rounded 6 q)))"
    using parse_double_fmt_f [OF q, of 1000000000 6] assms(2) by simp
  have "round_half_even (of_int 1) \<le> round_half_even (q * 10 ^ 6)"
    using assms(1) by (intro round_half_even_mono) (simp add: field_simps)
  then have "(of_int 1 :: rat) \<le> of_int (round_half_even (q * 10 ^ 6))" unfolding round_half_even_of_int by (simp only: of_int_le_iff)
  then have "1 / 10 ^ 6 \<le> rounded 6 q" unfolding rounded_def by (intro divide_right_mono) auto
  then show "0 < rnd (rounded 6 q)" by (rule not_tiny)
qed

lemma word_text_fmt_f: "0 \<le> q \<Longrightarrow> word_text (fmt_f p (Fin q))"
  using fixed_reads_back [of q p] by (intro word_text_digits) (simp add: fmt_f_def)

lemma word_text_fmt_d: "0 \<le> n \<Longrightarrow> word_text (fmt_d n)"
  by (simp add: fmt_d_def word_text_fmt_u)

section \<open>The probe file\<close>

text \<open>What a run reports.\<close>

record report =
  r_serial :: string
  r_time :: int
  r_perf :: rat
  r_duration :: rat
  r_count :: int
  r_workload :: string

definition report_ok :: "report \<Rightarrow> bool" where
  "report_ok r \<longleftrightarrow> word_text (r_serial r) \<and> length (r_serial r) < 32 \<and> 0 < r_time r \<and> r_time r < 253402300800 \<and>
     1 / 10 ^ 6 \<le> r_perf r \<and> r_perf r \<le> 10 ^ 9 \<and> 0 \<le> r_duration r \<and> r_duration r \<le> 86400 \<and>
     1 \<le> r_count r \<and> r_count r \<le> 1000000 \<and> word_text (r_workload r) \<and> length (r_workload r) < 128"

abbreviation stamp :: "report \<Rightarrow> string" where
  "stamp r \<equiv> strftime_iso (gmtime (r_time r))"

abbreviation probe_content :: "report \<Rightarrow> string list" where
  "probe_content r \<equiv> probe_text (r_serial r) (stamp r) (Fin (r_perf r)) (Fin (r_duration r)) (r_count r) (r_workload r)"

lemma stamp_reads:
  assumes "report_ok r"
  shows "parse_iso8601 (stamp r) = word_of_int (r_time r)" "word_of_int (r_time r) \<noteq> (0 :: u64)"
proof -
  have t: "0 < r_time r" "r_time r < 253402300800" using assms by (simp_all add: report_ok_def)
  then show "parse_iso8601 (stamp r) = word_of_int (r_time r)" by (intro iso8601_round_trip) auto
  have "uint (word_of_int (r_time r) :: u64) = r_time r" using t by (simp add: uint_word_of_int)
  then show "word_of_int (r_time r) \<noteq> (0 :: u64)" using t(1) by auto
qed

lemma keys_split:
  "word_text v \<Longrightarrow> k \<in> {''serial'', ''uuid'', ''driver_version'', ''probe_timestamp'', ''probe_duration_s'', ''perf_w_mean'',
     ''workload'', ''sample_count'', ''probe_exit_code'', ''established_at''} \<Longrightarrow> split_kv (kv k v) = Some (k, v)"
  by (rule split_kv_kv) (auto simp: word_text_def isspace_def ccode_def)

lemma comment_split: "hd l = CHR ''#'' \<Longrightarrow> l \<noteq> [] \<Longrightarrow> split_kv l = None"
  by (cases l) (auto simp: split_kv_def c_str_def str_trim_def is_comment_def isspace_def ccode_def Let_def dropWhile_append)

definition read_probe :: "report \<Rightarrow> gpu_probe_result_t" where
  "read_probe r = \<lparr>pr_available = True, pr_stale = False, pr_serial = r_serial r, pr_perf_w_mean = Fin (rnd (rounded 6 (r_perf r))),
     pr_probe_timestamp_s = word_of_int (r_time r), pr_probe_exit_code = 0, pr_workload = r_workload r,
     pr_sample_count = r_count r, pr_probe_duration_s = Fin (rnd (rounded 3 (r_duration r)))\<rparr>"

lemma report_words:
  assumes "report_ok r"
  shows "word_text (r_serial r)" "word_text (stamp r)" "word_text (fmt_f 3 (Fin (r_duration r)))"
    "word_text (fmt_f 6 (Fin (r_perf r)))" "word_text (r_workload r)" "word_text (fmt_d (r_count r))"
proof -
  have "0 \<le> r_perf r" using assms by (auto simp: report_ok_def intro: order_trans [rotated])
  then show "word_text (fmt_f 6 (Fin (r_perf r)))" by (rule word_text_fmt_f)
qed (use assms in \<open>simp_all add: report_ok_def word_text_fmt_f word_text_fmt_d word_text_stamp\<close>)

lemma report_numbers:
  assumes "report_ok r"
  shows "parse_double (fmt_f 6 (Fin (r_perf r))) (Fin 0) (Fin 1000000000) = Some (Fin (rnd (rounded 6 (r_perf r))))"
    "parse_double (fmt_f 3 (Fin (r_duration r))) (Fin 0) (Fin 86400) = Some (Fin (rnd (rounded 3 (r_duration r))))"
    "parse_int (fmt_d (r_count r)) 0 1000000 = Some (r_count r)" "parse_int (fmt_d (r_count r)) 1 1000000 = Some (r_count r)"
proof -
  show "parse_double (fmt_f 6 (Fin (r_perf r))) (Fin 0) (Fin 1000000000) = Some (Fin (rnd (rounded 6 (r_perf r))))"
    using assms by (intro perf_text) (simp_all add: report_ok_def)
  show "parse_double (fmt_f 3 (Fin (r_duration r))) (Fin 0) (Fin 86400) = Some (Fin (rnd (rounded 3 (r_duration r))))"
    using parse_double_fmt_f [of "r_duration r" 86400 3] assms by (simp add: report_ok_def)
  show "parse_int (fmt_d (r_count r)) 0 1000000 = Some (r_count r)" "parse_int (fmt_d (r_count r)) 1 1000000 = Some (r_count r)"
    using assms by (simp_all add: parse_int_fmt_d report_ok_def)
qed

lemma probe_lines_report:
  assumes "report_ok r"
  shows "probe_lines pr_start (probe_content r) =
    \<lparr>pp_out = read_probe r, pp_has_serial = True, pp_has_perf_w = True, pp_has_timestamp = True, pp_has_exit_code = True, pp_error = False\<rparr>"
proof -
  have code: "split_kv (''probe_exit_code=0'' @ [nl]) = Some (''probe_exit_code'', ''0'')" "parse_int ''0'' (- 1000) 1000 = Some 0"
    by code_simp+
  have len: "length (r_serial r) < 32" "length (r_workload r) < 128" using assms by (simp_all add: report_ok_def)
  note w = report_words [OF assms]
  show ?thesis unfolding probe_text_def
    by (simp add: comment_split keys_split [OF w(1)] keys_split [OF w(2)] keys_split [OF w(3)] keys_split [OF w(4)]
        keys_split [OF w(5)] keys_split [OF w(6)] code [simplified] probe_key_def report_numbers [OF assms] stamp_reads [OF assms]
        pr_start_def zero_probe_def read_probe_def safe_strncpy_fits [OF len(1)] safe_strncpy_fits [OF len(2)])
qed

lemma length_fmt_f:
  assumes "0 \<le> q" "q \<le> of_nat h" "h < 10 ^ k" "0 < k" "0 < p"
  shows "length (fmt_f p (Fin q)) \<le> k + 1 + p"
proof -
  let ?n = "nat (round_half_even (q * 10 ^ p))"
  have "round_half_even (q * 10 ^ p) \<le> round_half_even (of_int (int h * 10 ^ p))"
    using assms(2) by (intro round_half_even_mono) simp
  then have "?n \<le> h * 10 ^ p" unfolding round_half_even_of_int by (simp add: nat_le_iff)
  then have "?n div 10 ^ p \<le> h" using div_le_mono [of ?n "h * 10 ^ p" "10 ^ p"] by simp
  then have "length (fmt_u (?n div 10 ^ p)) \<le> k" using assms(3,4) by (intro length_fmt_u) auto
  moreover have "length (pad_left p (fmt_u (?n mod 10 ^ p))) = p" using assms(5) by (intro pad_left_fmt_u [THEN conjunct2, THEN conjunct1]) auto
  ultimately show ?thesis using assms(1,5) by (simp add: fmt_f_def fixed_def Let_def)
qed

lemma report_lengths:
  assumes "report_ok r"
  shows "length (stamp r) \<le> 20" "length (fmt_f 3 (Fin (r_duration r))) \<le> 10" "length (fmt_f 6 (Fin (r_perf r))) \<le> 17"
    "length (fmt_d (r_count r)) \<le> 7" "length (r_serial r) < 32" "length (r_workload r) < 128"
proof -
  have q: "0 \<le> r_perf r" using assms by (auto simp: report_ok_def intro: order_trans [rotated])
  show "length (stamp r) \<le> 20" using assms by (intro iso8601_round_trip) (simp_all add: report_ok_def)
  show "length (fmt_f 3 (Fin (r_duration r))) \<le> 10"
    using length_fmt_f [of "r_duration r" 86400 6 3] assms by (simp add: report_ok_def)
  show "length (fmt_f 6 (Fin (r_perf r))) \<le> 17"
    using length_fmt_f [OF q, of "10 ^ 9" 10 6] assms by (simp add: report_ok_def)
  show "length (fmt_d (r_count r)) \<le> 7"
    using length_fmt_u [of "nat (r_count r)" 7] assms by (simp add: fmt_d_def report_ok_def nat_less_iff)
qed (use assms in \<open>simp_all add: report_ok_def\<close>)

lemma comment_line: "list_all (\<lambda>c. ccode c \<noteq> 10) b \<Longrightarrow> length b < 511 \<Longrightarrow> text_line (b @ [nl])"
  by (auto simp: text_line_def)

lemma probe_content_lines:
  assumes "report_ok r"
  shows "list_all text_line (probe_content r)"
proof -
  note w = report_words [OF assms] and len = report_lengths [OF assms]
  have k: "word_text ''serial''" "word_text ''probe_timestamp''" "word_text ''probe_duration_s''" "word_text ''perf_w_mean''"
    "word_text ''workload''" "word_text ''sample_count''" by (simp_all add: word_text_def isspace_def ccode_def)
  have "text_line (''# Written by gpu_health_probe 0.1.0'' @ [nl])" "text_line (''probe_exit_code=0'' @ [nl])"
    by (rule comment_line; simp add: ccode_def)+
  moreover have "text_line (kv ''serial'' (r_serial r))" "text_line (kv ''probe_timestamp'' (stamp r))"
    "text_line (kv ''probe_duration_s'' (fmt_f 3 (Fin (r_duration r))))" "text_line (kv ''perf_w_mean'' (fmt_f 6 (Fin (r_perf r))))"
    "text_line (kv ''workload'' (r_workload r))" "text_line (kv ''sample_count'' (fmt_d (r_count r)))"
    using w k len by (auto intro!: text_line_kv)
  ultimately show ?thesis by (simp add: probe_text_def)
qed

text \<open>A complete write makes the file available under its path and touches only its two paths.\<close>

definition writes_all :: "write_env \<Rightarrow> string \<Rightarrow> bool" where
  "writes_all e content \<longleftrightarrow> we_fopen_ok e \<and> we_rename_ok e \<and> length content \<le> we_written e"

lemma write_renamed_ok:
  assumes "writes_all e content" "path \<noteq> tmp" "write_renamed e path tmp content fs = (ret, fs')"
  shows "ret = 0 \<and> fs' path = Some content \<and> (\<forall>f. f \<noteq> path \<and> f \<noteq> tmp \<longrightarrow> fs' f = fs f)"
  using assms by (auto simp: write_renamed_def writes_all_def Let_def)

lemma probe_file_read_back:
  assumes "report_ok r" "length dir + length (r_serial r) < 500" "writes_all e (concat (probe_content r))"
    and "write_probe_file e dir (r_serial r) (stamp r) (Fin (r_perf r)) (Fin (r_duration r)) (r_count r) (r_workload r) fs = (ret, fs')"
  shows "ret = 0 \<and> probe_load fs' now dir (r_serial r) ttl =
    (read_probe r)\<lparr>pr_stale := now > word_of_int (r_time r) \<and> now - word_of_int (r_time r) > word_of_int ttl\<rparr>"
proof -
  let ?path = "dir @ ''/'' @ r_serial r @ ''.probe''" and ?tmp = "dir @ ''/'' @ r_serial r @ ''.probe.tmp''"
  have p: "snprintf_s 512 ?path = ?path" "snprintf_s 520 ?tmp = ?tmp" "probe_path dir (r_serial r) = ?path"
    using assms(2) by (simp_all add: snprintf_s_def probe_path_def)
  have "ret = 0 \<and> fs' ?path = Some (concat (probe_content r))"
    using write_renamed_ok [OF assms(3), of ?path ?tmp fs ret fs'] assms(4) unfolding write_probe_file_def p by simp
  then show ?thesis
    by (simp add: probe_load_def p(3) fgets_lines_concat [OF probe_content_lines [OF assms(1)]] probe_lines_report [OF assms(1)]
        probe_finish_def Let_def read_probe_def)
qed

section \<open>The baseline file\<close>

definition ident_ok :: "nat \<Rightarrow> string \<Rightarrow> bool" where
  "ident_ok n v \<longleftrightarrow> word_text v \<and> length v < n"

abbreviation baseline_content :: "report \<Rightarrow> string \<Rightarrow> string \<Rightarrow> string list" where
  "baseline_content r uuid driver \<equiv> baseline_text (r_serial r) uuid driver (stamp r) (Fin (r_perf r)) (r_count r) (r_workload r)"

definition read_baseline :: "report \<Rightarrow> string \<Rightarrow> string \<Rightarrow> gpu_baseline_t" where
  "read_baseline r uuid driver = \<lparr>bl_available = True, bl_valid = False, bl_serial_mismatch = False, bl_driver_mismatch = False,
     bl_serial = r_serial r, bl_uuid = uuid, bl_driver_version = driver,
     bl_perf_w_mean = Fin (rnd (rounded 6 (r_perf r))), bl_established_at_s = word_of_int (r_time r),
     bl_workload = r_workload r, bl_sample_count = r_count r\<rparr>"

lemma baseline_lines_report:
  assumes "report_ok r" "ident_ok 48 uuid" "ident_ok 64 driver"
  shows "baseline_lines bl_start (baseline_content r uuid driver) =
    \<lparr>bp_out = read_baseline r uuid driver, bp_has_serial = True, bp_has_perf_w = True, bp_has_established = True,
     bp_has_workload = True, bp_has_sample_count = True, bp_error = False\<rparr>"
proof -
  have len: "length (r_serial r) < 32" "length (r_workload r) < 128" "length uuid < 48" "length driver < 64"
    using assms by (simp_all add: report_ok_def ident_ok_def)
  note w = report_words [OF assms(1)]
  have id: "word_text uuid" "word_text driver" using assms(2,3) by (simp_all add: ident_ok_def)
  show ?thesis unfolding baseline_text_def
    by (cases "uuid = []"; cases "driver = []"; simp add: comment_split keys_split [OF w(1)] keys_split [OF w(2)] keys_split [OF w(4)] keys_split [OF w(5)]
        keys_split [OF w(6)] keys_split [OF id(1)] keys_split [OF id(2)] baseline_key_def report_numbers [OF assms(1)]
        stamp_reads [OF assms(1)] bl_start_def zero_baseline_def read_baseline_def safe_strncpy_fits [OF len(1)]
        safe_strncpy_fits [OF len(2)] safe_strncpy_fits [OF len(3)] safe_strncpy_fits [OF len(4)])
qed

lemma baseline_content_lines:
  assumes "report_ok r" "ident_ok 48 uuid" "ident_ok 64 driver"
  shows "list_all text_line (baseline_content r uuid driver)"
proof -
  note w = report_words [OF assms(1)] and len = report_lengths [OF assms(1)]
  have k: "word_text ''serial''" "word_text ''uuid''" "word_text ''driver_version''" "word_text ''perf_w_mean''"
    "word_text ''established_at''" "word_text ''workload''" "word_text ''sample_count''"
    by (simp_all add: word_text_def isspace_def ccode_def)
  have "text_line (''# Written by gpu_health_probe 0.1.0 --establish-baseline'' @ [nl])"
    by (rule comment_line; simp add: ccode_def)
  moreover have "text_line (kv ''serial'' (r_serial r))" "text_line (kv ''established_at'' (stamp r))"
    "text_line (kv ''perf_w_mean'' (fmt_f 6 (Fin (r_perf r))))" "text_line (kv ''workload'' (r_workload r))"
    "text_line (kv ''sample_count'' (fmt_d (r_count r)))" "text_line (kv ''uuid'' uuid)" "text_line (kv ''driver_version'' driver)"
    using w k len assms(2,3) by (auto intro!: text_line_kv simp: ident_ok_def)
  ultimately show ?thesis by (simp add: baseline_text_def)
qed

lemma baseline_file_read_back:
  assumes "report_ok r" "ident_ok 48 uuid" "ident_ok 64 driver" "length dir + length (r_serial r) < 500"
    and "writes_all e (concat (baseline_content r uuid driver))"
    and "write_baseline_file e dir (r_serial r) uuid driver (stamp r) (Fin (r_perf r)) (r_count r) (r_workload r) fs = (ret, fs')"
  shows "ret = 0 \<and> baseline_load fs' dir (r_serial r) = (read_baseline r uuid driver)\<lparr>bl_valid := True\<rparr> \<and>
    (\<forall>f. f \<noteq> dir @ ''/'' @ r_serial r \<and> f \<noteq> dir @ ''/'' @ r_serial r @ ''.tmp'' \<longrightarrow> fs' f = fs f)"
proof -
  let ?path = "dir @ ''/'' @ r_serial r" and ?tmp = "dir @ ''/'' @ r_serial r @ ''.tmp''"
  have p: "snprintf_s 512 ?path = ?path" "snprintf_s 520 ?tmp = ?tmp" "baseline_path dir (r_serial r) = ?path"
    using assms(4) by (simp_all add: snprintf_s_def baseline_path_def)
  have w: "ret = 0 \<and> fs' ?path = Some (concat (baseline_content r uuid driver)) \<and> (\<forall>f. f \<noteq> ?path \<and> f \<noteq> ?tmp \<longrightarrow> fs' f = fs f)"
    using write_renamed_ok [OF assms(5), of ?path ?tmp fs ret fs'] assms(6) unfolding write_baseline_file_def p by simp
  have "0 < rnd (rounded 6 (r_perf r))" using assms(1) by (intro perf_text) (simp_all add: report_ok_def)
  then have "baseline_load fs' dir (r_serial r) = (read_baseline r uuid driver)\<lparr>bl_valid := True\<rparr>"
    using w by (simp add: baseline_load_def p(3) fgets_lines_concat [OF baseline_content_lines [OF assms(1-3)]]
        baseline_lines_report [OF assms(1-3)] baseline_finish_def Let_def read_baseline_def)
  then show ?thesis using w by simp
qed

section \<open>A whole run\<close>

lemma meas_step_bound: "length (perf_w_samples st) \<le> MAX_SAMPLES \<Longrightarrow> length (perf_w_samples (meas_step t f v st)) \<le> MAX_SAMPLES"
  by (simp add: meas_step_def Let_def)

lemma measure_bound:
  "measure t f vs st = Some st' \<Longrightarrow> length (perf_w_samples st) \<le> MAX_SAMPLES \<Longrightarrow> length (perf_w_samples st') \<le> MAX_SAMPLES"
  by (induction t f vs st rule: measure.induct) (auto simp: meas_step_bound split: if_splits)

text \<open>The codes of the checked calls; the calls of the setup fail with 1, and succeed only all together.\<close>

lemma check_exit:
  "NVML_CHECK r = Some c \<Longrightarrow> c = 2" "cuda_setup f = Some c \<Longrightarrow> c = 1"
proof -
  have "first_exit cs = Some c \<Longrightarrow> list_all (\<lambda>x. x = None \<or> x = Some 1) cs \<Longrightarrow> c = 1" for cs
    by (induction cs rule: first_exit.induct) auto
  from this [of "[CUDA_CHECK (f 0), CUBLAS_CHECK (f 1), CUDA_CHECK (f 2), CUDA_CHECK (f 3), CUDA_CHECK (f 4),
      CUDA_CHECK (f 5), CUDA_CHECK (f 6), CUDA_CHECK (f 7), CUBLAS_CHECK (f 8), CUDA_CHECK (f 9)]"]
  show "cuda_setup f = Some c \<Longrightarrow> c = 1" by (simp add: cuda_setup_def CUDA_CHECK_def CUBLAS_CHECK_def)
qed (simp add: NVML_CHECK_def split: if_splits)

lemma cuda_setup_ok: "cuda_setup f = None \<longleftrightarrow> list_all (\<lambda>k. f k = 0) [0..<10]"
  by (auto simp: cuda_setup_def CUDA_CHECK_def CUBLAS_CHECK_def upt_rec numeral_eq_Suc)

lemma probe_main_reports:
  assumes "probe_main e args fs = Some (evs, 0, fs')" "parse_args probe_defaults args = Inr opts" "measurement e opts = Some st"
  shows "opts_ok opts \<and> probe_report e opts (perf_w_samples st) fs = (0, fs') \<and> 5 \<le> length (perf_w_samples st) \<and>
    length (perf_w_samples st) \<le> 4096"
proof -
  have "length (perf_w_samples st) \<le> MAX_SAMPLES"
    using assms(3) unfolding measurement_def by (rule measure_bound) simp
  then show ?thesis using assms
    by (auto simp: probe_main_def measured_exit_def MAX_SAMPLES_def MIN_VALID_SAMPLES_def dest: check_exit split: if_splits option.splits prod.splits)
qed

text \<open>The status of the matrix products is not read: a run in which all of them fail ends like one in which
  they succeed, and counts the products that were never computed as work done.\<close>

lemma meas_step_ignores_gemm: "meas_step t f (v\<lparr>mp_gemm := x\<rparr>) st = meas_step t f v st"
  by (simp add: meas_step_def Let_def)

lemma measure_ignores_gemm: "measure t f (map (\<lambda>v. v\<lparr>mp_gemm := r v\<rparr>) vs) st = measure t f vs st"
  by (induction t f vs st rule: measure.induct) (simp_all add: meas_step_ignores_gemm)

theorem failed_products_are_measured:
  "probe_main (e\<lparr>pe_passes := map (\<lambda>v. v\<lparr>mp_gemm := r v\<rparr>) (pe_passes e)\<rparr>) args fs = probe_main e args fs"
proof -
  let ?e = "e\<lparr>pe_passes := map (\<lambda>v. v\<lparr>mp_gemm := r v\<rparr>) (pe_passes e)\<rparr>"
  have "pe_end ?e = pe_end e" "pe_meas_start ?e = pe_meas_start e" "pe_time ?e = pe_time e" "pe_write ?e = pe_write e"
    "pe_write_base ?e = pe_write_base e" "pe_serial ?e = pe_serial e" "pe_uuid ?e = pe_uuid e" "pe_driver ?e = pe_driver e"
    by simp_all
  then have "probe_report ?e = probe_report e" by (intro ext) (simp only: probe_report_def)
  then have "measured_exit ?e = measured_exit e" by (intro ext) (simp only: measured_exit_def)
  moreover have "measurement ?e = measurement e" by (intro ext) (simp add: measurement_def measure_ignores_gemm)
  moreover have "pe_init ?e = pe_init e" "pe_handle ?e = pe_handle e" "pe_serial ?e = pe_serial e" "pe_cuda ?e = pe_cuda e"
    "pe_warm_now ?e = pe_warm_now e" "pe_warm ?e = pe_warm e" by simp_all
  ultimately show ?thesis unfolding probe_main_def by (simp only:)
qed

lemma workload_name_ok:
  assumes "512 \<le> n" "n \<le> 32768"
  shows "word_text (workload_name n)" "length (workload_name n) < 128"
proof -
  have "word_text (''bf16_gemm_'' @ fmt_d n @ ''_tflops_per_w'')"
    using assms(1) word_text_fmt_d [of n] by (simp add: word_text_def isspace_def ccode_def)
  then show "word_text (workload_name n)"
    unfolding workload_name_def snprintf_s_def by (rule word_text_take)
  show "length (workload_name n) < 128" by (simp add: workload_name_def snprintf_s_def)
qed

lemma duration_range:
  assumes "w \<le> 86400000"
  obtains d where "ddiv (of_u64 w) (Fin 1000) = Fin d" "0 \<le> d" "d \<le> 86400"
proof -
  define u where "u = uint w"
  have u: "0 \<le> u" "u \<le> 86400000" using assms by (simp_all add: word_le_def u_def)
  then have f: "of_u64 w = Fin (of_int u)" unfolding of_u64_def of_c_int_def u_def [symmetric] by (intro fl_of_int) simp
  have "(of_int u :: rat) \<le> of_int 86400000" using u(2) by (simp only: of_int_le_iff)
  then have "0 \<le> (of_int u :: rat) / 1000" "(of_int u :: rat) / 1000 \<le> 86400" using u(1) by simp_all
  moreover have "f64 (86400 :: rat)" by (rule f64_numeral) simp
  moreover have "\<bar>86400 :: rat\<bar> \<le> 2 ^ 1023" using power_increasing [of 20 1023 "2 :: rat"] by simp
  ultimately obtain d where "fl ((of_int u :: rat) / 1000) = Fin d" "0 \<le> d" "d \<le> 86400"
    using fl_bounded [of 0 86400 "of_int u / 1000"] by auto
  then show thesis by (intro that) (simp_all add: f)
qed

lemma length_concat_lines: "list_all text_line ls \<Longrightarrow> length (concat ls) \<le> 512 * length ls"
  by (induction ls) (auto simp: text_line_def)

definition disk_ok :: "write_env \<Rightarrow> bool" where
  "disk_ok e \<longleftrightarrow> we_fopen_ok e \<and> we_rename_ok e \<and> 4096 \<le> we_written e"

lemma disk_ok_writes: "disk_ok e \<Longrightarrow> list_all text_line ls \<Longrightarrow> length ls \<le> 8 \<Longrightarrow> writes_all e (concat ls)"
  using length_concat_lines [of ls] by (simp add: disk_ok_def writes_all_def)

lemma same_run_no_drift:
  assumes "report_ok r" "b = (read_baseline r uuid driver)\<lparr>bl_valid := True\<rparr>" "p = (read_probe r)\<lparr>pr_stale := False\<rparr>"
  shows "perf_drop (Some b) (Some p) = Some (Fin 0)"
proof -
  have "0 < rnd (rounded 6 (r_perf r))" using assms(1) by (intro perf_text) (simp_all add: report_ok_def)
  then show ?thesis by (simp add: perf_drop_def assms(2,3) read_baseline_def read_probe_def Let_def dsub_Fin fl_def)
qed

lemma base_names:
  assumes "a @ ''/'' @ s = b @ ''/'' @ t" "CHR ''/'' \<notin> set s" "CHR ''/'' \<notin> set t"
  shows "s = t"
proof -
  have "takeWhile (\<lambda>c. c \<noteq> CHR ''/'') (rev (a @ ''/'' @ s)) = rev s" "takeWhile (\<lambda>c. c \<noteq> CHR ''/'') (rev (b @ ''/'' @ t)) = rev t"
    using assms(2,3) by (auto simp: takeWhile_append takeWhile_eq_all_conv)
  then show ?thesis using assms(1) by (metis rev_rev_ident)
qed

text \<open>The names of the two files of a run differ, also when they are kept in one directory.\<close>

lemma probe_not_baseline:
  assumes "CHR ''/'' \<notin> set s"
  shows "a @ ''/'' @ s @ ''.probe'' \<noteq> b @ ''/'' @ s" "a @ ''/'' @ s @ ''.probe'' \<noteq> b @ ''/'' @ s @ ''.tmp''"
  using assms base_names [of a "s @ ''.probe''" b s] base_names [of a "s @ ''.probe''" b "s @ ''.tmp''"] by auto

definition run_report :: "probe_env \<Rightarrow> probe_opts \<Rightarrow> double list \<Rightarrow> rat \<Rightarrow> rat \<Rightarrow> report" where
  "run_report e opts xs q d = \<lparr>r_serial = snd (pe_serial e), r_time = pe_time e, r_perf = q, r_duration = d,
     r_count = int (length xs), r_workload = workload_name (po_matrix_n opts)\<rparr>"

lemma report_files:
  assumes "probe_report e opts xs fs = (0, fs')" "\<not> po_dry_run opts" "po_establish_baseline opts"
    and "perf_mean xs = Fin q" "ddiv (of_u64 (pe_end e - pe_meas_start e)) (Fin 1000) = Fin d"
    and "r = run_report e opts xs q d" "report_ok r" "CHR ''/'' \<notin> set (r_serial r)"
    and "ident_ok 48 (pe_uuid e)" "ident_ok 64 (pe_driver e)" "disk_ok (pe_write e)" "disk_ok (pe_write_base e)"
    and "length (po_state_dir opts) + length (r_serial r) < 500" "length (po_baseline_dir opts) + length (r_serial r) < 500"
  shows "baseline_load fs' (po_baseline_dir opts) (r_serial r) = (read_baseline r (pe_uuid e) (pe_driver e))\<lparr>bl_valid := True\<rparr>"
    and "probe_load fs' now (po_state_dir opts) (r_serial r) ttl =
      (read_probe r)\<lparr>pr_stale := now > word_of_int (r_time r) \<and> now - word_of_int (r_time r) > word_of_int ttl\<rparr>"
proof -
  let ?w = "write_probe_file (pe_write e) (po_state_dir opts) (r_serial r) (stamp r) (Fin (r_perf r)) (Fin (r_duration r))
    (r_count r) (r_workload r) fs"
  obtain r1 fs1 where w1: "?w = (r1, fs1)" by force
  have "length (probe_content r) \<le> 8" "length (baseline_content r (pe_uuid e) (pe_driver e)) \<le> 8"
    by (simp_all add: probe_text_def baseline_text_def)
  note disk = disk_ok_writes [OF assms(11) probe_content_lines [OF assms(7)] this(1)]
    disk_ok_writes [OF assms(12) baseline_content_lines [OF assms(7,9,10)] this(2)]
  note pr = probe_file_read_back [OF assms(7,13) disk(1) w1, of now ttl]
  let ?b = "write_baseline_file (pe_write_base e) (po_baseline_dir opts) (r_serial r) (pe_uuid e) (pe_driver e) (stamp r)
    (Fin (r_perf r)) (r_count r) (r_workload r) fs1"
  obtain r2 fs2 where w2: "?b = (r2, fs2)" by force
  note bl = baseline_file_read_back [OF assms(7,9,10,14) disk(2) w2]
  have "fs' = fs2" using assms(1-5) w1 w2 pr bl by (simp add: probe_report_def iso8601_now_def run_report_def assms(6) Let_def)
  moreover have "probe_path (po_state_dir opts) (r_serial r) = po_state_dir opts @ ''/'' @ r_serial r @ ''.probe''"
    using assms(13) by (simp add: probe_path_def)
  then have "fs2 (probe_path (po_state_dir opts) (r_serial r)) = fs1 (probe_path (po_state_dir opts) (r_serial r))"
    using bl probe_not_baseline [OF assms(8), of "po_state_dir opts" "po_baseline_dir opts"] by simp
  ultimately show "baseline_load fs' (po_baseline_dir opts) (r_serial r) = (read_baseline r (pe_uuid e) (pe_driver e))\<lparr>bl_valid := True\<rparr>"
    "probe_load fs' now (po_state_dir opts) (r_serial r) ttl =
      (read_probe r)\<lparr>pr_stale := now > word_of_int (r_time r) \<and> now - word_of_int (r_time r) > word_of_int ttl\<rparr>"
    using bl pr by (simp_all add: probe_load_def)
qed

text \<open>C10. The exporter reads back what the probe measured: after a run of the probe with
  \<open>--establish-baseline\<close> that exits with 0, with a serial number and identifiers of ordinary characters,
  a finite mean in range and a disk that took the files, the exporter finds a valid baseline and an available
  probe result for the GPU, with the time of the run, the same workload, 5 to 4096 samples and
  a performance within half a unit of the sixth decimal before its rounding to a double; the result is
  stale exactly when it is older than its lifetime, and until then the drift it shows is 0.\<close>

theorem probe_run_read_back:
  assumes "probe_main e args fs = Some (evs, 0, fs')" "parse_args probe_defaults args = Inr opts" "measurement e opts = Some st"
    and "po_establish_baseline opts" "perf_mean (perf_w_samples st) = Fin q" "1 / 10 ^ 6 \<le> q" "q \<le> 10 ^ 9"
    and "pe_end e - pe_meas_start e \<le> 86400000" "0 < pe_time e" "pe_time e < 253402300800"
    and "ident_ok 32 serial" "CHR ''/'' \<notin> set serial" "snd (pe_serial e) = serial"
    and "ident_ok 48 (pe_uuid e)" "ident_ok 64 (pe_driver e)" "disk_ok (pe_write e)" "disk_ok (pe_write_base e)"
    and "length (po_state_dir opts) < 450" "length (po_baseline_dir opts) < 450"
    and "b = baseline_load fs' (po_baseline_dir opts) serial" "p = probe_load fs' now (po_state_dir opts) serial ttl"
  shows "bl_valid b \<and> pr_available p \<and> pr_probe_exit_code p = 0 \<and> bl_established_at_s b = word_of_int (pe_time e) \<and>
    pr_probe_timestamp_s p = word_of_int (pe_time e) \<and> bl_workload b = pr_workload p \<and>
    5 \<le> pr_sample_count p \<and> pr_sample_count p \<le> 4096 \<and>
    (\<exists>v. bl_perf_w_mean b = Fin (rnd v) \<and> pr_perf_w_mean p = Fin (rnd v) \<and> \<bar>v - q\<bar> \<le> 1 / (2 * 10 ^ 6)) \<and>
    (pr_stale p \<longleftrightarrow> now > word_of_int (pe_time e) \<and> now - word_of_int (pe_time e) > word_of_int ttl) \<and>
    (\<not> pr_stale p \<longrightarrow> perf_drop (Some b) (Some p) = Some (Fin 0))"
proof -
  note run = probe_main_reports [OF assms(1-3)]
  obtain d where d: "ddiv (of_u64 (pe_end e - pe_meas_start e)) (Fin 1000) = Fin d" "0 \<le> d" "d \<le> 86400"
    using duration_range [OF assms(8)] by blast
  define r where "r = run_report e opts (perf_w_samples st) q d"
  have dims: "512 \<le> po_matrix_n opts" "po_matrix_n opts \<le> 32768" "\<not> po_dry_run opts"
    using run assms(4) by (auto simp: opts_ok_def)
  have ok: "report_ok r" and ser: "r_serial r = serial"
    using run d(2,3) assms(6,7,9-13) workload_name_ok [OF dims(1,2)] by (auto simp: r_def run_report_def report_ok_def ident_ok_def)
  have len: "length (po_state_dir opts) + length (r_serial r) < 500" "length (po_baseline_dir opts) + length (r_serial r) < 500"
    using assms(11,18,19) ser by (simp_all add: ident_ok_def)
  have rep: "probe_report e opts (perf_w_samples st) fs = (0, fs')" using run by simp
  note files = report_files [OF rep dims(3) assms(4,5) d(1) r_def ok _ assms(14-17) len]
  have b: "b = (read_baseline r (pe_uuid e) (pe_driver e))\<lparr>bl_valid := True\<rparr>"
    and p: "p = (read_probe r)\<lparr>pr_stale := now > word_of_int (r_time r) \<and> now - word_of_int (r_time r) > word_of_int ttl\<rparr>"
    using files assms(12,20,21) by (simp_all add: ser)
  have r: "r_time r = pe_time e" "r_perf r = q" "r_count r = int (length (perf_w_samples st))" by (simp_all add: r_def run_report_def)
  have "perf_drop (Some b) (Some p) = Some (Fin 0)" if "\<not> pr_stale p"
    using that same_run_no_drift [OF ok b, of p] by (simp add: p)
  then show ?thesis using run rounded_near [of 6 q] unfolding b p
    by (auto simp: read_baseline_def read_probe_def r)
qed

definition demo_disk :: write_env where
  "demo_disk = \<lparr>we_fopen_ok = True, we_written = 5000, we_rename_ok = True\<rparr>"

text \<open>Five intervals of one second with one multiplication each at 100 W.\<close>

definition demo_probe_env :: probe_env where
  "demo_probe_env = \<lparr>pe_init = 0, pe_handle = 0, pe_serial = (0, ''S1''), pe_uuid = ''GPU-1'', pe_driver = ''550.54'', pe_cuda = (\<lambda>_. 0),
     pe_warm_now = 0, pe_warm = [30000], pe_meas_start = 30000,
     pe_passes = map (\<lambda>k. \<lparr>mp_test = 30000 + k * 1000, mp_gemm = 0, mp_now = 31000 + k * 1000, mp_sync = 31000 + k * 1000,
         mp_power_mw = 100000\<rparr>)
       [0, 1, 2, 3, 4] @ [\<lparr>mp_test = 400000, mp_gemm = 0, mp_now = 0, mp_sync = 0, mp_power_mw = 0\<rparr>],
     pe_end = 400000, pe_time = 1773584520, pe_write = demo_disk, pe_write_base = demo_disk\<rparr>"

definition demo_opts :: probe_opts where
  "demo_opts = probe_defaults\<lparr>po_establish_baseline := True\<rparr>"

text \<open>Bounds in multiples of 1/128, which every rounding keeps.\<close>

definition btw :: "int \<Rightarrow> int \<Rightarrow> double \<Rightarrow> bool" where
  "btw j k d \<longleftrightarrow> (\<exists>q. d = Fin q \<and> of_int j / 128 \<le> q \<and> q \<le> of_int k / 128)"

lemma btw_fl:
  assumes "of_int j / 128 \<le> q" "q \<le> of_int k / 128" "0 \<le> j" "j \<le> 1000" "0 \<le> k" "k \<le> 1000"
  shows "btw j k (fl q)"
proof -
  have f: "f64 (of_int i / 128)" "\<bar>of_int i / 128 :: rat\<bar> \<le> 2 ^ 1023" if "0 \<le> i" "i \<le> 1000" for i :: int
  proof -
    have "of_int i / 128 = of_int i * (2 :: rat) powi (- 7)" by (simp add: power_int_minus)
    moreover have "\<bar>i\<bar> \<le> 2 ^ 53" using that by simp
    ultimately show "f64 (of_int i / 128)" unfolding f64_def by (intro exI [of _ i] exI [of _ "- 7"]) simp
    have "(of_int i :: rat) \<le> of_int 1000" using that(2) by (simp only: of_int_le_iff)
    then show "\<bar>of_int i / 128 :: rat\<bar> \<le> 2 ^ 1023"
      using that(1) power_increasing [of 4 1023 "2 :: rat"] by simp
  qed
  show ?thesis using fl_bounded [OF f(1) f(1) assms(1,2) f(2) f(2)] assms(3-6) by (auto simp: btw_def)
qed

lemma btw_add:
  assumes "btw j k x" "btw 1 4 y" "0 \<le> j" "j \<le> 900" "0 \<le> k" "k \<le> 900"
  shows "btw (j + 1) (k + 4) (dadd x y)"
  using assms by (auto simp: btw_def [of j] btw_def [of 1] add_divide_distrib intro!: btw_fl)

definition demo_rate :: double where
  "demo_rate = ddiv (ddiv (ddiv (dmul (flops_per_gemm 8192) (of_c_int 1)) (Fin (10 ^ 12))) (ddiv (of_u64 1000) (Fin 1000)))
     (ddiv (of_c_int 100000) (Fin 1000))"

lemma demo_fl: "fl 1 = Fin 1" "fl 100 = Fin 100" "fl 16384 = Fin 16384" "fl 134217728 = Fin 134217728"
  "fl 1099511627776 = Fin 1099511627776" "fl 1000 = Fin 1000" "fl 8192 = Fin 8192" "fl 100000 = Fin 100000" "fl 5 = Fin 5"
  using fl_of_int [of 1] fl_of_int [of 100] fl_of_int [of 16384] fl_of_int [of 134217728] fl_of_int [of 1099511627776]
    fl_of_int [of 1000] fl_of_int [of 8192] fl_of_int [of 100000] fl_of_int [of 5] by simp_all

lemma demo_rate_btw: "btw 1 4 demo_rate"
proof -
  have t: "btw 128 256 (fl (1099511627776 / 10 ^ 12))" by (rule btw_fl) simp_all
  then obtain y where y: "fl (1099511627776 / 10 ^ 12) = Fin y" "1 \<le> y" "y \<le> 2" by (auto simp: btw_def)
  have "btw 128 256 (fl y)" using y by (intro btw_fl) simp_all
  then obtain z where z: "fl y = Fin z" "1 \<le> z" "z \<le> 2" by (auto simp: btw_def)
  have "btw 1 4 (fl (z / 100))" using z by (intro btw_fl) simp_all
  moreover have "demo_rate = fl (z / 100)" using y(1) z(1)
    by (simp add: demo_rate_def flops_per_gemm_def of_c_int_def of_u64_def demo_fl)
  ultimately show ?thesis by simp
qed

lemma demo_mean: "btw 1 4 (perf_mean [demo_rate, demo_rate, demo_rate, demo_rate, demo_rate])"
proof -
  note a = btw_add [OF _ demo_rate_btw]
  have "btw 0 0 (Fin 0)" by (simp add: btw_def)
  from a [OF a [OF a [OF a [OF a [OF this]]]]]
  have "btw 5 20 (foldl dadd (Fin 0) [demo_rate, demo_rate, demo_rate, demo_rate, demo_rate])" by simp
  then obtain q where q: "foldl dadd (Fin 0) [demo_rate, demo_rate, demo_rate, demo_rate, demo_rate] = Fin q" "5 / 128 \<le> q" "q \<le> 20 / 128"
    by (auto simp: btw_def)
  have "btw 1 4 (fl (q / 5))" using q(2,3) by (intro btw_fl) simp_all
  then show ?thesis using q(1) by (simp add: perf_mean_def of_c_int_def demo_fl)
qed

lemma demo_measurement:
  "\<exists>st. measurement demo_probe_env demo_opts = Some st \<and> perf_w_samples st = [demo_rate, demo_rate, demo_rate, demo_rate, demo_rate]"
  by (simp add: measurement_def demo_probe_env_def demo_opts_def probe_defaults_def probe_default_simps meas_step_def Let_def MAX_SAMPLES_def
      demo_rate_def of_c_int_def of_u64_def demo_fl MIN_POWER_W_def)

lemma demo_probe_run:
  assumes "measurement demo_probe_env demo_opts = Some st" "length (perf_w_samples st) = 5"
  shows "\<exists>evs fs'. probe_main demo_probe_env [''--establish-baseline''] Map.empty = Some (evs, 0, fs')"
proof -
  have "opts_ok demo_opts" "\<not> po_dry_run demo_opts" "po_establish_baseline demo_opts" "po_warmup_s demo_opts = 30"
    by (simp_all add: opts_ok_def demo_opts_def probe_defaults_def probe_default_simps)
  moreover have "\<exists>fs'. probe_report demo_probe_env demo_opts (perf_w_samples st) Map.empty = (0, fs')"
    by (simp add: probe_report_def write_probe_file_def write_baseline_file_def write_renamed_def demo_probe_env_def
        demo_disk_def Let_def demo_opts_def probe_defaults_def probe_default_simps)
  moreover have "parse_args probe_defaults [''--establish-baseline''] = Inr demo_opts"
    by (simp add: flag_opt_def demo_opts_def)
  moreover have "pe_init demo_probe_env = 0" "pe_handle demo_probe_env = 0" "pe_serial demo_probe_env = (0, ''S1'')"
    "pe_cuda demo_probe_env = (\<lambda>_. 0)" "pe_warm_now demo_probe_env = 0" "pe_warm demo_probe_env = [30000]"
    by (simp_all add: demo_probe_env_def)
  ultimately show ?thesis using assms by (auto simp: probe_main_def measured_exit_def MIN_VALID_SAMPLES_def NVML_CHECK_def cuda_setup_def CUDA_CHECK_def CUBLAS_CHECK_def)
qed

theorem probe_run_read_back_witness:
  "\<exists>evs fs'. probe_main demo_probe_env [''--establish-baseline''] Map.empty = Some (evs, 0, fs') \<and>
     bl_valid (baseline_load fs' ''/etc/gpu-health/baseline'' ''S1'') \<and>
     pr_available (probe_load fs' 1773590000 ''/var/run/gpu-health'' ''S1'' 86400)"
proof -
  obtain st where st: "measurement demo_probe_env demo_opts = Some st"
    "perf_w_samples st = [demo_rate, demo_rate, demo_rate, demo_rate, demo_rate]" using demo_measurement by blast
  obtain evs fs' where run: "probe_main demo_probe_env [''--establish-baseline''] Map.empty = Some (evs, 0, fs')"
    using demo_probe_run [OF st(1)] st(2) by auto
  obtain q where q: "perf_mean (perf_w_samples st) = Fin q" "1 / 10 ^ 6 \<le> q" "q \<le> 10 ^ 9"
    using demo_mean unfolding st(2) by (auto simp: btw_def)
  have args: "parse_args probe_defaults [''--establish-baseline''] = Inr demo_opts" by (simp add: flag_opt_def demo_opts_def)
  have o: "po_establish_baseline demo_opts" "po_state_dir demo_opts = ''/var/run/gpu-health''"
    "po_baseline_dir demo_opts = ''/etc/gpu-health/baseline''" by (simp_all add: demo_opts_def probe_defaults_def probe_default_simps)
  have e: "pe_end demo_probe_env - pe_meas_start demo_probe_env \<le> 86400000" "pe_time demo_probe_env = 1773584520"
    "snd (pe_serial demo_probe_env) = ''S1''" "ident_ok 48 (pe_uuid demo_probe_env)" "ident_ok 64 (pe_driver demo_probe_env)"
    "disk_ok (pe_write demo_probe_env)" "disk_ok (pe_write_base demo_probe_env)" "ident_ok 32 ''S1''"
    by (simp_all add: demo_probe_env_def ident_ok_def word_text_def isspace_def ccode_def disk_ok_def demo_disk_def)
  note w = probe_run_read_back [OF run args st(1) o(1) q e(1) _ _ e(8) _ e(3-7) _ _ refl refl, of 1773590000 86400]
  have "bl_valid (baseline_load fs' ''/etc/gpu-health/baseline'' ''S1'')"
    "pr_available (probe_load fs' 1773590000 ''/var/run/gpu-health'' ''S1'' 86400)"
    using w by (simp_all add: e(2) o(2,3))
  then show ?thesis using run by blast
qed

end
