(* ===== verification/Spec2Isabelle.thy ===== *)
theory Spec2Isabelle
  imports System ProbeProps
begin

text \<open>
  A verification library for the GPU health exporter. The program is one parent process and one
  child. The parent (\<^verbatim>\<open>src/main.c\<close>) loads the driver library and, when there is one, the DCGM
  library, starts one poll thread for each GPU (\<^verbatim>\<open>src/collector.c\<close>), forks the child and watches it. A poll
  thread reads the GPU, pushes a sample into a ring buffer, scores the GPU (\<^verbatim>\<open>src/scorer.c\<close>) and sends
  a snapshot through a socket pair (\<^verbatim>\<open>src/snapshot.c\<close>). The child (\<^verbatim>\<open>src/http.c\<close>) drops its privileges
  (\<^verbatim>\<open>src/procpriv.c\<close>), keeps the newest snapshot of each GPU and answers \<^verbatim>\<open>/metrics\<close>, \<^verbatim>\<open>/ready\<close> and
  \<^verbatim>\<open>/live\<close>. A separate program, the probe (\<^verbatim>\<open>probe/gpu_health_probe.cu\<close>), measures a GPU and leaves
  files that the exporter reads (\<^verbatim>\<open>src/state.c\<close>).

  Theories and what they model:

    \<^item> Prelude: C arithmetic, the last entries of a list, and the contracts used by several parts:
      a transition system with an invariant, sorting with a C comparator, a store written by assignments.
    \<^item> Binary64: doubles as rationals with infinities and NaN, and the rounding of every operation
      to the 53 bits of IEEE 754, ties to even.
    \<^item> Types: every struct and enum of \<^verbatim>\<open>src/types.h\<close>.
    \<^item> Ring: \<open>ring_push\<close> and the ring allocation of \<^verbatim>\<open>collector.c\<close>, and the index function of
      \<^verbatim>\<open>scorer.c\<close>; a ring refines a sliding window.
    \<^item> Scorer, ScoreProps: \<^verbatim>\<open>src/scorer.c\<close>, one definition for each stage of \<open>score_gpu\<close>, and the
      table of sixteen rules that it refines.
    \<^item> Util, Calendar: \<^verbatim>\<open>src/util.c\<close> with the parts of the C library it calls; the calendar with the
      round trip of printing and reading a time.
    \<^item> Config, ConfigProps: \<^verbatim>\<open>src/config.c\<close>: the table of keys, defaults, file and environment.
    \<^item> Nvml, Dcgm: \<^verbatim>\<open>src/nvml.c\<close>, \<^verbatim>\<open>src/dcgm.c\<close> with their headers, and the calls of one poll
      cycle from \<^verbatim>\<open>collector.c\<close>. The libraries are records of functions, arguments of every definition.
    \<^item> StateFiles: \<^verbatim>\<open>src/state.c\<close>: the parsers of the baseline and probe files and the inotify helpers.
    \<^item> Snapshot: \<^verbatim>\<open>src/snapshot.c\<close>: assembly of the snapshot, and sending and receiving over short
      reads and writes. The bytes of a message are given by an encoding that is an argument.
    \<^item> Collector, CollectorProps: the poll thread as a step relation. A step is a pass of its loop
      with an arbitrary environment (clocks, library answers, files, allocations) or a stop request.
    \<^item> Reload: the reads of all threads on the one inotify descriptor that they share, one read at a time.
    \<^item> Metrics: the text of the page, every family of \<open>render_metrics\<close>, with \<open>printf\<close> conversions.
    \<^item> Page: the rendered page as lines and series, and which lines the cut to the buffer leaves.
    \<^item> Http, HttpProps: the child: receiver thread, requests, responses, accept loop, TLS setup, start.
    \<^item> Procpriv: the seccomp filter as a BPF program with a machine that runs it, and both setups.
    \<^item> Filesd: the service discovery file, as the sequence of states of the file system.
    \<^item> MainLoop, MainProps: startup with every exit, spawning, monitor loop, shutdown. What the process
      does to its surroundings is a list of events.
    \<^item> Probe, ProbeProps: the probe up to the files it writes, with the exits of its checked library calls.
    \<^item> System: the parts composed. The state is the list of poll threads, the bytes in the socket pair, the
      child and the parent; a step is a pass of one thread with the write of its message, a turn of the
      child's receiver, a stop request, a signal, the death of the child or its replacement by the monitor loop.
      The system refines a board, by a forward simulation.

  What the groups of lemmas show:

    \<^item> The score of every published snapshot is a number between 0 and 100 and its class is the
      documented function of it (configurations without NaN); every reason bit is set exactly on its
      condition; the score depends on the window of samples alone; every array index is in bounds.
    \<^item> A configuration is built with the stated precedence, every value is in its range, and loading fails
      exactly on a file that cannot be read or a text that is refused.
    \<^item> A poll thread marks a GPU unavailable or lost exactly at the configured counts of errors and
      recovers after the retry interval; what it sends is consistent with its context.
    \<^item> The child keeps the newest snapshot of each GPU, is ready exactly when all have reported and
      alive exactly when none is too old; every request gets one complete response; with distinct serial numbers the page
      names each series once, under its own GPU.
    \<^item> The filter allows exactly the listed system calls; descriptors are not leaked over respawns; each
      exit leaves the driver library as it was; main returns when it is told to stop.
    \<^item> The exporter reads back what the probe wrote, and both together show no drift.
    \<^item> Over every interleaving of the whole program, with lost messages, deaths and respawns of the child, a
      slot shows a snapshot that its own GPU's thread has published and never goes back while the child lives;
      the receiver empties the socket; the strings of contexts and messages fit their arrays.
    \<^item> On a healthy machine one pass of each thread makes the child ready, and every slot shows its own pass;
      a GPU that is lost makes the liveness check fail once what it sent last is too old.
    \<^item> What is read only once: each GPU is scored with the probe result that was found at startup, however long
      the program runs; of \<open>n\<close> events of the baseline directory at most \<open>n\<close> threads see one and load their baselines again.
    \<^item> A GPU without a serial number whose UUID is longer than the serial buffer runs without an identity.
    \<^item> This theory joins the two processes: what a scrape shows is the score of the last poll, under the
      serial of the GPU that was read at the start, in a whole line of the page as it is sent.

  Modelling. A C string is the list of its characters. Machine integers are words where the code relies
  on their width, and \<open>int\<close> where values are bounded by the configuration. A system call is an
  argument: its result, or the list of its successive results for a loop of calls, so that a theorem
  holds for every way the kernel may split the data. A loop that has not returned when the list of
  results is used up is \<open>None\<close> (or \<open>IoWait\<close>, \<open>MainWait\<close>); the theorems on termination state how many results
  are enough (the request buffer of 4096 bytes, \<open>10 ^ 7\<close> writes for the longest page of 256 KB, a clock
  at the deadline, one turn of the receiver for each message in the socket). The page is cut at 256 KB; its head up to the family of
  the score takes at most 130000 characters for the 256 GPUs that a child accepts, so no score is cut off. All other recursions are structural or have a measure. Threads interleave by their steps: shared state
  is changed under a lock in the code, so a locked section is one step. The inotify descriptor has no lock, so there a
  step is one read. In System the write of a message
  is one step too: it is written as a whole or its first call fails. Snapshot shows what happens
  otherwise, when another thread writes between the two parts of a short write. The memory image of a
  message is an encoding that is read back as it was written (\<open>wire_ok\<close>).

  Not modelled: the CUDA kernels and the libraries themselves (NVML, DCGM, mbedTLS, libc beyond the
  functions named above); the sign of zero and of NaN; the text of most log lines; the timing of
  \<open>nanosleep\<close>; the descriptors of the parent other than the socket pairs, among them the inotify
  descriptor that every child inherits; C libraries without the numbers of \<open>clone3\<close> and \<open>rseq\<close>, for which the
  filter would be shorter; the layout in memory of a snapshot message; the Python predecessor under \<^verbatim>\<open>v0\<close>, the unit
  tests and the deployment files.
\<close>

section \<open>From the poll thread to the page\<close>

lemma newest_slot:
  assumes "0 < n" "n \<le> 256" "st = ipc_receiver_thread (map Some ms) (http_start n cfg)"
    and "int i < n" "newest_msg i ms = Some s"
  shows "\<exists>sl\<in>set (g_slots st). received sl \<and> snap sl = s"
proof -
  note r = receiver_run [OF assms(1-3)]
  have "slot_view st i = Some s" using r assms(4,5) by simp
  moreover have "i < length (g_slots st)" using r assms(4) by (auto simp: child_inv_def)
  ultimately show ?thesis by (auto simp: slot_view_def split: if_splits intro: bexI [of _ "g_slots st ! i"])
qed

text \<open>What a scrape shows is the score of the last poll: with a loaded configuration without NaN, when
  the newest message that the child has received for a GPU is one that its poll thread sent, the page
  has the line with that snapshot's serial and score, the score lies between 0 and 100, and the
  answer to a request for the page is that page, as far as it fits the buffer.\<close>

theorem scrape_shows_last_score:
  assumes "config_load fopen getenv path = Some (e_cfg ex)" "cfg_no_nan (e_cfg ex)"
    and "reach (poll_init ex) (poll_step ex) t" "m \<in> set (t_sent t)"
    and "0 < n" "n \<le> 256" "st = ipc_receiver_thread (map Some ms) (http_start n (e_cfg ex))"
    and "int i < n" "newest_msg i ms = Some (msg_snapshot m)"
  shows "score_line (msg_snapshot m) \<in> set (metrics_chunks (g_slots st)) \<and>
    (\<exists>q. sn_score (msg_snapshot m) = Fin q \<and> 0 \<le> q \<and> q \<le> 100) \<and>
    rsp_body (handle_request True True now st ''GET'' ''/metrics'') = take (METRICS_BUF_SIZE - 1) (concat (metrics_chunks (g_slots st)))"
proof -
  have "msg_ok ex m" using poll.reach_inv [OF assms(3)] assms(4) by (auto simp: thread_inv_def list_all_iff)
  then have "\<exists>q. sn_score (msg_snapshot m) = Fin q \<and> 0 \<le> q \<and> q \<le> 100"
    using config_load_in_range [OF assms(1)] assms(2) by (auto simp: msg_ok_def Let_def)
  moreover have "score_line (msg_snapshot m) \<in> set (metrics_chunks (g_slots st))"
    using newest_slot [OF assms(5-9)] score_line_on_page by metis
  ultimately show ?thesis by (simp add: handle_request_def render_metrics_text)
qed

theorem scrape_shows_last_score_witness:
  "\<exists>s. score_line s \<in> set (metrics_chunks (g_slots (ipc_receiver_thread [Some \<lparr>msg_gpu_index = 0, msg_snapshot = s\<rparr>]
       (http_start 1 demo_cfg)))) \<and> (\<exists>q. sn_score s = Fin q \<and> 0 \<le> q \<and> q \<le> 100)"
proof -
  obtain t :: poll_thread_t where t: "reach (poll_init demo_ex) (poll_step demo_ex) t" "t_sent t \<noteq> []" using demo_reach by blast
  obtain m where m: "m \<in> set (t_sent t)" using t(2) by (cases "t_sent t") auto
  have ex: "e_cfg demo_ex = demo_cfg" by (simp add: demo_ex_def)
  have cfg: "config_load (\<lambda>_. None) gpu_env None = Some (e_cfg demo_ex)" "cfg_no_nan (e_cfg demo_ex)"
    using demo_cfg_load demo_cfg_no_nan by (simp_all add: ex)
  have "newest_msg 0 [\<lparr>msg_gpu_index = 0, msg_snapshot = msg_snapshot m\<rparr>] = Some (msg_snapshot m)"
    by (simp add: newest_msg_def)
  note w = scrape_shows_last_score [OF cfg t(1) m _ _ refl _ this, of 1 0, unfolded ex]
  let ?p = "ipc_receiver_thread [Some \<lparr>msg_gpu_index = 0, msg_snapshot = msg_snapshot m\<rparr>] (http_start 1 demo_cfg)"
  have "score_line (msg_snapshot m) \<in> set (metrics_chunks (g_slots ?p))"
    using w by (simp del: ipc_receiver_thread.simps)
  moreover have "\<exists>q. sn_score (msg_snapshot m) = Fin q \<and> 0 \<le> q \<and> q \<le> 100"
    using w by (simp del: ipc_receiver_thread.simps)
  ultimately show ?thesis by blast
qed

text \<open>C2. Every score on the page is honest, at any moment of any run of the whole program: a slot that has
  been filled shows a snapshot that this GPU's own thread has published, with the serial that was read for
  that GPU at the start and its index. For a configuration without NaN and a driver whose string queries keep to
  the sizes they are given, the score lies between 0 and 100 and the page that a request gets, after the cut to
  its buffer, has the line with that serial and score as a whole, for every number of GPUs. A GPU whose window has not
  passed the completeness gate has the score 0 there, with its telemetry marked as incomplete.\<close>

theorem system_page_sound:
  assumes "reach (sys_init e ms) (sys_step sz encode decode (ms_ex ms)) s" "wire_ok sz encode decode s"
    and "cfg_no_nan (e_cfg (ms_ex ms))" "\<forall>i. ident_lib_ok (me_ident e i)"
    and "sy_child s = Some c" "i < length (ms_ctxs ms)" "slot_view c i = Some sn"
  shows "sn \<in> set (published s ! i) \<and> sn_serial sn = fst (read_identity (me_ident e i)) \<and> sn_gpu_index sn = int i \<and>
    (\<exists>q. sn_score sn = Fin q \<and> 0 \<le> q \<and> q \<le> 100) \<and>
    on_page (score_line sn) (rsp_body (handle_request True True now c ''GET'' ''/metrics''))"
proof -
  obtain evs where start: "main_startup e = (evs, MainRun ms)" using sys_started [OF assms(1)] by blast
  note run = startup_run [OF start]
  have inv: "sys_inv e ms s" by (rule sys.reach_inv [OF assms(1)])
  obtain m where m: "m \<in> set (t_sent (sy_threads s ! i))" "msg_snapshot m = sn" "msg_ok (ms_ex ms) m"
    "msg_ident m = ctx_ident (ms_ctxs ms ! i)"
    using shown_was_sent [OF assms(1,2,6)] assms(5,7) by (auto simp: child_view_def)
  have "sn \<in> set (published s ! i)" using m(1,2) inv assms(6) by (auto simp: published_def sys_inv_def)
  moreover have "sn_serial sn = fst (read_identity (me_ident e i))" "sn_gpu_index sn = int i"
    using m run assms(6) by (auto simp: msg_ident_def ctx_ident_def msg_ok_def start_collector_identity init_ctx_identity Let_def)
  moreover obtain path where "config_load (me_fopen e) (me_getenv e) (Some path) = Some (e_cfg (ms_ex ms))" using run by blast
  then have "\<exists>q. sn_score sn = Fin q \<and> 0 \<le> q \<and> q \<le> 100"
    using m(2,3) config_load_in_range assms(3) by (auto simp: msg_ok_def Let_def)
  moreover have "on_page (score_line sn) (rsp_body (handle_request True True now c ''GET'' ''/metrics''))"
    by (rule shown_score_line [OF assms])
  ultimately show ?thesis by blast
qed

theorem system_page_sound_witness:
  "\<exists>ms s c sn. reach (sys_init (demo_main 1) ms) (sys_step 3 demo_encode demo_decode (ms_ex ms)) s \<and> sy_child s = Some c \<and>
     slot_view c 0 = Some sn \<and> sn_serial sn = ''S1'' \<and> on_page (score_line sn) (rsp_body (handle_request True True 0 c ''GET'' ''/metrics''))"
proof -
  obtain ms s u and m :: gpu_ipc_msg_t where s: "reach (sys_init (demo_main 1) ms) (sys_step 3 demo_encode demo_decode (ms_ex ms)) s"
    "serve_step 3 demo_encode demo_decode (ms_ex ms) s u" "e_cfg (ms_ex ms) = cfg_defaults"
    "length (ms_ctxs ms) = 1" "child_view s 0 = Some (msg_snapshot m)"
    by (rule demo_system)
  obtain c where c: "sy_child s = Some c" "slot_view c 0 = Some (msg_snapshot m)" using s(5) by (auto simp: child_view_def split: option.splits)
  have "sn_serial (msg_snapshot m) = fst (read_identity (me_ident (demo_main 1) 0)) \<and>
      on_page (score_line (msg_snapshot m)) (rsp_body (handle_request True True 0 c ''GET'' ''/metrics''))"
    using system_page_sound [OF s(1) demo_wire_ok _ demo_ident_lib_ok c(1) _ c(2)] s(3,4) cfg_defaults_no_nan by simp
  moreover have "fst (read_identity (me_ident (demo_main 1) 0)) = ''S1''"
    by (simp add: demo_main_def demo_ident_def read_identity_def copy_query_def SERIAL_SIZE_def)
  ultimately show ?thesis using s(1) c by (intro exI [of _ ms] exI [of _ s] exI [of _ c] exI [of _ "msg_snapshot m"]) simp
qed

text \<open>C3. A poll reaches the page: from every reachable state of the whole program in which the child
  receives, whatever is already in the socket, when a healthy GPU is polled and the driver answers, the
  program can run on, and no other thread has to move, to a state in which the page that a request gets has
  the score of exactly that poll as a whole line. When the page fits its buffer of 256 KB, it has the time stamp of
  that poll too, the reading of the monotonic clock in seconds; the score is there in any case. The configuration is one without NaN, and the driver's string queries
  keep to the sizes they are given.\<close>

theorem poll_reaches_page:
  assumes "reach (sys_init e ms) (sys_step sz encode decode (ms_ex ms)) s" "wire_ok sz encode decode s" "receiving s"
    and "i < length (sy_threads s)" "t_running (sy_threads s ! i)" "c_gpu_available (t_ctx (sy_threads s ! i))"
    and "\<not> c_stop (t_ctx (sy_threads s ! i))" "env_error env = None" "v = poll_thread_pass (ms_ex ms) env (sy_threads s ! i)"
    and "framed sz encode decode (ipc_msg (t_ctx v))" "sn = msg_snapshot (ipc_msg (t_ctx v))"
    and "cfg_no_nan (e_cfg (ms_ex ms))" "\<forall>i. ident_lib_ok (me_ident e i)"
  shows "\<exists>u c. (serve_step sz encode decode (ms_ex ms))\<^sup>*\<^sup>* s u \<and> sy_threads u = (sy_threads s)[i := v] \<and> sy_child u = Some c \<and>
    slot_view c i = Some sn \<and> sn_last_poll_ms sn = pe_now_ms env \<and>
    (let page = rsp_body (handle_request True True now c ''GET'' ''/metrics'')
     in on_page (score_line sn) page \<and>
        (length page < METRICS_BUF_SIZE - 1 \<longrightarrow> on_page (stamp_line sn (pe_now_ms env)) page))"
proof -
  obtain u where u: "(serve_step sz encode decode (ms_ex ms))\<^sup>*\<^sup>* s u" "sy_threads u = (sy_threads s)[i := v]"
    "child_view u i = Some sn" "sn_last_poll_ms sn = pe_now_ms env" "wire_ok sz encode decode u"
    using poll_reaches_slot [OF assms(1-10)] unfolding assms(11) by blast
  have ru: "reach (sys_init e ms) (sys_step sz encode decode (ms_ex ms)) u" by (rule serve_reach [OF assms(1) u(1)])
  have inv: "sys_inv e ms u" by (rule sys.reach_inv [OF ru])
  obtain c where c: "sy_child u = Some c" "slot_view c i = Some sn" using u(3) by (auto simp: child_view_def split: option.splits)
  have i: "i < length (ms_ctxs ms)" "i < length (g_slots c)" using inv c(1) assms(4) u(2) by (auto simp: sys_inv_def child_inv_def)
  then have "g_slots c ! i \<in> set (g_slots c)" "received (g_slots c ! i)" "snap (g_slots c ! i) = sn"
    using c(2) by (auto simp: slot_view_def split: if_splits)
  then have "stamp_line sn (pe_now_ms env) \<in> set (metrics_chunks (g_slots c))" using stamp_line_in_chunks u(4) by metis
  from page_fits_whole [OF this]
  have "let page = rsp_body (handle_request True True now c ''GET'' ''/metrics'')
    in length page < METRICS_BUF_SIZE - 1 \<longrightarrow> on_page (stamp_line sn (pe_now_ms env)) page"
    by (simp add: handle_request_def render_metrics_text)
  then show ?thesis using u c shown_score_line [OF ru u(5) assms(12,13) c(1) i(1) c(2)]
    by (intro exI [of _ u] exI [of _ c]) (simp add: Let_def)
qed

theorem poll_reaches_page_witness:
  "\<exists>ms w u c sn. reach (sys_init (demo_main 1) ms) (sys_step 3 demo_encode demo_decode (ms_ex ms)) w \<and>
     (serve_step 3 demo_encode demo_decode (ms_ex ms))\<^sup>*\<^sup>* w u \<and> sy_child u = Some c \<and> sn_last_poll_ms sn = 9 \<and>
     on_page (score_line sn) (rsp_body (handle_request True True 0 c ''GET'' ''/metrics''))"
proof (rule demo_start)
  fix ms :: main_state and t and w :: "(gpu_ipc_msg_t \<times> nat) system"
  assume i0: "sys_init (demo_main 1) ms w" and w: "sy_threads w = [t]" "sy_child w = Some (http_start 1 cfg_defaults)"
    and t: "t_running t" "c_gpu_available (t_ctx t)" "\<not> c_stop (t_ctx t)" and cfg: "e_cfg (ms_ex ms) = cfg_defaults"
  have r: "reach (sys_init (demo_main 1) ms) (sys_step 3 demo_encode demo_decode (ms_ex ms)) w"
    by (rule reach_init [where init = "sys_init (demo_main 1) ms", OF i0])
  have rec: "receiving w" by (simp add: receiving_def w http_start_def)
  have "framed 3 demo_encode demo_decode m" for m by (simp add: framed_def demo_encode_length demo_decode_encode)
  then obtain u c sn where "(serve_step 3 demo_encode demo_decode (ms_ex ms))\<^sup>*\<^sup>* w u" "sy_child u = Some c"
    "sn_last_poll_ms sn = pe_now_ms (demo_env 0)" "on_page (score_line sn) (rsp_body (handle_request True True 0 c ''GET'' ''/metrics''))"
    using poll_reaches_page [OF r demo_wire_ok rec, of 0 "demo_env 0" _ _ 0] t cfg_defaults_no_nan demo_ident_lib_ok
    unfolding Let_def by (force simp: w demo_env_error cfg)
  then show ?thesis using r by (intro exI [of _ ms] exI [of _ w] exI [of _ u] exI [of _ c] exI [of _ sn]) (simp add: demo_env_def)
qed

text \<open>C4. A healthy machine becomes ready: from every reachable state in which the child receives, also right
  after a respawn, when every thread runs and every driver answers, the program can run on, with one pass of
  each thread, to a state in which the child answers 200 to the readiness probe and the page has for every
  GPU the score of its own pass.\<close>

theorem healthy_round_makes_ready:
  assumes "reach (sys_init e ms) (sys_step sz encode decode (ms_ex ms)) s" "wire_ok sz encode decode s" "receiving s"
    and "list_all (\<lambda>i. healthy_thread (sy_threads s ! i) \<and> env_error (envs i) = None \<and>
      framed sz encode decode (ipc_msg (t_ctx (round_passes (ms_ex ms) envs s i)))) [0..<length (sy_threads s)]"
  shows "\<exists>u c. (serve_step sz encode decode (ms_ex ms))\<^sup>*\<^sup>* s u \<and> sy_child u = Some c \<and>
    sy_threads u = map (round_passes (ms_ex ms) envs s) [0..<length (sy_threads s)] \<and>
    rsp_status (handle_request b1 b2 now c ''GET'' ''/ready'') = 200 \<and>
    list_all (\<lambda>i. let sn = msg_snapshot (ipc_msg (t_ctx (round_passes (ms_ex ms) envs s i)))
      in slot_view c i = Some sn \<and> sn_last_poll_ms sn = pe_now_ms (envs i) \<and> score_line sn \<in> set (metrics_chunks (g_slots c)))
      [0..<length (sy_threads s)]"
proof -
  let ?n = "length (sy_threads s)" and ?sn = "\<lambda>i. msg_snapshot (ipc_msg (t_ctx (round_passes (ms_ex ms) envs s i)))"
  have ok: "\<forall>i<?n. healthy_thread (sy_threads s ! i) \<and> env_error (envs i) = None \<and>
      framed sz encode decode (ipc_msg (t_ctx (round_passes (ms_ex ms) envs s i)))"
    using assms(4) by (simp add: list_all_iff)
  obtain u where u: "(serve_step sz encode decode (ms_ex ms))\<^sup>*\<^sup>* s u" "receiving u"
    "sy_threads u = map (round_passes (ms_ex ms) envs s) [0..<?n]" "\<forall>i<?n. child_view u i = Some (?sn i)"
    using healthy_round [OF assms(1-3) ok order_refl] by auto
  obtain c where c: "sy_child u = Some c" using u(2) by (auto simp: receiving_def)
  have inv: "sys_inv e ms u" by (rule sys.reach_inv [OF serve_reach [OF assms(1) u(1)]])
  have ci: "child_inv c" "length (g_slots c) = ?n" using inv c u(3) by (auto simp: sys_inv_def child_inv_def)
  have view: "slot_view c i = Some (?sn i)" if "i < ?n" for i using u(4) c that by (simp add: child_view_def)
  then have rcv: "received (g_slots c ! i) \<and> snap (g_slots c ! i) = ?sn i" if "i < ?n" for i
    using view [OF that] by (simp add: slot_view_def split: if_splits)
  then have "g_all_ready c" using ci by (simp add: child_inv_def list_all_length)
  then have "rsp_status (handle_request b1 b2 now c ''GET'' ''/ready'') = 200" by (simp add: handle_request_def plain_def)
  moreover have "score_line (?sn i) \<in> set (metrics_chunks (g_slots c))" if "i < ?n" for i
    using rcv [OF that] ci(2) that score_line_on_page [of "g_slots c ! i" "g_slots c"] by auto
  moreover have "sn_last_poll_ms (?sn i) = pe_now_ms (envs i)" if "i < ?n" for i
    using round_pass_time [OF assms(1)] ok that by blast
  ultimately show ?thesis using u(1,3) c view by (intro exI [of _ u] exI [of _ c]) (simp add: list_all_iff Let_def)
qed

theorem healthy_round_makes_ready_witness:
  "\<exists>ms w u c. reach (sys_init (demo_main 1) ms) (sys_step 3 demo_encode demo_decode (ms_ex ms)) w \<and>
     rsp_status (handle_request True True 0 (http_start 1 cfg_defaults) ''GET'' ''/ready'') = 503 \<and>
     sy_child w = Some (http_start 1 cfg_defaults) \<and> (serve_step 3 demo_encode demo_decode (ms_ex ms))\<^sup>*\<^sup>* w u \<and>
     sy_child u = Some c \<and> rsp_status (handle_request True True 0 c ''GET'' ''/ready'') = 200"
proof (rule demo_start)
  fix ms :: main_state and t and w :: "(gpu_ipc_msg_t \<times> nat) system"
  assume i0: "sys_init (demo_main 1) ms w" and w: "sy_threads w = [t]" "sy_child w = Some (http_start 1 cfg_defaults)"
    and t: "t_running t" "c_gpu_available (t_ctx t)" "\<not> c_stop (t_ctx t)"
  have r: "reach (sys_init (demo_main 1) ms) (sys_step 3 demo_encode demo_decode (ms_ex ms)) w"
    by (rule reach_init [where init = "sys_init (demo_main 1) ms", OF i0])
  have rec: "receiving w" by (simp add: receiving_def w http_start_def)
  have "framed 3 demo_encode demo_decode m" for m by (simp add: framed_def demo_encode_length demo_decode_encode)
  then have "list_all (\<lambda>i. healthy_thread (sy_threads w ! i) \<and> env_error (demo_env 0) = None \<and>
      framed 3 demo_encode demo_decode (ipc_msg (t_ctx (round_passes (ms_ex ms) (\<lambda>_. demo_env 0) w i)))) [0..<length (sy_threads w)]"
    using t by (simp add: w healthy_thread_def demo_env_error)
  from healthy_round_makes_ready [OF r demo_wire_ok rec this, of True True 0]
  obtain u c where uc: "(serve_step 3 demo_encode demo_decode (ms_ex ms))\<^sup>*\<^sup>* w u" "sy_child u = Some c"
    "rsp_status (handle_request True True 0 c ''GET'' ''/ready'') = 200" by blast
  have "rsp_status (handle_request True True 0 (http_start 1 cfg_defaults) ''GET'' ''/ready'') = 503"
    by (simp add: handle_request_def http_start_def plain_def)
  then show ?thesis using r w(2) uc by (intro exI [of _ ms] exI [of _ w] exI [of _ u] exI [of _ c]) simp
qed

text \<open>C5. A lost GPU is reported: once the thread of a GPU that was on the page has ended, then, whatever happens
  while that child serves, it answers 503 to the liveness probe at every time at which each of the snapshots
  that the GPU has published is older than the threshold. Nothing else that is polled can hide it.\<close>

theorem lost_gpu_fails_liveness:
  assumes "reach (sys_init e ms) (sys_step sz encode decode (ms_ex ms)) s"
    and "(serve_step sz encode decode (ms_ex ms))\<^sup>*\<^sup>* s u" "wire_ok sz encode decode u"
    and "i < length (ms_ctxs ms)" "\<not> t_running (sy_threads s ! i)" "child_view s i \<noteq> None"
    and "sy_child u = Some c" "list_all (\<lambda>sn. word_of_int (g_stale_ms c) < now - sn_last_poll_ms sn) (published s ! i)"
  shows "rsp_status (handle_request b1 b2 now c ''GET'' ''/live'') = 503"
proof -
  have len: "i < length (sy_threads s)" using sys.reach_inv [OF assms(1)] assms(4) by (simp add: sys_inv_def)
  have ru: "reach (sys_init e ms) (sys_step sz encode decode (ms_ex ms)) u" by (rule serve_reach [OF assms(1,2)])
  obtain sn where sn: "child_view u i = Some sn" using serving_keeps_view [OF assms(1-4,6)] by blast
  have "sn \<in> msg_snapshot ` set (t_sent (sy_threads u ! i))" using shown_was_sent [OF ru assms(3,4) sn] by blast
  then have "sn \<in> set (published s ! i)" using ended_thread_frozen [OF assms(2,5) len] len by (simp add: published_def)
  then have old: "word_of_int (g_stale_ms c) < now - sn_last_poll_ms sn" using assms(8) by (simp add: list_all_iff)
  have "i < length (g_slots c)" using sys.reach_inv [OF ru] assms(4,7) by (auto simp: sys_inv_def child_inv_def)
  then have "g_slots c ! i \<in> set (g_slots c)" "received (g_slots c ! i)" "snap (g_slots c ! i) = sn"
    using sn assms(7) by (simp_all add: child_view_def slot_view_def split: if_splits)
  then have "\<not> check_liveness now (g_stale_ms c) (g_slots c)" using check_liveness_member old by blast
  then show ?thesis by (simp add: handle_request_def plain_def)
qed

theorem lost_gpu_fails_liveness_witness:
  "\<exists>ms u c now. reach (sys_init (demo_main 1) ms) (sys_step 3 demo_encode demo_decode (ms_ex ms)) u \<and>
     \<not> t_running (sy_threads u ! 0) \<and> sy_child u = Some c \<and> rsp_status (handle_request True True now c ''GET'' ''/live'') = 503"
proof -
  obtain ms s and m :: gpu_ipc_msg_t where s: "reach (sys_init (demo_main 1) ms) (sys_step 3 demo_encode demo_decode (ms_ex ms)) s"
    "length (ms_ctxs ms) = 1" "map t_sent (sy_threads s) = [[m]]" "child_view s 0 = Some (msg_snapshot m)"
    "sy_child s = Some (receiver_pass (Some m) (http_start 1 cfg_defaults))"
    by (rule demo_system)
  obtain u where u: "reach (sys_init (demo_main 1) ms) (sys_step 3 demo_encode demo_decode (ms_ex ms)) u" "\<not> t_running (sy_threads u ! 0)"
    "published u = [[msg_snapshot m]]" "sy_child u = sy_child s"
    using demo_thread_ends [OF s(1,3)] by blast
  let ?c = "receiver_pass (Some m) (http_start 1 cfg_defaults)"
  have "g_stale_ms ?c = 5000" by (simp add: receiver_keeps http_start_def stale_threshold_def cfg_defaults_def)
  then have "rsp_status (handle_request True True (sn_last_poll_ms (msg_snapshot m) + 6000) ?c ''GET'' ''/live'') = 503"
    using lost_gpu_fails_liveness [OF u(1) rtranclp.rtrancl_refl demo_wire_ok _ u(2), of ?c] s(2,4,5) u(3,4) by (simp add: child_view_def)
  then show ?thesis using u s(5) by (intro exI [of _ ms] exI [of _ u] exI [of _ ?c] exI) simp
qed

text \<open>A lost GPU keeps a new child from ever being ready: once its thread has ended it sends nothing
  more, whatever happens, and a child that is started afterwards answers 503 to the readiness
  probe after any messages of the other GPUs.\<close>

theorem lost_gpu_blocks_readiness:
  assumes "\<not> t_running t" "poll_step ex t u"
    and "0 < n" "n \<le> 256" "int i < n" "list_all (\<lambda>m. msg_gpu_index m \<noteq> int i) ms"
    and "st = ipc_receiver_thread (map Some ms) (http_start n cfg)"
  shows "t_sent u = t_sent t \<and> \<not> t_running u \<and> rsp_status (handle_request b c now st ''GET'' ''/ready'') = 503"
proof -
  have "newest_msg i ms = None" using assms(6) by (induction ms) (auto simp: newest_msg_def Let_def)
  moreover have "slot_view st i = newest_msg i ms" "i < length (g_slots st)" and inv: "child_inv st"
    using receiver_run [OF assms(3,4,7)] assms(5) by (auto simp: child_inv_def)
  ultimately have "\<not> list_all received (g_slots st)"
    by (auto simp: slot_view_def list_all_length split: if_splits)
  then have "\<not> g_all_ready st" using inv by (simp add: child_inv_def)
  moreover have "t_sent u = t_sent t \<and> \<not> t_running u" using assms(2,1) by (cases rule: poll_step.cases) auto
  ultimately show ?thesis by (simp add: handle_request_def plain_def)
qed

theorem lost_gpu_blocks_readiness_witness:
  "rsp_status (handle_request True True 0
      (ipc_receiver_thread (map Some [demo_msg 0 50, demo_msg 0 60]) (http_start 2 cfg_defaults)) ''GET'' ''/ready'') = 503"
proof -
  let ?t = "\<lparr>t_ctx = demo_ctx, t_running = False, t_sent = []\<rparr>"
  have "poll_step demo_ex ?t (?t\<lparr>t_ctx := collector_stop (t_ctx ?t)\<rparr>)" by (rule poll_step.stop)
  from lost_gpu_blocks_readiness [OF _ this, of 2 1 "[demo_msg 0 50, demo_msg 0 60]" _ cfg_defaults True True 0]
  show ?thesis by (simp add: demo_msg_def)
qed

end
